(* ===== verification/Prelude.thy ===== *)
theory Prelude imports Main "HOL-Library.Word" begin

text \<open>
  Shared vocabulary of the development: machine types, undefined behaviour as an error value,
  bounds-checked memory blocks, C integer conversions and the hint collections that the
  component theories extend.

  A block obtained from \<open>malloc\<close> is a list of cells; a cell that was never written is
  \<open>None\<close>. Every access is checked, so that a read or write the C++ standard leaves undefined
  is the value \<open>Inl\<close> of the model. Allocation itself is assumed to succeed.
\<close>

named_theorems ub_simps "evaluation of checked memory accesses"
named_theorems layout_simps "byte layout of the wire format"

section \<open>Machine types\<close>

type_synonym byte = "8 word"
type_synonym u16 = "16 word"
type_synonym u32 = "32 word"
type_synonym addr = nat
type_synonym ptr = "nat option"
type_synonym mem = "byte option list"

datatype ub =
    OutOfBounds
  | UninitRead
  | NullDeref
  | UseAfterFree
  | DoubleFree
  | Deadlock
  | AssertFail
  | SignedOverflow

type_synonym 'a result = "ub + 'a"

section \<open>Results\<close>

definition bnd :: "'a result \<Rightarrow> ('a \<Rightarrow> 'b result) \<Rightarrow> 'b result" where
  "bnd r f = (case r of Inl e \<Rightarrow> Inl e | Inr x \<Rightarrow> f x)"

lemma bnd_Inr [simp]: "bnd (Inr x) f = f x"
  by (simp add: bnd_def)

lemma bnd_Inl [simp]: "bnd (Inl e) f = Inl e"
  by (simp add: bnd_def)

lemma bnd_eq_Inr: "bnd r f = Inr y \<longleftrightarrow> (\<exists>x. r = Inr x \<and> f x = Inr y)"
  by (cases r) auto

lemma bnd_InlI:
  "(\<And>e'. r = Inl e' \<Longrightarrow> e' = e) \<Longrightarrow> (\<And>x. r = Inr x \<Longrightarrow> f x = Inl e) \<Longrightarrow> bnd r f = Inl e"
  by (cases r) auto

lemma bnd_split: "P (bnd r f) \<longleftrightarrow> (\<forall>e. r = Inl e \<longrightarrow> P (Inl e)) \<and> (\<forall>x. r = Inr x \<longrightarrow> P (f x))"
  by (cases r) auto

section \<open>Memory blocks\<close>

definition malloc_block :: "nat \<Rightarrow> mem" where
  "malloc_block n = replicate n None"

definition mem_read :: "mem \<Rightarrow> nat \<Rightarrow> nat \<Rightarrow> byte list result" where
  "mem_read m off n =
     (if length m < off + n then Inl OutOfBounds
      else if None \<in> set (take n (drop off m)) then Inl UninitRead
      else Inr (map the (take n (drop off m))))"

definition mem_write :: "mem \<Rightarrow> nat \<Rightarrow> byte list \<Rightarrow> mem result" where
  "mem_write m off bs =
     (if length m < off + length bs then Inl OutOfBounds
      else Inr (take off m @ map Some bs @ drop (off + length bs) m))"

text \<open>
  \<open>memcpy(dst + off, src, n)\<close> for an \<open>int\<close> count: a negative \<open>n\<close> converts to a \<open>size_t\<close> above the size of
  any object.
\<close>

definition mem_copy :: "mem \<Rightarrow> nat \<Rightarrow> byte list \<Rightarrow> int \<Rightarrow> mem result" where
  "mem_copy m off src n =
     (if n < 0 \<or> length src < nat n then Inl OutOfBounds
      else mem_write m off (take (nat n) src))"

lemma length_malloc_block [simp]: "length (malloc_block n) = n"
  by (simp add: malloc_block_def)

lemma mem_read_init [ub_simps]:
  "mem_read (map Some bs) off n =
     (if length bs < off + n then Inl OutOfBounds else Inr (take n (drop off bs)))"
  by (auto simp: mem_read_def drop_map take_map comp_def)

lemma mem_write_ok [ub_simps]:
  "off + length bs \<le> length m \<Longrightarrow>
     mem_write m off bs = Inr (take off m @ map Some bs @ drop (off + length bs) m)"
  by (simp add: mem_write_def)

lemma mem_write_oob [ub_simps]:
  "length m < off + length bs \<Longrightarrow> mem_write m off bs = Inl OutOfBounds"
  by (simp add: mem_write_def)

lemma mem_write_err: "mem_write m off bs = Inl e \<Longrightarrow> e = OutOfBounds"
  by (simp add: mem_write_def split: if_splits)

lemma mem_copy_bad [ub_simps]: "n < 0 \<or> length src < nat n \<Longrightarrow> mem_copy m off src n = Inl OutOfBounds"
  by (auto simp: mem_copy_def)

lemma mem_write_length: "mem_write m off bs = Inr m' \<Longrightarrow> length m' = length m"
  by (auto simp: mem_write_def split: if_splits)

section \<open>C integer conversions\<close>

text \<open>The value of \<open>x\<close> converted to an integer type of the given signedness and width.\<close>

record int_ty =
  ty_signed :: bool
  ty_width :: nat

definition ty_min :: "int_ty \<Rightarrow> int" where
  "ty_min T = (if ty_signed T then - (2 ^ (ty_width T - 1)) else 0)"

definition ty_max :: "int_ty \<Rightarrow> int" where
  "ty_max T = (if ty_signed T then 2 ^ (ty_width T - 1) - 1 else 2 ^ ty_width T - 1)"

definition in_ty :: "int_ty \<Rightarrow> int \<Rightarrow> bool" where
  "in_ty T x \<longleftrightarrow> ty_min T \<le> x \<and> x \<le> ty_max T"

definition c_conv :: "int_ty \<Rightarrow> int \<Rightarrow> int" where
  "c_conv T x = (x - ty_min T) mod 2 ^ ty_width T + ty_min T"

text \<open>C division and remainder truncate towards zero.\<close>

definition c_div :: "int \<Rightarrow> int \<Rightarrow> int" where
  "c_div a b = sgn a * sgn b * (\<bar>a\<bar> div \<bar>b\<bar>)"

lemma ty_range: "0 < ty_width T \<Longrightarrow> ty_max T = ty_min T + 2 ^ ty_width T - 1"
proof -
  assume "0 < ty_width T"
  then have "(2::int) ^ ty_width T = 2 * 2 ^ (ty_width T - 1)"
    by (cases "ty_width T") auto
  then show ?thesis by (simp add: ty_max_def ty_min_def)
qed

lemma c_conv_id: "0 < ty_width T \<Longrightarrow> in_ty T x \<Longrightarrow> c_conv T x = x"
  by (simp add: c_conv_def in_ty_def ty_range)

lemma c_conv_in_ty: "0 < ty_width T \<Longrightarrow> in_ty T (c_conv T x)"
  by (simp add: c_conv_def in_ty_def ty_range)

lemma c_conv_cong: "(x - y) mod 2 ^ ty_width T = 0 \<Longrightarrow> c_conv T x = c_conv T y"
proof -
  assume "(x - y) mod 2 ^ ty_width T = 0"
  then have "x mod 2 ^ ty_width T = y mod 2 ^ ty_width T"
    by (metis mod_eq_dvd_iff mod_eq_0_iff_dvd)
  then show ?thesis
    unfolding c_conv_def by (metis mod_diff_cong)
qed

section \<open>Lists\<close>

lemma take_drop_nth_append: "length xs = n \<Longrightarrow> take m (drop n (xs @ ys)) = take m ys"
  by simp

end
