(* ===== verification/AutoBuffer.thy ===== *)
theory AutoBuffer imports Prelude begin

text \<open>
  The interface of \<open>AutoBuffer\<close> (\<open>libs/mars/include/mars/comm/autobuffer.h\<close>). The header only
  declares the class, its members are compiled into the Mars library, so the operations are a
  parameter of the model: a record of functions over an abstract buffer type. \<open>autobuffer_ok\<close>
  states what the wrapper relies on: a write at the position replaces or appends bytes and
  advances the position, reserving room keeps the bytes already there, seeking to the start keeps
  the bytes. Nothing is assumed about bytes between the length and the capacity.
\<close>

datatype TSeek = ESeekStart | ESeekCur | ESeekEnd

record 'b autobuffer_api =
  ab_mem :: "'b \<Rightarrow> byte list"
  ab_length :: "'b \<Rightarrow> nat"
  ab_pos :: "'b \<Rightarrow> nat"
  ab_alloc_write :: "'b \<Rightarrow> nat \<Rightarrow> 'b"
  ab_write :: "'b \<Rightarrow> byte list \<Rightarrow> 'b"
  ab_write_seek :: "'b \<Rightarrow> TSeek \<Rightarrow> byte list \<Rightarrow> 'b"
  ab_seek :: "'b \<Rightarrow> int \<Rightarrow> TSeek \<Rightarrow> 'b"
  ab_reset :: "'b \<Rightarrow> 'b"

text \<open>\<open>ab_mem\<close> is the whole block behind \<open>Ptr(0)\<close>, \<open>ab_content\<close> its first \<open>Length()\<close> bytes.\<close>

definition ab_content :: "'b autobuffer_api \<Rightarrow> 'b \<Rightarrow> byte list" where
  "ab_content api b = take (ab_length api b) (ab_mem api b)"

definition overwrite :: "byte list \<Rightarrow> nat \<Rightarrow> byte list \<Rightarrow> byte list" where
  "overwrite c p bs = take p c @ bs @ drop (p + length bs) c"

definition autobuffer_ok :: "'b autobuffer_api \<Rightarrow> bool" where
  "autobuffer_ok api \<longleftrightarrow>
     (\<forall>b. ab_length api b \<le> length (ab_mem api b) \<and> ab_pos api b \<le> ab_length api b) \<and>
     (\<forall>b n. ab_pos api (ab_alloc_write api b n) = ab_pos api b \<and>
        ab_length api (ab_alloc_write api b n) = max (ab_length api b) (ab_pos api b + n) \<and>
        take (ab_length api b) (ab_content api (ab_alloc_write api b n)) = ab_content api b) \<and>
     (\<forall>b bs. ab_content api (ab_write api b bs) = overwrite (ab_content api b) (ab_pos api b) bs \<and>
        ab_pos api (ab_write api b bs) = ab_pos api b + length bs) \<and>
     (\<forall>b bs. ab_content api (ab_write_seek api b ESeekCur bs) =
        overwrite (ab_content api b) (ab_pos api b) bs) \<and>
     (\<forall>b. ab_content api (ab_seek api b 0 ESeekStart) = ab_content api b \<and>
        ab_pos api (ab_seek api b 0 ESeekStart) = 0) \<and>
     (\<forall>b. ab_content api (ab_reset api b) = [] \<and> ab_pos api (ab_reset api b) = 0)"

definition ab_empty :: "'b autobuffer_api \<Rightarrow> 'b \<Rightarrow> bool" where
  "ab_empty api b \<longleftrightarrow> ab_length api b = 0"

lemma ab_content_length: "autobuffer_ok api \<Longrightarrow> length (ab_content api b) = ab_length api b"
  by (simp add: autobuffer_ok_def ab_content_def)

lemma ab_length_mem: "autobuffer_ok api \<Longrightarrow> ab_length api b \<le> length (ab_mem api b)"
  by (simp add: autobuffer_ok_def)

lemma ab_mem_prefix: "k \<le> ab_length api b \<Longrightarrow> take k (ab_mem api b) = take k (ab_content api b)"
  by (simp add: ab_content_def min_def)

lemma ab_empty_pos: "autobuffer_ok api \<Longrightarrow> ab_empty api b \<Longrightarrow> ab_pos api b = 0"
  unfolding autobuffer_ok_def ab_empty_def by (metis le_zero_eq)

lemma ab_empty_content: "ab_empty api b \<Longrightarrow> ab_content api b = []"
  by (simp add: ab_empty_def ab_content_def)

lemma ab_write_content: "autobuffer_ok api \<Longrightarrow>
    ab_content api (ab_write api b bs) = overwrite (ab_content api b) (ab_pos api b) bs"
  by (simp add: autobuffer_ok_def)

lemma ab_write_seek_content: "autobuffer_ok api \<Longrightarrow>
    ab_content api (ab_write_seek api b ESeekCur bs) = overwrite (ab_content api b) (ab_pos api b) bs"
  by (simp add: autobuffer_ok_def)

lemma ab_seek_start: "autobuffer_ok api \<Longrightarrow>
    ab_content api (ab_seek api b 0 ESeekStart) = ab_content api b \<and>
    ab_pos api (ab_seek api b 0 ESeekStart) = 0"
  by (simp add: autobuffer_ok_def)

lemma ab_alloc_pos: "autobuffer_ok api \<Longrightarrow> ab_pos api (ab_alloc_write api b n) = ab_pos api b"
  by (simp add: autobuffer_ok_def)

lemma ab_alloc_length: "autobuffer_ok api \<Longrightarrow>
    ab_length api (ab_alloc_write api b n) = max (ab_length api b) (ab_pos api b + n)"
  by (simp add: autobuffer_ok_def)

lemma overwrite_all: "length c \<le> length bs \<Longrightarrow> overwrite c 0 bs = bs"
  by (simp add: overwrite_def)

text \<open>Writing into an empty buffer leaves just the bytes written.\<close>

lemma ab_write_empty: "autobuffer_ok api \<Longrightarrow> ab_empty api b \<Longrightarrow>
    ab_content api (ab_write api b bs) = bs"
  by (simp add: ab_write_content ab_empty_pos ab_empty_content overwrite_all)

lemma ab_write_seek_empty: "autobuffer_ok api \<Longrightarrow> ab_empty api b \<Longrightarrow>
    ab_content api (ab_write_seek api b ESeekCur bs) = bs"
  by (simp add: ab_write_seek_content ab_empty_pos ab_empty_content overwrite_all)

text \<open>Reserving exactly the room of the next write does not show in the result.\<close>

lemma ab_alloc_write_empty:
  assumes "autobuffer_ok api" and "ab_empty api b"
  shows "ab_content api (ab_write api (ab_alloc_write api b (length bs)) bs) = bs"
proof -
  have "length (ab_content api (ab_alloc_write api b (length bs))) = length bs"
    using assms by (simp add: ab_content_length ab_alloc_length ab_empty_pos ab_empty_def)
  then show ?thesis
    using assms by (simp add: ab_write_content ab_alloc_pos ab_empty_pos overwrite_all)
qed

text \<open>
  A concrete buffer, bytes and a position, at which the hypothesis can be instantiated.
\<close>

definition list_pos :: "byte list \<times> nat \<Rightarrow> nat" where
  "list_pos b = min (snd b) (length (fst b))"

definition list_put :: "byte list \<times> nat \<Rightarrow> byte list \<Rightarrow> byte list \<times> nat" where
  "list_put b bs = (overwrite (fst b) (list_pos b) bs, list_pos b + length bs)"

definition list_reserve :: "byte list \<times> nat \<Rightarrow> nat \<Rightarrow> byte list \<times> nat" where
  "list_reserve b n =
     (fst b @ replicate (list_pos b + n - length (fst b)) 0, list_pos b)"

definition list_buffer :: "(byte list \<times> nat) autobuffer_api" where
  "list_buffer =
     \<lparr>ab_mem = fst, ab_length = (\<lambda>b. length (fst b)), ab_pos = list_pos,
      ab_alloc_write = list_reserve, ab_write = list_put,
      ab_write_seek = (\<lambda>b s bs. list_put b bs),
      ab_seek = (\<lambda>b i s. (fst b, nat i)), ab_reset = (\<lambda>b. ([], 0))\<rparr>"

lemma list_buffer_sel [simp]:
  "ab_mem list_buffer = fst"
  "ab_length list_buffer = (\<lambda>b. length (fst b))"
  "ab_pos list_buffer = list_pos"
  "ab_alloc_write list_buffer = list_reserve"
  "ab_write list_buffer = list_put"
  "ab_write_seek list_buffer = (\<lambda>b s bs. list_put b bs)"
  "ab_seek list_buffer = (\<lambda>b i s. (fst b, nat i))"
  "ab_reset list_buffer = (\<lambda>b. ([], 0))"
  by (simp_all add: list_buffer_def)

lemma list_buffer_ok: "autobuffer_ok list_buffer"
  by (auto simp: autobuffer_ok_def ab_content_def list_pos_def list_reserve_def list_put_def
      overwrite_def max_def min_def)

end
