(* ===== verification/Endian.thy ===== *)
theory Endian imports Prelude begin

unbundle bit_operations_syntax

text \<open>
  The two byte orders of the program. A \<open>uint32_t\<close> field of a packed struct that is copied with
  \<open>memcpy\<close> has the host's order, little-endian on every target of the build (x86, x64, ARM);
  \<open>htonl\<close> (\<open>longlink_packer.cpp\<close>, \<open>TcpClient.cpp\<close>) gives network order. Both are one
  interface, a fixed-width codec.
\<close>

locale word_codec =
  fixes enc :: "u32 \<Rightarrow> byte list" and dec :: "byte list \<Rightarrow> u32"
  assumes enc_length: "length (enc w) = 4"
    and dec_enc: "dec (enc w) = w"
    and enc_dec: "length bs = 4 \<Longrightarrow> enc (dec bs) = bs"
begin

lemma enc_inj: "enc v = enc w \<Longrightarrow> v = w"
  by (metis dec_enc)

lemma take_enc: "take 4 (enc w @ bs) = enc w"
  by (simp add: enc_length)

lemma drop_enc: "drop 4 (enc w @ bs) = bs"
  by (simp add: enc_length)

lemma dec_append: "dec (take 4 (enc w @ bs)) = w"
  by (simp only: take_enc dec_enc)

lemma enc_prefix_inj: "enc v @ xs = enc w @ ys \<Longrightarrow> v = w \<and> xs = ys"
  by (metis dec_append drop_enc)

lemma split_word: "4 \<le> length bs \<Longrightarrow> bs = enc (dec (take 4 bs)) @ drop 4 bs"
  by (simp add: enc_dec)

end

definition le32 :: "u32 \<Rightarrow> byte list" where
  "le32 w = [ucast w, ucast (drop_bit 8 w), ucast (drop_bit 16 w), ucast (drop_bit 24 w)]"

definition le32_dec :: "byte list \<Rightarrow> u32" where
  "le32_dec bs =
     ucast (bs ! 0) OR push_bit 8 (ucast (bs ! 1)) OR push_bit 16 (ucast (bs ! 2)) OR
     push_bit 24 (ucast (bs ! 3))"

definition be16 :: "u16 \<Rightarrow> byte list" where
  "be16 w = [ucast (drop_bit 8 w), ucast w]"

definition be32 :: "u32 \<Rightarrow> byte list" where
  "be32 w = rev (le32 w)"

definition be32_dec :: "byte list \<Rightarrow> u32" where
  "be32_dec bs = le32_dec (rev bs)"

lemma le32_dec_enc: "le32_dec (le32 w) = w"
proof (rule bit_eqI)
  fix n
  assume "possible_bit TYPE(32 word) n"
  then show "bit (le32_dec (le32 w)) n \<longleftrightarrow> bit w n"
    by (cases "n < 8"; cases "n < 16"; cases "n < 24")
      (auto simp: le32_dec_def le32_def bit_simps not_less)
qed

lemma length4_cases: "length bs = 4 \<Longrightarrow> \<exists>a b c d. bs = [a, b, c, d]"
  by (auto simp: length_Suc_conv eval_nat_numeral)

lemma le32_enc_dec: "length bs = 4 \<Longrightarrow> le32 (le32_dec bs) = bs"
proof -
  assume "length bs = 4"
  then obtain a b c d where "bs = [a, b, c, d]"
    using length4_cases by blast
  moreover have "8 \<le> n \<Longrightarrow> \<not> bit x n" for x :: byte and n
    using bit_imp_le_length [of x n] by auto
  ultimately show ?thesis
    by (auto simp: le32_dec_def le32_def intro!: bit_word_eqI) (auto simp: bit_simps)
qed

interpretation le: word_codec le32 le32_dec
  by unfold_locales (simp_all add: le32_def le32_dec_enc [unfolded le32_def] le32_enc_dec [unfolded le32_def])

interpretation be: word_codec be32 be32_dec
  by unfold_locales (simp_all add: be32_def be32_dec_def le.enc_length le.dec_enc le.enc_dec)

end
