(* ===== verification/ImMessage.thy ===== *)
theory ImMessage imports Endian begin

text \<open>
  \<open>src/src/im_message.h\<close> and \<open>src/src/im_message.cpp\<close>: the message of the client/server protocol.
  An \<open>ImMessage\<close> owns at most one block, a packed \<open>MessageFormat\<close> header (magic number, message
  id, body length, 4 bytes each) followed by the body. The static counter \<open>messageId\<close> is passed
  and returned. The block is raw memory: the getters read the fields at their offsets, with every
  access checked.
\<close>

section \<open>Data\<close>

record im_message =
  m_message :: "mem option"

definition magic_num :: u32 where
  "magic_num = 0xdeadbeaf"

definition sizeof_MessageFormat :: nat where
  "sizeof_MessageFormat = 4 + 4 + 4"

definition magicNum_off :: nat where
  "magicNum_off = 0"

definition messageId_off :: nat where
  "messageId_off = 4"

definition len_off :: nat where
  "len_off = 8"

definition data_off :: nat where
  "data_off = 12"

definition messageId_init :: u32 where
  "messageId_init = 10000"

lemmas layout_consts [layout_simps] =
  sizeof_MessageFormat_def magicNum_off_def messageId_off_def len_off_def data_off_def

section \<open>Operations\<close>

definition newMessageId :: "u32 \<Rightarrow> u32 \<times> u32" where
  "newMessageId mid = (mid, mid + 1)"

text \<open>\<open>ImMessage(const char* data, const int size)\<close>; \<open>size\<close> is a 32-bit \<open>int\<close>, read with \<open>sint\<close>.\<close>

definition ImMessage_new :: "byte list \<Rightarrow> u32 \<Rightarrow> u32 \<Rightarrow> (im_message \<times> u32) result" where
  "ImMessage_new data sz mid =
     (let msgSize = of_nat sizeof_MessageFormat + sz;
          blk = malloc_block (unat msgSize)
      in bnd (mem_write blk len_off (le32 sz)) (\<lambda>blk.
         bnd (mem_write blk magicNum_off (le32 magic_num)) (\<lambda>blk.
         let (i, mid') = newMessageId mid
         in bnd (mem_write blk messageId_off (le32 i)) (\<lambda>blk.
            bnd (mem_copy blk data_off data (sint sz)) (\<lambda>blk.
            Inr (\<lparr>m_message = Some blk\<rparr>, mid'))))))"

definition ImMessage_empty :: im_message where
  "ImMessage_empty = \<lparr>m_message = None\<rparr>"

definition ImMessage_delete :: "im_message \<Rightarrow> im_message" where
  "ImMessage_delete msg =
     (if m_message msg \<noteq> None then msg\<lparr>m_message := None\<rparr> else msg)"

definition deref :: "im_message \<Rightarrow> nat \<Rightarrow> nat \<Rightarrow> byte list result" where
  "deref msg off n =
     (case m_message msg of None \<Rightarrow> Inl NullDeref | Some blk \<Rightarrow> mem_read blk off n)"

definition header_field :: "im_message \<Rightarrow> nat \<Rightarrow> u32 result" where
  "header_field msg off = bnd (deref msg off 4) (\<lambda>bs. Inr (le32_dec bs))"

definition getData :: "im_message \<Rightarrow> byte list result" where
  "getData msg = bnd (header_field msg len_off) (\<lambda>n. deref msg data_off (unat n))"

definition getMessage :: "im_message \<Rightarrow> mem option" where
  "getMessage msg = m_message msg"

definition getMessageSize :: "im_message \<Rightarrow> u32 result" where
  "getMessageSize msg =
     bnd (header_field msg len_off) (\<lambda>n. Inr (n + of_nat sizeof_MessageFormat))"

definition isValid :: "im_message \<Rightarrow> bool result" where
  "isValid msg = bnd (header_field msg magicNum_off) (\<lambda>m. Inr (m = magic_num))"

definition getMessageId :: "im_message \<Rightarrow> u32 result" where
  "getMessageId msg = header_field msg messageId_off"

text \<open>
  \<open>parse(msg, size)\<close>. A negative \<open>size\<close> asks \<open>malloc\<close> for more than any object can hold and copies
  into its null result.
\<close>

definition parse :: "im_message \<Rightarrow> byte list \<Rightarrow> u32 \<Rightarrow> (bool \<times> im_message) result" where
  "parse msg src sz =
     (if m_message msg \<noteq> None then Inr (False, msg)
      else if sint sz < 0 then Inl NullDeref
      else bnd (mem_copy (malloc_block (nat (sint sz))) 0 src (sint sz)) (\<lambda>blk.
        let msg' = msg\<lparr>m_message := Some blk\<rparr>
        in bnd (header_field msg' magicNum_off) (\<lambda>m. Inr (m = magic_num, msg'))))"

section \<open>Wire format\<close>

definition frame :: "u32 \<Rightarrow> byte list \<Rightarrow> byte list" where
  "frame i body = le32 magic_num @ le32 i @ le32 (of_nat (length body)) @ body"

definition of_bytes :: "byte list \<Rightarrow> im_message" where
  "of_bytes bs = \<lparr>m_message = Some (map Some bs)\<rparr>"

definition body_fits :: "byte list \<Rightarrow> bool" where
  "body_fits body \<longleftrightarrow> length body < 2 ^ 31 - 12"

lemma le32_length [simp]: "length (le32 w) = 4"
  by (rule le.enc_length)

lemma frame_length [simp]: "length (frame i body) = 12 + length body"
  by (simp add: frame_def)

lemma frame_fields [layout_simps]:
  "take 4 (frame i body @ ys) = le32 magic_num"
  "take 4 (drop 4 (frame i body @ ys)) = le32 i"
  "take 4 (drop 8 (frame i body @ ys)) = le32 (of_nat (length body))"
  "drop 12 (frame i body @ ys) = body @ ys"
  by (simp_all add: frame_def)

lemmas frame_fields_exact [layout_simps] = frame_fields [where ys = "[]", simplified]

lemma header_field_of_bytes [layout_simps]:
  "header_field (of_bytes bs) off =
     (if length bs < off + 4 then Inl OutOfBounds else Inr (le32_dec (take 4 (drop off bs))))"
  by (simp add: header_field_def deref_def of_bytes_def ub_simps)

lemma deref_of_bytes [layout_simps]:
  "deref (of_bytes bs) off n =
     (if length bs < off + n then Inl OutOfBounds else Inr (take n (drop off bs)))"
  by (simp add: deref_def of_bytes_def ub_simps)

lemma body_fits_unat: "body_fits body \<Longrightarrow> unat (of_nat (length body) :: u32) = length body"
  by (simp add: body_fits_def unat_of_nat)

lemma sint_shift: "sint (w :: u32) = (uint w + 2 ^ 31) mod 2 ^ 32 - 2 ^ 31"
  by (simp add: sint_uint signed_take_bit_eq_take_bit_shift take_bit_eq_mod)

lemma sint_unat: "sint (w :: u32) = (if unat w < 2 ^ 31 then int (unat w) else int (unat w) - 2 ^ 32)"
proof -
  define n where "n = unat w"
  have b: "int n < 2 ^ 32"
    using unsigned_less [of w] by (simp add: n_def)
  have "sint w = (int n + 2 ^ 31) mod 2 ^ 32 - 2 ^ 31"
    by (simp add: sint_shift n_def)
  also have "\<dots> = (if n < 2 ^ 31 then int n else int n - 2 ^ 32)"
  proof (cases "n < 2 ^ 31")
    case False
    with b have "(int n + 2 ^ 31) mod 2 ^ 32 = int n + 2 ^ 31 - 2 ^ 32"
      by (simp add: mod_pos_geq)
    with False show ?thesis by simp
  qed simp
  finally show ?thesis by (simp add: n_def)
qed

lemma sint_nonneg: "0 \<le> sint (w :: u32) \<longleftrightarrow> unat w < 2 ^ 31"
proof -
  define n where "n = unat w"
  have "int n < 2 ^ 32"
    using unsigned_less [of w] by (simp add: n_def)
  then show ?thesis
    by (auto simp: sint_unat n_def [symmetric])
qed

lemma nat_sint: "unat (w :: u32) < 2 ^ 31 \<Longrightarrow> nat (sint w) = unat w"
  unfolding sint_unat by simp

section \<open>Behaviour\<close>

lemma msgSize_nonneg:
  "unat (sz :: u32) < 2 ^ 31 \<Longrightarrow> unat (of_nat sizeof_MessageFormat + sz) = 12 + unat sz"
  by (simp add: sizeof_MessageFormat_def unat_word_ariths)

lemma ImMessage_new_ok:
  assumes "unat sz < 2 ^ 31" and "unat sz \<le> length data"
  shows "ImMessage_new data sz mid = Inr (of_bytes (frame mid (take (unat sz) data)), mid + 1)"
proof -
  have "of_nat (length (take (unat sz) data)) = sz"
    using assms(2) by (simp add: min_def)
  moreover have "\<not> sint sz < 0"
    using assms(1) sint_nonneg [of sz] by simp
  ultimately show ?thesis
    using assms msgSize_nonneg [OF assms(1)] nat_sint [OF assms(1)]
    by (simp add: ImMessage_new_def Let_def newMessageId_def mem_copy_def mem_write_def
        of_bytes_def frame_def malloc_block_def len_off_def magicNum_off_def messageId_off_def
        data_off_def)
qed

lemma ImMessage_new_bad:
  assumes "\<not> (unat sz < 2 ^ 31 \<and> unat sz \<le> length data)"
  shows "ImMessage_new data sz mid = Inl OutOfBounds"
proof -
  have "sint sz < 0 \<or> length data < nat (sint sz)"
    using assms sint_nonneg [of sz] nat_sint [of sz] by (cases "unat sz < 2 ^ 31") auto
  then show ?thesis
    by (auto simp: ImMessage_new_def Let_def newMessageId_def mem_copy_bad
        intro!: bnd_InlI dest: mem_write_err)
qed

text \<open>The getters on a block of known bytes.\<close>

lemma getData_of_bytes:
  "getData (of_bytes bs) =
     (if length bs < 12 then Inl OutOfBounds
      else let n = unat (le32_dec (take 4 (drop 8 bs)))
           in if length bs < 12 + n then Inl OutOfBounds else Inr (take n (drop 12 bs)))"
  by (auto simp: getData_def layout_simps Let_def)

lemma isValid_of_bytes:
  "isValid (of_bytes bs) =
     (if length bs < 4 then Inl OutOfBounds else Inr (le32_dec (take 4 bs) = magic_num))"
  by (simp add: isValid_def layout_simps)

lemma parse_empty:
  assumes "unat sz < 2 ^ 31"
  shows "parse ImMessage_empty src sz =
     (if length src < unat sz then Inl OutOfBounds
      else bnd (isValid (of_bytes (take (unat sz) src)))
        (\<lambda>v. Inr (v, of_bytes (take (unat sz) src))))"
proof -
  have "\<not> sint sz < 0"
    using assms sint_nonneg [of sz] by simp
  then show ?thesis
    using nat_sint [OF assms]
    by (auto simp: parse_def ImMessage_empty_def mem_copy_def mem_write_def malloc_block_def
        isValid_def of_bytes_def Let_def bnd_def split: sum.splits)
qed

lemma getData_frame: "body_fits body \<Longrightarrow> getData (of_bytes (frame i body @ ys)) = Inr body"
  by (simp add: getData_of_bytes Let_def layout_simps le.dec_enc body_fits_unat)

lemma getMessageSize_frame: "body_fits body \<Longrightarrow>
    getMessageSize (of_bytes (frame i body)) = Inr (of_nat (12 + length body))"
  by (simp add: getMessageSize_def layout_simps le.dec_enc)

lemma getMessageId_frame: "getMessageId (of_bytes (frame i body)) = Inr i"
  by (simp add: getMessageId_def layout_simps le.dec_enc)

lemma isValid_frame: "isValid (of_bytes (frame i body @ ys)) = Inr True"
  by (simp add: isValid_of_bytes layout_simps le.dec_enc)

section \<open>Properties\<close>

text \<open>The constructor \<open>ImMessage(data, size)\<close> is defined exactly when \<open>size\<close> is not negative and
  \<open>data\<close> has that many bytes; it then owns the wire frame of those bytes under the next message
  id and advances the counter by one. Otherwise it writes out of bounds.\<close>

theorem ImMessage_new_total:
  "ImMessage_new data sz mid =
     (if unat sz < 2 ^ 31 \<and> unat sz \<le> length data
      then Inr (of_bytes (frame mid (take (unat sz) data)), mid + 1)
      else Inl OutOfBounds)"
  using ImMessage_new_ok ImMessage_new_bad by simp

text \<open>C20: a message written by the constructor and read back with \<open>parse\<close> is accepted and has
  the same id and the same body.\<close>

theorem ImMessage_roundtrip:
  assumes "body_fits body" and "unat sz = length body" and "unat msz = 12 + length body"
  shows "\<exists>msg bytes msg'.
    ImMessage_new body sz mid = Inr (msg, mid + 1) \<and>
    getMessageSize msg = Inr msz \<and>
    deref msg 0 (unat msz) = Inr bytes \<and>
    parse ImMessage_empty bytes msz = Inr (True, msg') \<and>
    getMessageId msg' = Inr mid \<and> getData msg' = Inr body"
proof -
  have small: "unat sz < 2 ^ 31" "unat msz < 2 ^ 31"
    using assms by (auto simp: body_fits_def)
  have msz: "of_nat (12 + length body) = msz"
    by (simp flip: assms(3))
  have new: "ImMessage_new body sz mid = Inr (of_bytes (frame mid body), mid + 1)"
    using ImMessage_new_ok [OF small(1), of body mid] assms(2) by simp
  have parsed: "parse ImMessage_empty (frame mid body) msz = Inr (True, of_bytes (frame mid body))"
    using isValid_frame [of mid body "[]"] assms(3) by (simp add: parse_empty [OF small(2)])
  show ?thesis
    using new parsed getMessageSize_frame [OF assms(1), of mid] msz assms(3)
      getMessageId_frame [of mid body] getData_frame [OF assms(1), of mid "[]"]
    by (simp add: deref_of_bytes)
qed

theorem ImMessage_roundtrip_witness:
  "\<exists>msg bytes msg'.
    ImMessage_new [104, 105] 2 10000 = Inr (msg, 10000 + 1) \<and>
    getMessageSize msg = Inr 14 \<and>
    deref msg 0 (unat (14 :: u32)) = Inr bytes \<and>
    parse ImMessage_empty bytes 14 = Inr (True, msg') \<and>
    getMessageId msg' = Inr 10000 \<and> getData msg' = Inr [104, 105]"
  by (rule ImMessage_roundtrip) (simp_all add: body_fits_def)

text \<open>\<open>parse\<close> checks the magic number only. A packet whose header claims more body bytes
  than arrived is accepted, and \<open>getData\<close> then reads past the end of the block.\<close>

theorem parse_accepts_overlong:
  assumes "length body < unat n" and "unat msz = 12 + length body" and "unat msz < 2 ^ 31"
  shows "\<exists>msg. parse ImMessage_empty (le32 magic_num @ le32 i @ le32 n @ body) msz = Inr (True, msg) \<and>
    getData msg = Inl OutOfBounds"
  using assms
  by (simp add: parse_empty isValid_of_bytes getData_of_bytes Let_def le.dec_enc)

theorem parse_accepts_overlong_witness:
  "\<exists>msg. parse ImMessage_empty (le32 magic_num @ le32 7 @ le32 3 @ [1, 2]) 14 = Inr (True, msg) \<and>
    getData msg = Inl OutOfBounds"
  by (rule parse_accepts_overlong) simp_all

text \<open>C21: \<open>parse\<close> on a fresh object faults exactly when the packet is shorter than the magic
  number (or than the size it is called with); a message that already owns a block is left alone
  and \<open>false\<close> is returned.\<close>

theorem parse_outcomes:
  assumes "unat sz < 2 ^ 31"
  shows "parse ImMessage_empty src sz =
      (if length src < unat sz \<or> unat sz < 4 then Inl OutOfBounds
       else Inr (le32_dec (take 4 src) = magic_num, of_bytes (take (unat sz) src)))
    \<and> parse (of_bytes old) src sz = Inr (False, of_bytes old)"
proof
  show "parse ImMessage_empty src sz =
      (if length src < unat sz \<or> unat sz < 4 then Inl OutOfBounds
       else Inr (le32_dec (take 4 src) = magic_num, of_bytes (take (unat sz) src)))"
    using assms by (auto simp: parse_empty isValid_of_bytes min_def)
  show "parse (of_bytes old) src sz = Inr (False, of_bytes old)"
    by (simp add: parse_def of_bytes_def)
qed

theorem parse_outcomes_witness:
  "parse ImMessage_empty [1, 2, 3, 4, 5] 5 =
      (if length [1, 2, 3, 4, 5 :: byte] < unat (5 :: u32) \<or> unat (5 :: u32) < 4 then Inl OutOfBounds
       else Inr (le32_dec (take 4 [1, 2, 3, 4, 5]) = magic_num,
         of_bytes (take (unat (5 :: u32)) [1, 2, 3, 4, 5])))
    \<and> parse (of_bytes [9]) [1, 2, 3, 4, 5] 5 = Inr (False, of_bytes [9])"
  by (rule parse_outcomes) simp

end
