(* ===== verification/AppState.thy ===== *)
theory AppState imports AutoBuffer ImMessage begin

text \<open>
  The state the wrapper keeps in static and global variables, the objects it allocates with
  \<open>new\<close>, and the calls it makes into the Mars library and into the user's listeners.

  Objects live in one store per class, indexed by address; freeing an address twice or using it
  after it was freed is an error value. Calls to code that is not part of the repository (the
  functions of \<open>mars::stn\<close>, \<open>mars::app\<close>, \<open>mars::baseevent\<close>, the log appender, the listeners'
  virtual methods) are events appended to a trace, in the order the code makes them. Log lines are
  not events; the arguments of a log call are evaluated where their evaluation can fault.
\<close>

section \<open>Data\<close>

text \<open>\<open>mars::stn::Task\<close> of \<open>stn.h\<close>; \<open>int32_t\<close> fields hold small constants and are \<open>int\<close>.\<close>

record task =
  tk_taskid :: u32
  tk_cmdid :: u32
  tk_channel_id :: "64 word"
  tk_channel_select :: int
  tk_cgi :: string
  tk_send_only :: bool
  tk_need_authed :: bool
  tk_limit_flow :: bool
  tk_limit_frequency :: bool
  tk_network_status_sensitive :: bool
  tk_channel_strategy :: int
  tk_priority :: int
  tk_retry_count :: int
  tk_server_process_cost :: int
  tk_total_timetout :: int
  tk_user_context :: ptr
  tk_report_arg :: string
  tk_shortlink_host_list :: "string list"

definition kChannelShort :: int where
  "kChannelShort = 0x1"

definition kChannelLong :: int where
  "kChannelLong = 0x2"

definition kChannelBoth :: int where
  "kChannelBoth = 0x3"

definition kTaskPriorityNormal :: int where
  "kTaskPriorityNormal = 3"

definition kEctOK :: int where
  "kEctOK = 0"

text \<open>\<open>TaskContext\<close>: the constructor leaves \<open>needAck\<close> uninitialised.\<close>

record task_context =
  tc_needAck :: "int option"
  tc_msg :: ptr
  tc_size :: u32
  tc_respCallback :: ptr

definition TaskContext_new :: task_context where
  "TaskContext_new = \<lparr>tc_needAck = None, tc_msg = None, tc_size = 0, tc_respCallback = None\<rparr>"

datatype event =
    StartTask task
  | StnReset
  | StnRedoTasks
  | SetLonglinkSvrAddr string "u16 list" string
  | SetBackupIPs string "string list"
  | SetStnCallback ptr
  | SetAppCallback ptr
  | OnCreate
  | OnForeground bool
  | MakesureLonglinkConnected
  | AppenderSetConsoleLog bool
  | AppenderOpen int string string string
  | XloggerSetLevel int
  | OnResponse addr "byte list"
  | OnError addr int string
  | OnSuccess addr
  | OnPushMessage addr "byte list"
  | OnChannelStatus addr int

record app_state =
  ctx_heap :: "addr \<rightharpoonup> task_context"
  msg_heap :: "addr \<rightharpoonup> im_message"
  next_addr :: addr
  taskId2TaskCtx :: "u32 \<rightharpoonup> ptr"
  taskId2TaskCtxMutex :: bool
  messageId :: u32
  g_pushListener :: ptr
  g_channelListener :: ptr
  stn_instance :: ptr
  app_instance :: ptr
  trace :: "event list"

text \<open>The static initialisers.\<close>

definition initial_state :: app_state where
  "initial_state =
     \<lparr>ctx_heap = Map.empty, msg_heap = Map.empty, next_addr = 1, taskId2TaskCtx = Map.empty,
      taskId2TaskCtxMutex = False, messageId = messageId_init, g_pushListener = None,
      g_channelListener = None, stn_instance = None, app_instance = None, trace = []\<rparr>"

section \<open>Objects\<close>

definition emit :: "event \<Rightarrow> app_state \<Rightarrow> app_state" where
  "emit e s = s\<lparr>trace := trace s @ [e]\<rparr>"

definition new_ctx :: "task_context \<Rightarrow> app_state \<Rightarrow> addr \<times> app_state" where
  "new_ctx c s = (next_addr s,
     s\<lparr>ctx_heap := (ctx_heap s)(next_addr s \<mapsto> c), next_addr := next_addr s + 1\<rparr>)"

definition new_msg :: "im_message \<Rightarrow> app_state \<Rightarrow> addr \<times> app_state" where
  "new_msg m s = (next_addr s,
     s\<lparr>msg_heap := (msg_heap s)(next_addr s \<mapsto> m), next_addr := next_addr s + 1\<rparr>)"

definition the_obj :: "(addr \<rightharpoonup> 'o) \<Rightarrow> ptr \<Rightarrow> 'o result" where
  "the_obj heap p =
     (case p of None \<Rightarrow> Inl NullDeref
      | Some a \<Rightarrow> (case heap a of None \<Rightarrow> Inl UseAfterFree | Some x \<Rightarrow> Inr x))"

definition delete_ctx :: "addr \<Rightarrow> app_state \<Rightarrow> app_state result" where
  "delete_ctx a s =
     (if ctx_heap s a = None then Inl DoubleFree
      else Inr (s\<lparr>ctx_heap := (ctx_heap s)(a := None)\<rparr>))"

definition delete_msg :: "addr \<Rightarrow> app_state \<Rightarrow> app_state result" where
  "delete_msg a s =
     (if msg_heap s a = None then Inl DoubleFree
      else Inr (s\<lparr>msg_heap := (msg_heap s)(a := None)\<rparr>))"

lemma the_obj_simps [simp]:
  "the_obj h None = Inl NullDeref"
  "h a = Some x \<Longrightarrow> the_obj h (Some a) = Inr x"
  "h a = None \<Longrightarrow> the_obj h (Some a) = Inl UseAfterFree"
  by (simp_all add: the_obj_def)

end
