(* ===== verification/MutexBase.thy ===== *)
theory MutexBase imports Prelude begin

text \<open>
  \<open>src/src/base.h\<close>: the class \<open>Mutex\<close> around a pthread mutex and its clock arithmetic. The pthread
  calls are a parameter, one record of functions on the mutex's state that return an error code;
  \<open>None\<close> for \<open>pthread_mutex_lock\<close> means that the call blocks. \<open>ASSERT\<close> is \<open>assert\<close>: a failing one
  is the error \<open>AssertFail\<close>. \<open>ASSERT2\<close> expands to nothing. On Windows \<open>Mutex\<close> is \<open>std::mutex\<close> and only
  \<open>gettimeofday\<close> is defined here.
\<close>

section \<open>Parameters\<close>

definition EPERM :: int where
  "EPERM = 1"

definition EAGAIN :: int where
  "EAGAIN = 11"

definition ENOMEM :: int where
  "ENOMEM = 12"

definition EBUSY :: int where
  "EBUSY = 16"

definition EINVAL :: int where
  "EINVAL = 22"

definition EDEADLK :: int where
  "EDEADLK = 35"

definition ETIMEDOUT :: int where
  "ETIMEDOUT = 110"

lemmas errno_defs = EPERM_def EAGAIN_def ENOMEM_def EBUSY_def EINVAL_def EDEADLK_def ETIMEDOUT_def

datatype mutex_type = PTHREAD_MUTEX_RECURSIVE | PTHREAD_MUTEX_ERRORCHECK

record timespec =
  tv_sec :: int
  tv_nsec :: int

record 'm pthread =
  pt_attr_init :: int
  pt_attr_settype :: "mutex_type \<Rightarrow> int"
  pt_attr_destroy :: int
  pt_init :: "mutex_type \<Rightarrow> int \<times> 'm"
  pt_destroy :: "'m \<Rightarrow> int"
  pt_lock :: "'m \<Rightarrow> (int \<times> 'm) option"
  pt_unlock :: "'m \<Rightarrow> int \<times> 'm"
  pt_trylock :: "'m \<Rightarrow> int \<times> 'm"
  pt_timedlock :: "timespec \<Rightarrow> 'm \<Rightarrow> int \<times> 'm"

text \<open>\<open>magic_\<close> holds the address of the object it is a member of; \<open>this\<close> is that address.\<close>

record 'm mutex_obj =
  magic_field :: addr
  mutex_field :: 'm

section \<open>Operations\<close>

text \<open>Every chain of \<open>if\<close>s with \<open>ASSERT\<close> ends with one for any other code.\<close>

definition assert_zero :: "int \<Rightarrow> 'a \<Rightarrow> 'a result" where
  "assert_zero ret x =
     (if ret = EINVAL then Inl AssertFail
      else if ret = EAGAIN then Inl AssertFail
      else if ret \<noteq> 0 then Inl AssertFail
      else Inr x)"

definition Mutex_new :: "'m pthread \<Rightarrow> bool \<Rightarrow> addr \<Rightarrow> 'm mutex_obj result" where
  "Mutex_new pt recursive this =
     (let ty = (if recursive then PTHREAD_MUTEX_RECURSIVE else PTHREAD_MUTEX_ERRORCHECK)
      in bnd (assert_zero (pt_attr_init pt) ()) (\<lambda>u.
         bnd (assert_zero (pt_attr_settype pt ty) ()) (\<lambda>u.
         let (ret, m) = pt_init pt ty
         in assert_zero ret \<lparr>magic_field = this, mutex_field = m\<rparr>)))"

definition Mutex_delete :: "'m pthread \<Rightarrow> 'm mutex_obj \<Rightarrow> 'm mutex_obj result" where
  "Mutex_delete pt x =
     (let x = x\<lparr>magic_field := 0\<rparr>
      in bnd (assert_zero (pt_destroy pt (mutex_field x)) ()) (\<lambda>u.
         assert_zero (pt_attr_destroy pt) x))"

definition Mutex_lock :: "'m pthread \<Rightarrow> addr \<Rightarrow> 'm mutex_obj \<Rightarrow> (bool \<times> 'm mutex_obj) result option" where
  "Mutex_lock pt this x =
     (if this \<noteq> magic_field x then Some (Inr (False, x))
      else case pt_lock pt (mutex_field x) of
             None \<Rightarrow> None
           | Some (ret, m) \<Rightarrow>
               Some (assert_zero ret (ret = 0, x\<lparr>mutex_field := m\<rparr>)))"

definition Mutex_unlock :: "'m pthread \<Rightarrow> 'm mutex_obj \<Rightarrow> (bool \<times> 'm mutex_obj) result" where
  "Mutex_unlock pt x =
     (let (ret, m) = pt_unlock pt (mutex_field x)
      in assert_zero ret (ret = 0, x\<lparr>mutex_field := m\<rparr>))"

definition Mutex_trylock :: "'m pthread \<Rightarrow> addr \<Rightarrow> 'm mutex_obj \<Rightarrow> (bool \<times> 'm mutex_obj) result" where
  "Mutex_trylock pt this x =
     (if this \<noteq> magic_field x then Inr (False, x)
      else let (ret, m) = pt_trylock pt (mutex_field x); x = x\<lparr>mutex_field := m\<rparr>
           in if ret = EBUSY then Inr (False, x) else assert_zero ret (ret = 0, x))"

text \<open>
  \<open>MakeTimeout(pts, millisecond)\<close> at the time \<open>now\<close>, seconds and microseconds. The milliseconds are an
  unsigned 32-bit number and so is the first product; the clock's fields are 64 bits wide.
\<close>

definition MakeTimeout :: "int \<times> int \<Rightarrow> u32 \<Rightarrow> timespec" where
  "MakeTimeout now millisecond =
     (let sec = uint (millisecond div 1000) + fst now;
          nsec = uint ((millisecond mod 1000) * 1000 * 1000) + snd now * 1000;
          sec = sec + c_div nsec (1000 * 1000 * 1000);
          nsec = nsec - c_div nsec (1000 * 1000 * 1000) * (1000 * 1000 * 1000)
      in \<lparr>tv_sec = sec, tv_nsec = nsec\<rparr>)"

text \<open>\<open>timedlock\<close> as compiled for Linux, and for Android, whose \<open>switch\<close> also names \<open>EBUSY\<close>.\<close>

definition Mutex_timedlock ::
    "'m pthread \<Rightarrow> int \<times> int \<Rightarrow> addr \<Rightarrow> u32 \<Rightarrow> 'm mutex_obj \<Rightarrow> bool \<times> 'm mutex_obj" where
  "Mutex_timedlock pt now this millisecond x =
     (if this \<noteq> magic_field x then (False, x)
      else let ts = MakeTimeout now millisecond;
               (ret, m) = pt_timedlock pt ts (mutex_field x)
           in (ret = 0, x\<lparr>mutex_field := m\<rparr>))"

definition Mutex_islocked :: "'m pthread \<Rightarrow> addr \<Rightarrow> 'm mutex_obj \<Rightarrow> (bool \<times> 'm mutex_obj) result" where
  "Mutex_islocked pt this x =
     (if this \<noteq> magic_field x then Inl AssertFail
      else let (ret, m) = pt_trylock pt (mutex_field x); x = x\<lparr>mutex_field := m\<rparr>
           in if ret = 0 then bnd (Mutex_unlock pt x) (\<lambda>(r, x). Inr (ret \<noteq> 0, x))
              else Inr (ret \<noteq> 0, x))"

text \<open>\<open>gettimeofday\<close> for Windows; the local time and \<open>mktime\<close> are parameters.\<close>

record system_time =
  wYear :: int
  wMonth :: int
  wDay :: int
  wHour :: int
  wMinute :: int
  wSecond :: int
  wMilliseconds :: int

record tm =
  tm_year :: int
  tm_mon :: int
  tm_mday :: int
  tm_hour :: int
  tm_min :: int
  tm_sec :: int
  tm_isdst :: int

definition gettimeofday :: "(tm \<Rightarrow> int) \<Rightarrow> system_time \<Rightarrow> int \<times> int" where
  "gettimeofday mktime wtm =
     (let t = \<lparr>tm_year = wYear wtm - 1900, tm_mon = wMonth wtm - 1, tm_mday = wDay wtm,
               tm_hour = wHour wtm, tm_min = wMinute wtm, tm_sec = wSecond wtm, tm_isdst = -1\<rparr>
      in (mktime t, wMilliseconds wtm * 1000))"

section \<open>An error-checking mutex\<close>

text \<open>
  What POSIX says of a mutex of type \<open>PTHREAD_MUTEX_ERRORCHECK\<close>, called by the thread \<open>t\<close>; the state is
  the owner. A timed lock on a mutex another thread holds runs into its timeout.
\<close>

definition errorcheck :: "nat \<Rightarrow> nat option pthread" where
  "errorcheck t =
     \<lparr>pt_attr_init = 0, pt_attr_settype = (\<lambda>ty. 0), pt_attr_destroy = 0,
      pt_init = (\<lambda>ty. (0, None)),
      pt_destroy = (\<lambda>m. if m = None then 0 else EBUSY),
      pt_lock = (\<lambda>m. case m of None \<Rightarrow> Some (0, Some t)
                      | Some u \<Rightarrow> if u = t then Some (EDEADLK, m) else None),
      pt_unlock = (\<lambda>m. if m = Some t then (0, None) else (EPERM, m)),
      pt_trylock = (\<lambda>m. case m of None \<Rightarrow> (0, Some t) | Some u \<Rightarrow> (EBUSY, m)),
      pt_timedlock = (\<lambda>ts m. case m of None \<Rightarrow> (0, Some t)
                      | Some u \<Rightarrow> (if u = t then EDEADLK else ETIMEDOUT, m))\<rparr>"

text \<open>The contract of a lock that does not allow its holder to take it again.\<close>

locale strict_lock =
  fixes held :: "'s \<Rightarrow> bool" and acquire :: "'s \<Rightarrow> 's result" and release :: "'s \<Rightarrow> 's"
  assumes acquire_free: "\<not> held s \<Longrightarrow> \<exists>s'. acquire s = Inr s' \<and> held s' \<and> release s' = s"
    and acquire_held: "held s \<Longrightarrow> \<exists>e. acquire s = Inl e"
begin

text \<open>A critical section around an operation that keeps the lock.\<close>

lemma acquire_release: "\<not> held s \<Longrightarrow> bnd (acquire s) (\<lambda>s. Inr (release s)) = Inr s"
  using acquire_free by fastforce

lemma acquire_twice: "\<exists>e. bnd (acquire s) acquire = Inl e"
proof (cases "held s")
  case True
  with acquire_held [of s] show ?thesis by auto
next
  case False
  with acquire_free [of s] acquire_held show ?thesis by fastforce
qed

end

section \<open>Lemmas\<close>

lemma assert_zero_iff: "assert_zero ret x = (if ret = 0 then Inr x else Inl AssertFail)"
  by (simp add: assert_zero_def errno_defs)

definition acquire_as :: "nat \<Rightarrow> nat option mutex_obj \<Rightarrow> nat option mutex_obj result" where
  "acquire_as t x =
     (case Mutex_lock (errorcheck t) (magic_field x) x of
        None \<Rightarrow> Inl Deadlock | Some r \<Rightarrow> bnd r (\<lambda>(b, y). Inr y))"

definition release_as :: "nat \<Rightarrow> nat option mutex_obj \<Rightarrow> nat option mutex_obj" where
  "release_as t x = (case Mutex_unlock (errorcheck t) x of Inl e \<Rightarrow> x | Inr (b, y) \<Rightarrow> y)"

interpretation errorcheck_lock: strict_lock "\<lambda>x. mutex_field x \<noteq> None" "acquire_as t" "release_as t" for t
proof unfold_locales
  fix x :: "nat option mutex_obj"
  assume "\<not> mutex_field x \<noteq> None"
  then have "x\<lparr>mutex_field := None\<rparr> = x" by simp
  then show "\<exists>x'. acquire_as t x = Inr x' \<and> mutex_field x' \<noteq> None \<and> release_as t x' = x"
    using \<open>\<not> mutex_field x \<noteq> None\<close>
    by (simp add: acquire_as_def release_as_def Mutex_lock_def Mutex_unlock_def errorcheck_def assert_zero_iff)
next
  fix x :: "nat option mutex_obj"
  assume "mutex_field x \<noteq> None"
  then show "\<exists>e. acquire_as t x = Inl e"
    by (auto simp: acquire_as_def Mutex_lock_def errorcheck_def assert_zero_iff errno_defs)
qed

lemma uint_div_1000: "uint ((m :: u32) div 1000) = uint m div 1000"
  by (simp add: uint_div_distrib)

lemma uint_nsec: "uint (((m :: u32) mod 1000) * 1000 * 1000) = uint m mod 1000 * 1000000"
proof -
  have "uint (m mod 1000) = uint m mod 1000"
    by (simp add: uint_mod_distrib)
  then show ?thesis
    by (simp add: uint_word_ariths)
qed

section \<open>Properties\<close>

text \<open>C30: the deadline \<open>MakeTimeout\<close> computes is exactly the given number of milliseconds after the
  current time, for every 32-bit number, and its nanoseconds are normalised.\<close>

theorem MakeTimeout_exact:
  assumes "0 \<le> snd now" and "snd now < 1000000"
  shows "0 \<le> tv_nsec (MakeTimeout now ms) \<and> tv_nsec (MakeTimeout now ms) < 10 ^ 9 \<and>
    tv_sec (MakeTimeout now ms) * 10 ^ 9 + tv_nsec (MakeTimeout now ms) =
      fst now * 10 ^ 9 + snd now * 1000 + uint ms * 10 ^ 6"
proof -
  define k m where "k = uint ms div 1000" and "m = uint ms mod 1000"
  define n where "n = m * 1000000 + snd now * 1000"
  define q where "q = n div 1000000000"
  have ms: "uint ms = k * 1000 + m"
    by (simp add: k_def m_def)
  have "0 \<le> n"
    using assms by (simp add: n_def m_def)
  then have d: "c_div n 1000000000 = q"
    by (cases "n = 0") (simp_all add: c_div_def q_def)
  have eq: "MakeTimeout now ms = \<lparr>tv_sec = k + fst now + q, tv_nsec = n - q * 1000000000\<rparr>"
    unfolding MakeTimeout_def Let_def uint_nsec uint_div_1000
    using d by (simp flip: n_def m_def k_def)
  have "0 \<le> n - q * 1000000000" "n - q * 1000000000 < 1000000000"
    by (simp_all add: q_def minus_div_mult_eq_mod)
  then show ?thesis
    unfolding eq ms by (simp add: n_def)
qed

theorem MakeTimeout_exact_witness:
  "0 \<le> tv_nsec (MakeTimeout (5, 999999) 1999) \<and> tv_nsec (MakeTimeout (5, 999999) 1999) < 10 ^ 9 \<and>
    tv_sec (MakeTimeout (5, 999999) 1999) * 10 ^ 9 + tv_nsec (MakeTimeout (5, 999999) 1999) =
      fst (5 :: int, 999999 :: int) * 10 ^ 9 + snd (5 :: int, 999999 :: int) * 1000 + uint (1999 :: u32) * 10 ^ 6"
  by (rule MakeTimeout_exact) simp_all

text \<open>With the error-checking type, asking whether the mutex is locked answers whether any thread
  owns it and leaves it as it was; a thread that locks it again, or unlocks it without owning it,
  runs into a failing assertion; \<open>trylock\<close> and \<open>timedlock\<close> by another thread answer \<open>false\<close>.\<close>

theorem Mutex_errorcheck_behaviour:
  "Mutex_islocked (errorcheck t) a \<lparr>magic_field = a, mutex_field = m\<rparr> =
      Inr (m \<noteq> None, \<lparr>magic_field = a, mutex_field = m\<rparr>) \<and>
   Mutex_lock (errorcheck t) a \<lparr>magic_field = a, mutex_field = Some t\<rparr> = Some (Inl AssertFail) \<and>
   (m = Some t \<or> Mutex_unlock (errorcheck t) \<lparr>magic_field = a, mutex_field = m\<rparr> = Inl AssertFail) \<and>
   Mutex_trylock (errorcheck t) a \<lparr>magic_field = a, mutex_field = Some u\<rparr> =
      Inr (False, \<lparr>magic_field = a, mutex_field = Some u\<rparr>) \<and>
   Mutex_timedlock (errorcheck t) now a ms \<lparr>magic_field = a, mutex_field = Some u\<rparr> =
      (False, \<lparr>magic_field = a, mutex_field = Some u\<rparr>)"
  by (cases m) (auto simp: Mutex_islocked_def Mutex_lock_def Mutex_unlock_def Mutex_trylock_def
      Mutex_timedlock_def errorcheck_def assert_zero_iff errno_defs Let_def)

text \<open>A destroyed mutex does not exclude anybody: \<open>lock\<close>, \<open>trylock\<close> and \<open>timedlock\<close> on it return
  \<open>false\<close> at once for every object address, and a caller that ignores the result goes on.\<close>

theorem destroyed_mutex_returns_false:
  assumes "Mutex_delete pt x = Inr y" and "this \<noteq> 0"
  shows "Mutex_lock pt this y = Some (Inr (False, y)) \<and> Mutex_trylock pt this y = Inr (False, y) \<and>
    Mutex_timedlock pt now this ms y = (False, y)"
  using assms
  by (auto simp: Mutex_delete_def Mutex_lock_def Mutex_trylock_def Mutex_timedlock_def
      assert_zero_iff Let_def bnd_eq_Inr split: if_splits)

theorem destroyed_mutex_returns_false_witness:
  "Mutex_lock (errorcheck 1) 8 \<lparr>magic_field = 0, mutex_field = None\<rparr> =
      Some (Inr (False, \<lparr>magic_field = 0, mutex_field = None\<rparr>)) \<and>
    Mutex_trylock (errorcheck 1) 8 \<lparr>magic_field = 0, mutex_field = None\<rparr> =
      Inr (False, \<lparr>magic_field = 0, mutex_field = None\<rparr>) \<and>
    Mutex_timedlock (errorcheck 1) (0, 0) 8 5 \<lparr>magic_field = 0, mutex_field = None\<rparr> =
      (False, \<lparr>magic_field = 0, mutex_field = None\<rparr>)"
  by (rule destroyed_mutex_returns_false [where x = "\<lparr>magic_field = 8, mutex_field = None\<rparr>"])
    (simp_all add: Mutex_delete_def errorcheck_def assert_zero_iff)

end
