(* ===== verification/TaskProxy.thy ===== *)
theory TaskProxy imports AppState MutexBase begin

text \<open>
  \<open>src/src/proxy/mars_task_proxy.h\<close> and \<open>mars_task_proxy.cpp\<close>: the table from task ids to the
  contexts of the messages in flight. The mutex is \<open>std::mutex\<close> or an error-checking pthread mutex,
  neither of them recursive: taking it while it is held is the error \<open>Deadlock\<close>. An entry of the
  table may be a null pointer.
\<close>

section \<open>Operations\<close>

definition mutex_lock :: "app_state \<Rightarrow> app_state result" where
  "mutex_lock s =
     (if taskId2TaskCtxMutex s then Inl Deadlock else Inr (s\<lparr>taskId2TaskCtxMutex := True\<rparr>))"

definition mutex_unlock :: "app_state \<Rightarrow> app_state" where
  "mutex_unlock s = s\<lparr>taskId2TaskCtxMutex := False\<rparr>"

interpretation task_mutex: strict_lock taskId2TaskCtxMutex mutex_lock mutex_unlock
  by unfold_locales (auto simp: mutex_lock_def mutex_unlock_def)

definition getTaskConext :: "u32 \<Rightarrow> app_state \<Rightarrow> ptr" where
  "getTaskConext msgId s = (case taskId2TaskCtx s msgId of None \<Rightarrow> None | Some p \<Rightarrow> p)"

text \<open>The boolean is the outcome of the check after the insertion, which the code logs.\<close>

definition storeContext :: "u32 \<Rightarrow> ptr \<Rightarrow> app_state \<Rightarrow> (bool \<times> app_state) result" where
  "storeContext taskId ctx s =
     bnd (mutex_lock s) (\<lambda>s.
       let s = s\<lparr>taskId2TaskCtx := (taskId2TaskCtx s)(taskId \<mapsto> ctx)\<rparr>;
           temp = getTaskConext taskId s
       in Inr (temp \<noteq> None, mutex_unlock s))"

definition removeTaskContext :: "u32 \<Rightarrow> app_state \<Rightarrow> app_state result" where
  "removeTaskContext msgId s =
     (case getTaskConext msgId s of
        None \<Rightarrow> Inr s
      | Some a \<Rightarrow>
          bnd (the_obj (ctx_heap s) (Some a)) (\<lambda>ctx.
          bnd (case tc_msg ctx of None \<Rightarrow> Inr s | Some m \<Rightarrow> delete_msg m s) (\<lambda>s.
          bnd (mutex_lock s) (\<lambda>s.
          delete_ctx a (mutex_unlock
            (s\<lparr>taskId2TaskCtx := (taskId2TaskCtx s)(msgId := None)\<rparr>))))))"

definition proxy_reset :: "app_state \<Rightarrow> app_state" where
  "proxy_reset s = emit StnReset s"

definition redoTasks :: "app_state \<Rightarrow> app_state" where
  "redoTasks s = emit StnRedoTasks s"

section \<open>Ownership invariant\<close>

text \<open>
  The context behind an entry, with its message: both live, the message a well-formed frame whose
  id is the entry's key.
\<close>

definition owns :: "app_state \<Rightarrow> u32 \<Rightarrow> addr \<Rightarrow> addr \<Rightarrow> byte list \<Rightarrow> ptr \<Rightarrow> bool" where
  "owns s i a m body cb \<longleftrightarrow>
     taskId2TaskCtx s i = Some (Some a) \<and>
     ctx_heap s a = Some \<lparr>tc_needAck = None, tc_msg = Some m,
       tc_size = of_nat (length body) + of_nat sizeof_MessageFormat, tc_respCallback = cb\<rparr> \<and>
     msg_heap s m = Some (of_bytes (frame i body)) \<and> body_fits body"

definition table_ok :: "app_state \<Rightarrow> bool" where
  "table_ok s \<longleftrightarrow> (\<forall>i \<in> dom (taskId2TaskCtx s). \<exists>a m body cb. owns s i a m body cb)"

definition unshared :: "app_state \<Rightarrow> bool" where
  "unshared s \<longleftrightarrow>
     (\<forall>i j a b m n bd be cb cc. owns s i a m bd cb \<longrightarrow> owns s j b n be cc \<longrightarrow> i \<noteq> j \<longrightarrow>
        a \<noteq> b \<and> m \<noteq> n)"

definition no_leak :: "app_state \<Rightarrow> bool" where
  "no_leak s \<longleftrightarrow>
     (\<forall>a \<in> dom (ctx_heap s). \<exists>i m body cb. owns s i a m body cb) \<and>
     (\<forall>m \<in> dom (msg_heap s). \<exists>i a body cb. owns s i a m body cb)"

definition addrs_fresh :: "app_state \<Rightarrow> bool" where
  "addrs_fresh s \<longleftrightarrow> (\<forall>a \<in> dom (ctx_heap s) \<union> dom (msg_heap s). a < next_addr s)"

definition ids_ok :: "app_state \<Rightarrow> bool" where
  "ids_ok s \<longleftrightarrow>
     10000 \<le> unat (messageId s) \<and>
     (\<forall>i \<in> dom (taskId2TaskCtx s). 10000 \<le> unat i \<and> unat i < unat (messageId s))"

definition proxy_inv :: "app_state \<Rightarrow> bool" where
  "proxy_inv s \<longleftrightarrow>
     \<not> taskId2TaskCtxMutex s \<and> table_ok s \<and> unshared s \<and> no_leak s \<and> addrs_fresh s \<and> ids_ok s"

lemmas proxy_inv_defs =
  proxy_inv_def table_ok_def unshared_def no_leak_def addrs_fresh_def ids_ok_def

lemma proxy_inv_initial: "proxy_inv initial_state"
  by (auto simp: proxy_inv_defs initial_state_def owns_def messageId_init_def)

text \<open>The invariant does not read the trace, the listeners or the singletons.\<close>

lemma owns_frame [simp]:
  "owns (s\<lparr>trace := t\<rparr>) = owns s"
  "owns (s\<lparr>g_pushListener := p\<rparr>) = owns s"
  "owns (s\<lparr>g_channelListener := p\<rparr>) = owns s"
  "owns (s\<lparr>messageId := k\<rparr>) = owns s"
  "owns (s\<lparr>taskId2TaskCtxMutex := b\<rparr>) = owns s"
  "owns (s\<lparr>stn_instance := p\<rparr>) = owns s"
  "owns (s\<lparr>app_instance := p\<rparr>) = owns s"
  "owns (s\<lparr>next_addr := n\<rparr>) = owns s"
  by (simp_all add: owns_def fun_eq_iff)

lemma proxy_inv_frame [simp]:
  "proxy_inv (s\<lparr>trace := t\<rparr>) = proxy_inv s"
  "proxy_inv (s\<lparr>g_pushListener := p\<rparr>) = proxy_inv s"
  "proxy_inv (s\<lparr>g_channelListener := p\<rparr>) = proxy_inv s"
  "proxy_inv (s\<lparr>stn_instance := p\<rparr>) = proxy_inv s"
  "proxy_inv (s\<lparr>app_instance := p\<rparr>) = proxy_inv s"
  by (simp_all add: proxy_inv_defs)

lemma proxy_inv_emit [simp]: "proxy_inv (emit e s) = proxy_inv s"
  by (simp add: emit_def)

lemma owns_emit [simp]: "owns (emit e s) = owns s"
  by (simp add: emit_def)

lemma owns_unique: "owns s i a m body cb \<Longrightarrow> owns s i a' m' body' cb' \<Longrightarrow>
    a' = a \<and> m' = m \<and> cb' = cb"
  by (auto simp: owns_def)

section \<open>Preservation\<close>

text \<open>Looking up a task id in an owned table gives a live context or null.\<close>

lemma getTaskConext_None: "taskId2TaskCtx s i = None \<Longrightarrow> getTaskConext i s = None"
  by (simp add: getTaskConext_def)

lemma getTaskConext_owns: "owns s i a m body cb \<Longrightarrow> getTaskConext i s = Some a"
  by (simp add: getTaskConext_def owns_def)

lemma proxy_inv_cases:
  assumes "proxy_inv s"
  obtains "taskId2TaskCtx s i = None"
    | a m body cb where "owns s i a m body cb"
  using assms unfolding proxy_inv_def table_ok_def by blast

text \<open>The state after \<open>removeTaskContext\<close> of an owned entry.\<close>

definition removed :: "u32 \<Rightarrow> addr \<Rightarrow> addr \<Rightarrow> app_state \<Rightarrow> app_state" where
  "removed i a m s = s\<lparr>taskId2TaskCtx := (taskId2TaskCtx s)(i := None),
     msg_heap := (msg_heap s)(m := None), ctx_heap := (ctx_heap s)(a := None)\<rparr>"

lemma removeTaskContext_owns:
  assumes "\<not> taskId2TaskCtxMutex s" and "owns s i a m body cb"
  shows "removeTaskContext i s = Inr (removed i a m s)"
  using assms
  by (auto simp: removeTaskContext_def getTaskConext_owns owns_def delete_msg_def mutex_lock_def
      mutex_unlock_def delete_ctx_def removed_def)

lemma removeTaskContext_absent:
  "taskId2TaskCtx s i = None \<Longrightarrow> removeTaskContext i s = Inr s"
  by (simp add: removeTaskContext_def getTaskConext_None)

lemma owns_removed:
  assumes "unshared s" and "owns s i a m body cb"
  shows "owns (removed i a m s) j b n be cc \<longleftrightarrow> j \<noteq> i \<and> owns s j b n be cc"
proof (cases "j = i")
  case False
  have "owns s j b n be cc \<Longrightarrow> a \<noteq> b \<and> m \<noteq> n"
    using assms False unfolding unshared_def by blast
  with False show ?thesis
    by (auto simp: removed_def owns_def split: if_splits)
qed (simp add: removed_def owns_def)

lemma proxy_inv_removed:
  assumes "proxy_inv s" and "owns s i a m body cb"
  shows "proxy_inv (removed i a m s)"
proof -
  have u: "unshared s" and inv: "\<not> taskId2TaskCtxMutex s" "table_ok s" "no_leak s" "addrs_fresh s" "ids_ok s"
    using assms(1) by (auto simp: proxy_inv_def)
  note o = owns_removed [OF u assms(2)]
  have sel: "taskId2TaskCtx (removed i a m s) = (taskId2TaskCtx s)(i := None)"
    "ctx_heap (removed i a m s) = (ctx_heap s)(a := None)"
    "msg_heap (removed i a m s) = (msg_heap s)(m := None)"
    "next_addr (removed i a m s) = next_addr s" "messageId (removed i a m s) = messageId s"
    "taskId2TaskCtxMutex (removed i a m s) = taskId2TaskCtxMutex s"
    by (simp_all add: removed_def)
  have "table_ok (removed i a m s)"
    using inv(2) by (auto simp: table_ok_def o sel)
  moreover have "unshared (removed i a m s)"
    using u unfolding unshared_def o by blast
  moreover have "no_leak (removed i a m s)"
    using inv(3) assms(2) owns_unique unfolding no_leak_def o sel dom_fun_upd
    by (metis (full_types) DiffE singletonI)
  moreover have "addrs_fresh (removed i a m s)" "ids_ok (removed i a m s)"
    using inv(4,5) by (auto simp: addrs_fresh_def ids_ok_def sel)
  ultimately show ?thesis
    using inv(1) by (simp add: proxy_inv_def sel)
qed

end
