(* ===== verification/LonglinkPacker.thy ===== *)
theory LonglinkPacker imports AutoBuffer ImMessage begin

text \<open>
  \<open>src/src/proxy/longlink_packer.h\<close> and \<open>longlink_packer.cpp\<close>: framing of the TCP long link.
  \<open>size_t\<close> is \<open>'s word\<close>, so that the 32-bit and the 64-bit builds are instances of one definition.
  Reference parameters (\<open>_cmdid\<close>, \<open>_seq\<close>, \<open>_package_len\<close>, \<open>_body_len\<close>) are a record that is
  passed in and returned. The read of the header goes to the memory behind the buffer's pointer,
  whose bytes beyond the buffer's length are whatever the block holds.
\<close>

section \<open>Constants\<close>

definition LONGLINK_UNPACK_CONTINUE :: int where
  "LONGLINK_UNPACK_CONTINUE = -2"

definition LONGLINK_UNPACK_FALSE :: int where
  "LONGLINK_UNPACK_FALSE = -1"

definition LONGLINK_UNPACK_OK :: int where
  "LONGLINK_UNPACK_OK = 0"

definition kInvalidTaskID :: u32 where
  "kInvalidTaskID = 0"

definition kNoopTaskID :: u32 where
  "kNoopTaskID = 0xFFFFFFFF"

definition kLongLinkIdentifyCheckerTaskID :: u32 where
  "kLongLinkIdentifyCheckerTaskID = 0xFFFFFFFE"

definition kSignallingKeeperTaskID :: u32 where
  "kSignallingKeeperTaskID = 0xFFFFFFFD"

definition im_heartbeat_bytes :: u32 where
  "im_heartbeat_bytes = 4"

definition SIGNALKEEP_CMDID :: u32 where
  "SIGNALKEEP_CMDID = 243"

definition PUSH_DATA_TASKID_START :: u32 where
  "PUSH_DATA_TASKID_START = 0"

definition PUSH_DATA_TASKID_END :: u32 where
  "PUSH_DATA_TASKID_END = 10000"

lemmas unpack_codes = LONGLINK_UNPACK_CONTINUE_def LONGLINK_UNPACK_FALSE_def LONGLINK_UNPACK_OK_def

section \<open>Operations\<close>

record (overloaded) 's unpack_out =
  up_cmdid :: u32
  up_seq :: u32
  up_package_len :: "'s word"
  up_body_len :: "'s word"

definition unpack_test ::
    "byte list \<Rightarrow> 's::len word \<Rightarrow> 's unpack_out \<Rightarrow> (int \<times> 's unpack_out) result" where
  "unpack_test packed packed_len out =
     (if packed_len = ucast im_heartbeat_bytes
      then Inr (LONGLINK_UNPACK_OK, out\<lparr>up_seq := kNoopTaskID, up_package_len := packed_len\<rparr>)
      else bnd (header_field (of_bytes packed) messageId_off) (\<lambda>message_id.
           bnd (header_field (of_bytes packed) len_off) (\<lambda>len.
           let out = out\<lparr>up_cmdid := 0, up_seq := message_id, up_body_len := ucast len,
                 up_package_len := ucast len + of_nat sizeof_MessageFormat\<rparr>
           in if up_package_len out > 1024 * 1024 then Inr (LONGLINK_UNPACK_FALSE, out)
              else if up_package_len out > packed_len then Inr (LONGLINK_UNPACK_CONTINUE, out)
              else Inr (LONGLINK_UNPACK_OK, out))))"

definition longlink_pack ::
    "'b autobuffer_api \<Rightarrow> u32 \<Rightarrow> u32 \<Rightarrow> 'b \<Rightarrow> 'b \<Rightarrow> 'b" where
  "longlink_pack api cmdid sq body packed =
     (let packed =
       (if sq = kNoopTaskID
        then let heartBeatPackage = be32 4
             in ab_write api (ab_alloc_write api packed 4) heartBeatPackage
        else let packed = ab_alloc_write api packed (ab_length api body)
             in if ab_length api body > 0 then ab_write api packed (ab_content api body)
                else packed)
      in ab_seek api packed 0 ESeekStart)"

definition longlink_unpack ::
    "'b autobuffer_api \<Rightarrow> 'b \<Rightarrow> 's::len unpack_out \<Rightarrow> 'b \<Rightarrow> (int \<times> 's unpack_out \<times> 'b) result" where
  "longlink_unpack api packed out body =
     bnd (unpack_test (ab_mem api packed) (of_nat (ab_length api packed)) (out\<lparr>up_body_len := 0\<rparr>))
       (\<lambda>(ret, out').
         if LONGLINK_UNPACK_OK \<noteq> ret then Inr (ret, out', body)
         else Inr (ret, out', ab_write_seek api body ESeekCur (ab_content api packed)))"

definition longlink_noop_cmdid :: u32 where
  "longlink_noop_cmdid = kNoopTaskID"

definition longlink_noop_isresp :: "u32 \<Rightarrow> u32 \<Rightarrow> u32 \<Rightarrow> bool" where
  "longlink_noop_isresp taskid cmdid recv_seq \<longleftrightarrow> kNoopTaskID = recv_seq"

definition signal_keep_cmdid :: u32 where
  "signal_keep_cmdid = SIGNALKEEP_CMDID"

text \<open>\<open>char hb[] = "dummy"\<close> has six bytes, the terminating zero included.\<close>

definition longlink_noop_req_body :: "'b autobuffer_api \<Rightarrow> 'b \<Rightarrow> 'b" where
  "longlink_noop_req_body api body = ab_write api body [100, 117, 109, 109, 121, 0]"

definition longlink_noop_resp_body :: "'b \<Rightarrow> 's \<Rightarrow> 's" where
  "longlink_noop_resp_body body s = s"

definition longlink_noop_interval :: u32 where
  "longlink_noop_interval = 10000"

definition longlink_complexconnect_need_verify :: bool where
  "longlink_complexconnect_need_verify = False"

definition longlink_ispush :: "u32 \<Rightarrow> u32 \<Rightarrow> bool" where
  "longlink_ispush cmdid taskid \<longleftrightarrow> taskid > PUSH_DATA_TASKID_START \<and> taskid < PUSH_DATA_TASKID_END"

definition longlink_identify_isresp :: "u32 \<Rightarrow> u32 \<Rightarrow> u32 \<Rightarrow> bool" where
  "longlink_identify_isresp sent_seq cmdid recv_seq \<longleftrightarrow> sent_seq = recv_seq \<and> 0 \<noteq> sent_seq"

definition SetClientVersion :: "u32 \<Rightarrow> u32 \<Rightarrow> u32" where
  "SetClientVersion client_version sg_client_version = client_version"

section \<open>Lemmas\<close>

text \<open>The result of \<open>__unpack_test\<close> on a packet with a readable header.\<close>

definition unpack_verdict :: "'s::len word \<Rightarrow> 's word \<Rightarrow> int" where
  "unpack_verdict package_len packed_len =
     (if package_len > 1024 * 1024 then LONGLINK_UNPACK_FALSE
      else if package_len > packed_len then LONGLINK_UNPACK_CONTINUE
      else LONGLINK_UNPACK_OK)"

lemma unpack_test_header:
  fixes out :: "'s::len unpack_out"
  assumes "packed_len \<noteq> ucast im_heartbeat_bytes"
  shows "unpack_test packed packed_len out =
     (if length packed < 12 then Inl OutOfBounds
      else let len = le32_dec (take 4 (drop 8 packed));
               n = ucast len + of_nat sizeof_MessageFormat
           in Inr (unpack_verdict n packed_len,
                out\<lparr>up_cmdid := 0, up_seq := le32_dec (take 4 (drop 4 packed)),
                  up_body_len := ucast len, up_package_len := n\<rparr>))"
  using assms
  by (auto simp: unpack_test_def layout_simps Let_def unpack_verdict_def)

lemma unpack_test_heartbeat:
  "unpack_test packed (ucast im_heartbeat_bytes) out =
     Inr (LONGLINK_UNPACK_OK,
       out\<lparr>up_seq := kNoopTaskID, up_package_len := ucast im_heartbeat_bytes\<rparr>)"
  by (simp add: unpack_test_def)

text \<open>Sizes as natural numbers. \<open>size_t\<close> has at least 32 bits.\<close>

lemma size_t_pow: "32 \<le> n \<Longrightarrow> (4294967296 :: nat) \<le> 2 ^ n"
  using power_increasing [of 32 n "2 :: nat"] by simp

lemma take_bit_small: "32 \<le> n \<Longrightarrow> x < 4294967296 \<Longrightarrow> take_bit n (x :: nat) = x"
  using size_t_pow [of n] by (simp add: take_bit_nat_eq_self)

lemma limit_unat: "32 \<le> LENGTH('s::len) \<Longrightarrow> unat (1024 * 1024 :: 's word) = 1048576"
  by (simp add: take_bit_small)

lemma u32_bound: "unat (w :: u32) < 4294967296"
  using unsigned_less [of w] by simp

lemma len_unat: "32 \<le> LENGTH('s::len) \<Longrightarrow> unat (ucast (len :: u32) :: 's word) = unat len"
  by (simp add: unsigned_ucast_eq take_bit_small u32_bound)

lemma package_len_unat:
  assumes "32 \<le> LENGTH('s::len)"
  shows "unat (ucast (len :: u32) + of_nat sizeof_MessageFormat :: 's word) =
    (unat len + 12) mod 2 ^ LENGTH('s)"
proof -
  have "unat (12 :: 's word) = 12"
    using assms by (simp add: take_bit_small)
  then show ?thesis
    by (simp add: unat_word_ariths len_unat [OF assms] sizeof_MessageFormat_def)
qed

lemma package_len_small:
  assumes "32 \<le> LENGTH('s::len)" and "unat (len :: u32) + 12 < 2 ^ 32"
  shows "unat (ucast len + of_nat sizeof_MessageFormat :: 's word) = unat len + 12"
  using size_t_pow [OF assms(1)] assms(2) by (simp add: package_len_unat [OF assms(1)])

lemma verdict_unat:
  fixes n pl :: "'s::len word"
  assumes "32 \<le> LENGTH('s)"
  shows "unpack_verdict n pl =
    (if 1048576 < unat n then LONGLINK_UNPACK_FALSE
     else if unat pl < unat n then LONGLINK_UNPACK_CONTINUE
     else LONGLINK_UNPACK_OK)"
  using assms by (simp add: unpack_verdict_def word_less_nat_alt take_bit_small)

lemma heartbeat_unat:
  assumes "32 \<le> LENGTH('s::len)"
  shows "unat (ucast im_heartbeat_bytes :: 's word) = 4"
  by (simp only: len_unat [OF assms]) (simp add: im_heartbeat_bytes_def)

lemma not_heartbeat:
  fixes pl :: "'s::len word"
  shows "32 \<le> LENGTH('s) \<Longrightarrow> unat pl \<noteq> 4 \<Longrightarrow> pl \<noteq> ucast im_heartbeat_bytes"
  using heartbeat_unat by auto

text \<open>Everything \<open>__unpack_test\<close> says of a frame whose header can be read, whole or cut.\<close>

lemma unpack_frame:
  fixes pl :: "'s::len word"
  assumes "32 \<le> LENGTH('s)" and "length body + 12 < 2 ^ 32"
    and "unat pl \<noteq> 4" and "12 \<le> length packed"
    and "take 12 packed = take 12 (frame i body)"
  shows "\<exists>out'. unpack_test packed pl out = Inr
      (if 1048564 < length body then LONGLINK_UNPACK_FALSE
       else if unat pl < 12 + length body then LONGLINK_UNPACK_CONTINUE else LONGLINK_UNPACK_OK, out') \<and>
    up_cmdid out' = 0 \<and> up_seq out' = i \<and>
    unat (up_body_len out') = length body \<and> unat (up_package_len out') = 12 + length body"
proof -
  define len :: u32 where "len = of_nat (length body)"
  have len: "unat len = length body"
    using assms(2) by (simp add: len_def unat_of_nat)
  have "take 4 (drop k packed) = take 4 (drop k (take 12 packed))" if "k \<le> 8" for k
    using that by (simp add: drop_take)
  then have f: "take 4 (drop 4 packed) = le32 i" "take 4 (drop 8 packed) = le32 len"
    using assms(5) by (simp_all add: frame_def len_def)
  note unat = len_unat [OF assms(1), of len]
    package_len_small [OF assms(1), of len]
  show ?thesis
    using assms(2-4) unat
    by (simp add: unpack_test_header [OF not_heartbeat [OF assms(1,3)]] f Let_def le.dec_enc len
        verdict_unat [OF assms(1)])
qed

text \<open>The same through \<open>longlink_unpack\<close>, on a buffer that holds the first \<open>k\<close> bytes of a stream.\<close>

lemma unpack_arrived:
  fixes out :: "'s::len unpack_out" and api :: "'b autobuffer_api"
  assumes "autobuffer_ok api" and "32 \<le> LENGTH('s)" and "ab_empty api rx"
    and "ab_content api packed = take k (frame i body @ later)" and "length body + 12 < 2 ^ 32"
    and "12 \<le> k" and "k \<le> length (frame i body @ later)" and "k < 2 ^ LENGTH('s)"
  shows "\<exists>ret out' rx'. longlink_unpack api packed out rx = Inr (ret, out', rx') \<and>
    ret = (if 1048564 < length body then LONGLINK_UNPACK_FALSE
      else if k < 12 + length body then LONGLINK_UNPACK_CONTINUE else LONGLINK_UNPACK_OK) \<and>
    up_cmdid out' = 0 \<and> up_seq out' = i \<and> unat (up_package_len out') = 12 + length body \<and>
    (ret = LONGLINK_UNPACK_OK \<longrightarrow> ab_content api rx' = take k (frame i body @ later)) \<and>
    (ret \<noteq> LONGLINK_UNPACK_OK \<longrightarrow> rx' = rx)"
proof -
  have n: "ab_length api packed = k"
    using ab_content_length [OF assms(1), of packed] assms(4,7) by simp
  have pl: "unat (of_nat (ab_length api packed) :: 's word) = k"
    using assms(8) n by (simp add: unsigned_of_nat take_bit_nat_eq_self)
  have t: "take 12 (ab_mem api packed) = take 12 (frame i body)"
    using ab_mem_prefix [of 12 api packed] assms(4,6) n by (simp add: min_def)
  have m: "12 \<le> length (ab_mem api packed)"
    using ab_length_mem [OF assms(1), of packed] n assms(6) by simp
  have h: "unat (of_nat (ab_length api packed) :: 's word) \<noteq> 4"
    unfolding pl using assms(6) by simp
  from unpack_frame [OF assms(2,5) h m t, of "out\<lparr>up_body_len := 0\<rparr>"] pl assms(4)
    ab_write_seek_empty [OF assms(1,3)]
  show ?thesis
    by (auto simp: longlink_unpack_def unpack_codes)
qed

text \<open>Successive message ids.\<close>

fun message_ids :: "nat \<Rightarrow> u32 \<Rightarrow> u32 list" where
  "message_ids 0 mid = []"
| "message_ids (Suc k) mid = (let (i, mid') = newMessageId mid in i # message_ids k mid')"

lemma message_ids_map: "message_ids k mid = map (\<lambda>j. mid + of_nat j) [0..<k]"
proof (induction k arbitrary: mid)
  case (Suc k)
  have "[0..<Suc k] = 0 # map Suc [0..<k]"
    by (simp add: upt_conv_Cons map_Suc_upt)
  with Suc show ?case
    by (simp add: newMessageId_def add.assoc comp_def)
qed simp

lemma unat_id: "j + unat mid < 2 ^ 32 \<Longrightarrow> unat (mid + of_nat j :: u32) = unat mid + j"
  by (simp add: unat_word_ariths unat_of_nat)

text \<open>A frame through both hooks.\<close>

lemma pack_frame:
  assumes "autobuffer_ok api" and "ab_empty api packed" and "ab_content api body = bs" and "sq \<noteq> kNoopTaskID"
  shows "ab_content api (longlink_pack api cmdid sq body packed) = bs"
  using ab_alloc_write_empty [OF assms(1,2), of bs] ab_content_length [OF assms(1), of body] assms(3,4)
    ab_seek_start [OF assms(1)]
  by (cases "bs = []")
    (auto simp: longlink_pack_def ab_content_def ab_alloc_length [OF assms(1)] ab_empty_pos [OF assms(1,2)]
      assms(2) [unfolded ab_empty_def])

lemma pack_unpack_frame:
  fixes out :: "'s::len unpack_out" and api :: "'b autobuffer_api"
  assumes "autobuffer_ok api" and "32 \<le> LENGTH('s)"
    and "ab_empty api packed" and "ab_empty api body'"
    and "ab_content api body = frame i payload" and "length payload + 12 < 2 ^ 32"
    and "sq \<noteq> kNoopTaskID"
  shows "\<exists>ret out' result. longlink_unpack api (longlink_pack api cmdid sq body packed) out body' =
      Inr (ret, out', result) \<and>
    ret = (if length payload \<le> 1048564 then LONGLINK_UNPACK_OK else LONGLINK_UNPACK_FALSE) \<and>
    up_seq out' = i \<and> unat (up_package_len out') = 12 + length payload \<and>
    (ret = LONGLINK_UNPACK_OK \<longrightarrow> ab_content api result = frame i payload) \<and>
    (ret \<noteq> LONGLINK_UNPACK_OK \<longrightarrow> result = body')"
proof -
  have "12 + length payload < 2 ^ LENGTH('s)"
    using assms(6) size_t_pow [OF assms(2)] by simp
  then show ?thesis
    using unpack_arrived [OF assms(1,2,4), of "longlink_pack api cmdid sq body packed" "12 + length payload"
        i payload "[]" out] pack_frame [OF assms(1,3,5,7), of cmdid] assms(6)
    by (auto simp: not_less)
qed


lemma drop_frame:
  "drop 4 (frame i body) = le32 i @ le32 (of_nat (length body)) @ body"
  by (simp add: frame_def)

section \<open>Properties\<close>

text \<open>C8: what \<open>longlink_unpack\<close> answers while a stream arrives. The buffer holds the first \<open>k\<close> bytes of
  a frame and what follows it, at least the header. A body of more than 1048564 bytes is refused at
  once. Otherwise the answer is \<open>LONGLINK_UNPACK_CONTINUE\<close>, with nothing written, until the last
  byte of the frame is there, and \<open>LONGLINK_UNPACK_OK\<close> from then on, with everything that has
  arrived written to the body. The id and the length of the package are right each time, and the
  bytes of the block behind the buffer that have not arrived have no influence.\<close>

theorem unpack_every_arrival:
  fixes out :: "'s::len unpack_out" and api :: "'b autobuffer_api"
  assumes "autobuffer_ok api" and "32 \<le> LENGTH('s)" and "ab_empty api rx"
    and "ab_content api packed = take k (frame i body @ later)" and "length body + 12 < 2 ^ 32"
    and "12 \<le> k" and "k \<le> length (frame i body @ later)" and "k < 2 ^ LENGTH('s)"
  shows "\<exists>ret out' rx'. longlink_unpack api packed out rx = Inr (ret, out', rx') \<and>
    ret = (if 1048564 < length body then LONGLINK_UNPACK_FALSE
      else if k < 12 + length body then LONGLINK_UNPACK_CONTINUE else LONGLINK_UNPACK_OK) \<and>
    up_cmdid out' = 0 \<and> up_seq out' = i \<and> unat (up_package_len out') = 12 + length body \<and>
    (ret = LONGLINK_UNPACK_OK \<longrightarrow> ab_content api rx' = take k (frame i body @ later)) \<and>
    (ret \<noteq> LONGLINK_UNPACK_OK \<longrightarrow> rx' = rx)"
  by (rule unpack_arrived [OF assms])

theorem unpack_every_arrival_witness:
  "\<exists>ret out' rx'. longlink_unpack list_buffer (take 13 (frame 10000 [104, 105] @ [7]), 0)
      \<lparr>up_cmdid = 0, up_seq = 0, up_package_len = 0, up_body_len = 0 :: 64 word\<rparr> ([], 0) =
      Inr (ret, out', rx') \<and>
    ret = (if 1048564 < length [104, 105 :: byte] then LONGLINK_UNPACK_FALSE
      else if (13 :: nat) < 12 + length [104, 105 :: byte] then LONGLINK_UNPACK_CONTINUE else LONGLINK_UNPACK_OK) \<and>
    up_cmdid out' = 0 \<and> up_seq out' = 10000 \<and> unat (up_package_len out') = 12 + length [104, 105 :: byte] \<and>
    (ret = LONGLINK_UNPACK_OK \<longrightarrow> ab_content list_buffer rx' = take 13 (frame 10000 [104, 105] @ [7])) \<and>
    (ret \<noteq> LONGLINK_UNPACK_OK \<longrightarrow> rx' = ([], 0))"
  by (rule unpack_every_arrival [OF list_buffer_ok]) (simp_all add: ab_empty_def ab_content_def)

text \<open>C16: the four-byte rule for heartbeats comes before the header is read, so the first four
  bytes of any frame, which TCP may deliver alone, are taken for a heartbeat that is a package of
  four bytes. What follows those four bytes is then read as a package whose id is the length of the
  message and whose length is the first word of its body.\<close>

theorem unpack_first_four_bytes_heartbeat:
  fixes pl :: "'s::len word"
  assumes "32 \<le> LENGTH('s)" and "4 \<le> length body" and "unat pl \<noteq> 4"
  shows "\<exists>out1 out2. unpack_test (take 4 (frame i body) @ stale) (4 :: 's word) out =
      Inr (LONGLINK_UNPACK_OK, out1) \<and>
    longlink_noop_isresp tid cmdid (up_seq out1) \<and> unat (up_package_len out1) = 4 \<and>
    unpack_test (drop (unat (up_package_len out1)) (frame i body) @ stale') pl out1 =
      Inr (unpack_verdict (up_package_len out2) pl, out2) \<and>
    up_seq out2 = of_nat (length body) \<and>
    up_package_len out2 = ucast (le32_dec (take 4 body)) + of_nat sizeof_MessageFormat"
proof -
  have h: "ucast im_heartbeat_bytes = (4 :: 's word)"
    by (rule word_unat_eq_iff [THEN iffD2])
      (simp add: heartbeat_unat [OF assms(1)] take_bit_small [OF assms(1)])
  have four: "unat (4 :: 's word) = 4"
    using heartbeat_unat [OF assms(1)] unfolding h .
  let ?out1 = "out\<lparr>up_seq := kNoopTaskID, up_package_len := 4\<rparr>"
  have "unpack_test (take 4 (frame i body) @ stale) (4 :: 's word) out = Inr (LONGLINK_UNPACK_OK, ?out1)"
    using unpack_test_heartbeat [of "take 4 (frame i body) @ stale" out, unfolded h] .
  moreover have "take 4 (drop 8 (drop 4 (frame i body) @ stale')) = take 4 body"
    "take 4 (drop 4 (drop 4 (frame i body) @ stale')) = le32 (of_nat (length body))"
    using assms(2) by (simp_all add: frame_def)
  then obtain out2 where "unpack_test (drop 4 (frame i body) @ stale') pl ?out1 =
      Inr (unpack_verdict (up_package_len out2) pl, out2)" "up_seq out2 = of_nat (length body)"
    "up_package_len out2 = ucast (le32_dec (take 4 body)) + of_nat sizeof_MessageFormat"
    using assms(2) by (simp add: unpack_test_header [OF not_heartbeat [OF assms(1,3)]] Let_def le.dec_enc)
  moreover have "unat (up_package_len ?out1) = 4"
    using four by simp
  ultimately show ?thesis
    by (intro exI [of _ ?out1] exI [of _ out2]) (simp add: longlink_noop_isresp_def)
qed

theorem unpack_first_four_bytes_heartbeat_witness:
  "\<exists>out1 out2. unpack_test (take 4 (frame 10000 [104, 105, 0, 0]) @ []) (4 :: 64 word)
      \<lparr>up_cmdid = 0, up_seq = 0, up_package_len = 0, up_body_len = 0\<rparr> = Inr (LONGLINK_UNPACK_OK, out1) \<and>
    longlink_noop_isresp 1 2 (up_seq out1) \<and> unat (up_package_len out1) = 4 \<and>
    unpack_test (drop (unat (up_package_len out1)) (frame 10000 [104, 105, 0, 0]) @ []) (12 :: 64 word) out1 =
      Inr (unpack_verdict (up_package_len out2) 12, out2) \<and>
    up_seq out2 = of_nat (length [104, 105, 0, 0 :: byte]) \<and>
    up_package_len out2 = ucast (le32_dec (take 4 [104, 105, 0, 0])) + of_nat sizeof_MessageFormat"
  by (rule unpack_first_four_bytes_heartbeat) simp_all

text \<open>With a \<open>size_t\<close> wider than 32 bits, a packet accepted other than as a heartbeat lies
  within the received bytes and within 1 MB, and its body is its length less the header.\<close>

theorem unpack_ok_bounds:
  fixes pl :: "'s::len word"
  assumes "32 < LENGTH('s)" and "unat pl \<noteq> 4"
    and "unpack_test packed pl out = Inr (LONGLINK_UNPACK_OK, out')"
  shows "unat (up_package_len out') = unat (up_body_len out') + 12 \<and>
    unat (up_package_len out') \<le> unat pl \<and> unat (up_package_len out') \<le> 1048576"
proof -
  have w: "32 \<le> LENGTH('s)"
    using assms(1) by simp
  define len where "len = le32_dec (take 4 (drop 8 packed))"
  have "(2 :: nat) ^ 33 \<le> 2 ^ LENGTH('s)"
    using assms(1) by (intro power_increasing) simp_all
  then have n: "unat (ucast len + of_nat sizeof_MessageFormat :: 's word) = unat len + 12"
    using u32_bound [of len] by (simp add: package_len_unat [OF w])
  show ?thesis
    using assms(3) n len_unat [OF w, of len]
    by (auto simp: unpack_test_header [OF not_heartbeat [OF w assms(2)]] verdict_unat [OF w]
        Let_def unpack_codes len_def [symmetric] split: if_splits)
qed

theorem unpack_ok_bounds_witness:
  "unat (up_package_len \<lparr>up_cmdid = 0, up_seq = 7, up_package_len = 13, up_body_len = 1 :: 64 word\<rparr>) =
     unat (up_body_len \<lparr>up_cmdid = 0, up_seq = 7, up_package_len = 13, up_body_len = 1 :: 64 word\<rparr>) + 12 \<and>
   unat (up_package_len \<lparr>up_cmdid = 0, up_seq = 7, up_package_len = 13, up_body_len = 1 :: 64 word\<rparr>)
     \<le> unat (13 :: 64 word) \<and>
   unat (up_package_len \<lparr>up_cmdid = 0, up_seq = 7, up_package_len = 13, up_body_len = 1 :: 64 word\<rparr>)
     \<le> 1048576"
  by (rule unpack_ok_bounds [where packed = "frame 7 [5]" and
        out = "\<lparr>up_cmdid = 0, up_seq = 0, up_package_len = 0, up_body_len = 0\<rparr>"])
    (simp_all add: unpack_test_def im_heartbeat_bytes_def layout_simps frame_def le.dec_enc
      sizeof_MessageFormat_def unpack_codes Let_def)

text \<open>C18: on a 32-bit build the sum of header and body length wraps: a header that claims a body
  of \<open>2^32 - 12\<close> bytes or more passes both length checks, and the reported package length is less
  than a header.\<close>

theorem unpack_wraps_on_32_bits:
  assumes "2 ^ 32 - 12 \<le> unat len" and "12 \<le> unat pl"
  shows "\<exists>out'. unpack_test (le32 magic_num @ le32 i @ le32 len @ rest) (pl :: 32 word) out =
      Inr (LONGLINK_UNPACK_OK, out') \<and>
    unat (up_package_len out') < 12 \<and> unat (up_body_len out') = unat len"
proof -
  let ?p = "le32 magic_num @ le32 i @ le32 len @ rest"
  have w: "32 \<le> LENGTH(32)" and pl: "unat pl \<noteq> 4"
    using assms(2) by simp_all
  have "(unat len + 12) mod 2 ^ 32 = unat len + 12 - 2 ^ 32"
    using assms(1) u32_bound [of len] by (simp add: mod_if)
  then have n: "unat (ucast len + of_nat sizeof_MessageFormat :: 32 word) < 12"
    unfolding package_len_unat [OF w] using u32_bound [of len] by simp
  have "take 4 (drop 8 ?p) = le32 len"
    by simp
  then show ?thesis
    using n assms(2)
    by (simp add: unpack_test_header [OF not_heartbeat [OF w pl]] Let_def verdict_unat [OF w]
        le.dec_enc)
qed

theorem unpack_wraps_on_32_bits_witness:
  "\<exists>out'. unpack_test (le32 magic_num @ le32 1 @ le32 0xFFFFFFF8 @ []) (12 :: 32 word)
      \<lparr>up_cmdid = 0, up_seq = 0, up_package_len = 0, up_body_len = 0\<rparr> =
      Inr (LONGLINK_UNPACK_OK, out') \<and>
    unat (up_package_len out') < 12 \<and> unat (up_body_len out') = unat (0xFFFFFFF8 :: u32)"
  by (rule unpack_wraps_on_32_bits) simp_all



text \<open>C15: what \<open>longlink_unpack\<close> makes of a message that \<open>longlink_pack\<close> packed: up to 1048564 bytes
  of payload the same bytes come out under the message's own id. A longer message is packed too,
  but refused by the receiving side. It holds for every \<open>AutoBuffer\<close> that keeps its contract.\<close>

theorem longlink_pack_unpack:
  fixes out :: "'s::len unpack_out" and api :: "'b autobuffer_api"
  assumes "autobuffer_ok api" and "32 \<le> LENGTH('s)"
    and "ab_empty api packed" and "ab_empty api body'"
    and "ab_content api body = frame i payload" and "length payload + 12 < 2 ^ 32"
    and "sq \<noteq> kNoopTaskID"
  shows "\<exists>ret out' result. longlink_unpack api (longlink_pack api cmdid sq body packed) out body' =
      Inr (ret, out', result) \<and>
    ret = (if length payload \<le> 1048564 then LONGLINK_UNPACK_OK else LONGLINK_UNPACK_FALSE) \<and>
    up_seq out' = i \<and> unat (up_package_len out') = 12 + length payload \<and>
    (ret = LONGLINK_UNPACK_OK \<longrightarrow> ab_content api result = frame i payload) \<and>
    (ret \<noteq> LONGLINK_UNPACK_OK \<longrightarrow> result = body')"
  by (rule pack_unpack_frame [OF assms])

theorem longlink_pack_unpack_witness:
  "\<exists>ret out' result. longlink_unpack list_buffer
      (longlink_pack list_buffer 55 10000 (frame 10000 [104, 105], 0) ([], 0))
      \<lparr>up_cmdid = 0, up_seq = 0, up_package_len = 0, up_body_len = 0 :: 64 word\<rparr> ([], 0) =
      Inr (ret, out', result) \<and>
    ret = (if length [104, 105 :: byte] \<le> 1048564 then LONGLINK_UNPACK_OK else LONGLINK_UNPACK_FALSE) \<and>
    up_seq out' = 10000 \<and> unat (up_package_len out') = 12 + length [104, 105 :: byte] \<and>
    (ret = LONGLINK_UNPACK_OK \<longrightarrow> ab_content list_buffer result = frame 10000 [104, 105]) \<and>
    (ret \<noteq> LONGLINK_UNPACK_OK \<longrightarrow> result = ([], 0))"
  by (rule longlink_pack_unpack)
    (simp_all add: list_buffer_ok ab_empty_def ab_content_def kNoopTaskID_def)

text \<open>The heartbeat packed for the no-op task is the four bytes \<open>00 00 00 04\<close>, whatever its
  body, and a peer that echoes it is answered with the no-op task's id, which
  \<open>longlink_noop_isresp\<close> recognises.\<close>

theorem longlink_heartbeat_roundtrip:
  fixes out :: "'s::len unpack_out" and api :: "'b autobuffer_api"
  assumes "autobuffer_ok api" and "32 \<le> LENGTH('s)" and "ab_empty api packed"
  shows "ab_content api (longlink_pack api cmdid kNoopTaskID body packed) = [0, 0, 0, 4] \<and>
    (\<exists>out' result. longlink_unpack api (longlink_pack api cmdid kNoopTaskID body packed) out body' =
      Inr (LONGLINK_UNPACK_OK, out', result) \<and>
      longlink_noop_isresp tid cid (up_seq out'))"
proof -
  let ?wire = "longlink_pack api cmdid kNoopTaskID body packed"
  have hb: "be32 4 = [0, 0, 0, 4]"
    by (simp add: be32_def le32_def)
  then have wire: "ab_content api ?wire = [0, 0, 0, 4]"
    using ab_alloc_write_empty [OF assms(1,3), of "be32 4", unfolded be.enc_length]
      ab_seek_start [OF assms(1)]
    by (simp add: longlink_pack_def)
  then have "ab_length api ?wire = 4"
    using ab_content_length [OF assms(1), of ?wire] by simp
  then have "of_nat (ab_length api ?wire) = (ucast im_heartbeat_bytes :: 's word)"
    by (simp add: word_unat_eq_iff heartbeat_unat [OF assms(2)] take_bit_small [OF assms(2)])
  then show ?thesis
    using wire
    by (simp add: longlink_unpack_def unpack_test_heartbeat longlink_noop_isresp_def)
qed

theorem longlink_heartbeat_roundtrip_witness:
  "ab_content list_buffer (longlink_pack list_buffer 1 kNoopTaskID ([7], 0) ([], 0)) = [0, 0, 0, 4] \<and>
    (\<exists>out' result. longlink_unpack list_buffer (longlink_pack list_buffer 1 kNoopTaskID ([7], 0) ([], 0))
      \<lparr>up_cmdid = 0, up_seq = 0, up_package_len = 0, up_body_len = 0 :: 32 word\<rparr> ([], 0) =
      Inr (LONGLINK_UNPACK_OK, out', result) \<and>
      longlink_noop_isresp 1 2 (up_seq out'))"
  by (rule longlink_heartbeat_roundtrip) (simp_all add: list_buffer_ok ab_empty_def)

text \<open>C22: the ids of the first \<open>2^32 - 10003\<close> messages of a process are distinct, none is a
  reserved task id, and none is classified as a push by \<open>longlink_ispush\<close>.\<close>

theorem message_ids_fresh:
  assumes "k \<le> 2 ^ 32 - 10003"
  shows "distinct (message_ids k messageId_init) \<and>
    list_all (\<lambda>i. i \<noteq> kInvalidTaskID \<and> i \<noteq> kNoopTaskID \<and> i \<noteq> kLongLinkIdentifyCheckerTaskID \<and>
       i \<noteq> kSignallingKeeperTaskID \<and> \<not> longlink_ispush cmdid i) (message_ids k messageId_init)"
proof -
  have u: "unat (messageId_init + of_nat j) = 10000 + j" if "j < k" for j
    using that assms unat_id [of j messageId_init] by (simp add: messageId_init_def)
  then have "inj_on (\<lambda>j. messageId_init + of_nat j) {0..<k}"
    by (intro inj_onI) (metis add_left_cancel atLeastLessThan_iff)
  then have d: "distinct (message_ids k messageId_init)"
    by (simp add: message_ids_map distinct_map)
  have "\<exists>j < k. unat i = 10000 + j" if "i \<in> set (message_ids k messageId_init)" for i
    using that u by (auto simp: message_ids_map)
  then have r: "10000 \<le> unat i \<and> unat i < 2 ^ 32 - 3" if "i \<in> set (message_ids k messageId_init)" for i
    using that assms by fastforce
  have "i \<noteq> kInvalidTaskID \<and> i \<noteq> kNoopTaskID \<and> i \<noteq> kLongLinkIdentifyCheckerTaskID \<and>
       i \<noteq> kSignallingKeeperTaskID \<and> \<not> longlink_ispush cmdid i"
    if "10000 \<le> unat i" "unat i < 2 ^ 32 - 3" for i
    using that by (auto simp: kInvalidTaskID_def kNoopTaskID_def
        kLongLinkIdentifyCheckerTaskID_def kSignallingKeeperTaskID_def longlink_ispush_def
        PUSH_DATA_TASKID_END_def word_less_nat_alt)
  with r have "list_all (\<lambda>i. i \<noteq> kInvalidTaskID \<and> i \<noteq> kNoopTaskID \<and> i \<noteq> kLongLinkIdentifyCheckerTaskID \<and>
       i \<noteq> kSignallingKeeperTaskID \<and> \<not> longlink_ispush cmdid i) (message_ids k messageId_init)"
    unfolding list_all_iff by blast
  with d show ?thesis by blast
qed

theorem message_ids_fresh_witness:
  "distinct (message_ids 3 messageId_init) \<and>
    list_all (\<lambda>i. i \<noteq> kInvalidTaskID \<and> i \<noteq> kNoopTaskID \<and> i \<noteq> kLongLinkIdentifyCheckerTaskID \<and>
       i \<noteq> kSignallingKeeperTaskID \<and> \<not> longlink_ispush 0 i) (message_ids 3 messageId_init)"
  by (rule message_ids_fresh) simp

end
