(* ===== verification/StnCallback.thy ===== *)
theory StnCallback imports TaskProxy LonglinkPacker begin

text \<open>
  \<open>src/src/proxy/stn_callback.h\<close> and \<open>stn_callback.cpp\<close>: the callbacks Mars calls on the wrapper
  (\<open>mars::stn::Callback\<close>). Each handler is a function from the state to the handler's result and
  the new state; buffers go through the \<open>AutoBuffer\<close> interface. A call of a listener's virtual
  method is an event of the trace. The log level is verbose after \<open>init\<close>, so the arguments of
  \<open>xinfo2\<close> in \<open>buildEchatTcpMsg\<close> are evaluated.
\<close>

section \<open>Handlers\<close>

definition getPushListener :: "app_state \<Rightarrow> ptr" where
  "getPushListener s = g_pushListener s"

definition getChannelListener :: "app_state \<Rightarrow> ptr" where
  "getChannelListener s = g_channelListener s"

definition MakesureAuthed :: bool where
  "MakesureAuthed = True"

definition TrafficData :: "int \<Rightarrow> int \<Rightarrow> app_state \<Rightarrow> app_state" where
  "TrafficData send recv s = s"

definition OnNewDns :: "string \<Rightarrow> string list" where
  "OnNewDns host = []"

definition OnPush :: "'b autobuffer_api \<Rightarrow> u32 \<Rightarrow> u32 \<Rightarrow> 'b \<Rightarrow> app_state \<Rightarrow> app_state result" where
  "OnPush api cmdid taskid body s =
     bnd (ImMessage_new (ab_mem api body) (of_nat (ab_length api body)) (messageId s))
       (\<lambda>(pushMessage, mid').
         let s = s\<lparr>messageId := mid'\<rparr>;
             pushListener = getPushListener s
         in case pushListener of
              None \<Rightarrow> Inr s
            | Some l \<Rightarrow>
                bnd (isValid pushMessage) (\<lambda>valid.
                if valid then bnd (getData pushMessage) (\<lambda>d. Inr (emit (OnPushMessage l d) s))
                else Inr s))"

definition buildEchatTcpMsg :: "'b autobuffer_api \<Rightarrow> im_message \<Rightarrow> 'b \<Rightarrow> 'b result" where
  "buildEchatTcpMsg api msg outbuffer =
     bnd (getMessageId msg) (\<lambda>logged_id.
     bnd (getData msg) (\<lambda>logged_data.
     bnd (getMessageSize msg) (\<lambda>n.
     bnd (deref msg 0 (unat n)) (\<lambda>bs.
     Inr (ab_write api outbuffer bs)))))"

definition Req2Buf :: "'b autobuffer_api \<Rightarrow> u32 \<Rightarrow> 'b \<Rightarrow> app_state \<Rightarrow> (bool \<times> 'b) result" where
  "Req2Buf api taskid outbuffer s =
     (case getTaskConext taskid s of
        None \<Rightarrow> Inr (False, outbuffer)
      | Some a \<Rightarrow>
          bnd (the_obj (ctx_heap s) (Some a)) (\<lambda>ctx.
          case tc_msg ctx of
            None \<Rightarrow> Inr (False, outbuffer)
          | Some m \<Rightarrow>
              bnd (the_obj (msg_heap s) (Some m)) (\<lambda>msg.
              bnd (buildEchatTcpMsg api msg outbuffer) (\<lambda>out. Inr (True, out)))))"

definition Buf2Resp :: "'b autobuffer_api \<Rightarrow> u32 \<Rightarrow> 'b \<Rightarrow> app_state \<Rightarrow> (int \<times> app_state) result" where
  "Buf2Resp api taskid inbuffer s =
     (case getTaskConext taskid s of
        None \<Rightarrow> Inr (-1, s)
      | Some a \<Rightarrow>
          bnd (the_obj (ctx_heap s) (Some a)) (\<lambda>ctx.
          case tc_respCallback ctx of
            None \<Rightarrow> Inr (-1, s)
          | Some callback \<Rightarrow>
              bnd (parse ImMessage_empty (ab_mem api inbuffer) (of_nat (ab_length api inbuffer)))
                (\<lambda>(ignored, message).
                  bnd (getData message) (\<lambda>d. Inr (0, emit (OnResponse callback d) s)))))"

definition OnTaskEnd :: "u32 \<Rightarrow> int \<Rightarrow> int \<Rightarrow> app_state \<Rightarrow> (int \<times> app_state) result" where
  "OnTaskEnd taskid error_type error_code s =
     (case getTaskConext taskid s of
        None \<Rightarrow> Inr (0, s)
      | Some a \<Rightarrow>
          bnd (the_obj (ctx_heap s) (Some a)) (\<lambda>ctx.
          let s = (case tc_respCallback ctx of
                     None \<Rightarrow> s
                   | Some callback \<Rightarrow>
                       if error_type = kEctOK then emit (OnSuccess callback) s
                       else emit (OnError callback error_code ''request failed.'') s)
          in bnd (removeTaskContext taskid s) (\<lambda>s. Inr (0, s))))"

definition ReportConnectStatus :: "int \<Rightarrow> int \<Rightarrow> app_state \<Rightarrow> app_state" where
  "ReportConnectStatus status longlink_status s =
     (case getChannelListener s of
        None \<Rightarrow> s
      | Some l \<Rightarrow> emit (OnChannelStatus l longlink_status) s)"

text \<open>\<open>_cmdid\<close> is an \<open>int32_t\<close>: the no-op id \<open>0xFFFFFFFF\<close> converts to \<open>-1\<close>.\<close>

definition GetLonglinkIdentifyCheckBuffer :: "int \<times> int" where
  "GetLonglinkIdentifyCheckBuffer = (1, sint kNoopTaskID)"

definition OnLonglinkIdentifyResponse :: bool where
  "OnLonglinkIdentifyResponse = False"

definition RequestSync :: "app_state \<Rightarrow> app_state" where
  "RequestSync s = s"

definition IsLogoned :: bool where
  "IsLogoned = True"

section \<open>Lemmas\<close>

lemma of_nat_unat_small: "n < 2 ^ 32 \<Longrightarrow> unat (of_nat n :: u32) = n"
  by (simp add: unat_of_nat)

lemma buildEchatTcpMsg_frame:
  assumes "body_fits body"
  shows "buildEchatTcpMsg api (of_bytes (frame i body)) out = Inr (ab_write api out (frame i body))"
proof -
  have "12 + length body < 2 ^ 32"
    using assms by (simp add: body_fits_def)
  from of_nat_unat_small [OF this] show ?thesis
    using getMessageId_frame [of i body] getData_frame [OF assms, of i "[]"]
      getMessageSize_frame [OF assms, of i]
    by (simp add: buildEchatTcpMsg_def deref_of_bytes del: of_nat_add)
qed

lemma Req2Buf_owns:
  assumes "owns s i a m body cb"
  shows "Req2Buf api i out s = Inr (True, ab_write api out (frame i body))"
proof -
  have "getTaskConext i s = Some a"
    by (rule getTaskConext_owns [OF assms])
  then show ?thesis
    using assms buildEchatTcpMsg_frame [of body api i out]
    by (simp add: Req2Buf_def owns_def)
qed

lemma Req2Buf_absent: "taskId2TaskCtx s i = None \<Longrightarrow> Req2Buf api i out s = Inr (False, out)"
  by (simp add: Req2Buf_def getTaskConext_None)

definition final_call :: "ptr \<Rightarrow> int \<Rightarrow> int \<Rightarrow> event list" where
  "final_call cb et ec =
     (case cb of None \<Rightarrow> []
      | Some l \<Rightarrow> if et = kEctOK then [OnSuccess l] else [OnError l ec ''request failed.''])"

lemma OnTaskEnd_owns:
  assumes "\<not> taskId2TaskCtxMutex s" and "owns s i a m body cb"
  shows "OnTaskEnd i et ec s =
    Inr (0, removed i a m (s\<lparr>trace := trace s @ final_call cb et ec\<rparr>))"
proof -
  have own: "owns (s\<lparr>trace := t\<rparr>) i a m body cb" for t
    using assms(2) by simp
  have rm: "removeTaskContext i (s\<lparr>trace := t\<rparr>) = Inr (removed i a m (s\<lparr>trace := t\<rparr>))" for t
    by (rule removeTaskContext_owns [OF _ own]) (simp add: assms(1))
  have "getTaskConext i s = Some a"
    by (rule getTaskConext_owns [OF assms(2)])
  then show ?thesis
    using assms(2) rm [of "trace s"] rm
    by (auto simp: OnTaskEnd_def owns_def final_call_def emit_def Let_def split: option.splits)
qed

lemma OnTaskEnd_absent: "taskId2TaskCtx s i = None \<Longrightarrow> OnTaskEnd i et ec s = Inr (0, s)"
  by (simp add: OnTaskEnd_def getTaskConext_None)

end
