(* ===== verification/Singleton.thy ===== *)
theory Singleton imports AppState begin

text \<open>
  The lazily created singletons of the program. \<open>StnCallBack\<close> (\<open>stn_callback.cpp\<close>) and \<open>AppCallBack\<close>
  (\<open>app_callback.cpp\<close>) have \<open>Instance\<close> and \<open>Release\<close>, the demo's \<open>SocketsListener\<close> only the former.
  Both contracts are locales; the second extends the first. The rest of \<open>AppCallBack\<close> is here too.
\<close>

locale singleton_get =
  fixes inst :: "'s \<Rightarrow> ptr" and get :: "'s \<Rightarrow> addr \<times> 's"
  assumes get_existing: "inst s = Some a \<Longrightarrow> get s = (a, s)"
    and get_sets: "inst (snd (get s)) = Some (fst (get s))"
begin

lemma get_again: "get (snd (get s)) = get s"
  using get_existing [OF get_sets [of s]] by simp

lemma get_same: "get s = (a, s') \<Longrightarrow> get s' = (b, s'') \<Longrightarrow> b = a \<and> s'' = s'"
  using get_again [of s] by simp

end

locale singleton = singleton_get +
  fixes release :: "'s \<Rightarrow> 's"
  assumes release_clears: "inst (release s) = None"
    and release_none: "inst s = None \<Longrightarrow> release s = s"
begin

lemma release_again: "release (release s) = release s"
  by (simp add: release_none release_clears)

lemma get_after_release: "\<exists>a. inst (snd (get (release s))) = Some a"
  using get_sets by blast

end

section \<open>The callback singletons\<close>

definition StnCallBack_Instance :: "app_state \<Rightarrow> addr \<times> app_state" where
  "StnCallBack_Instance s =
     (case stn_instance s of
        None \<Rightarrow> (next_addr s, s\<lparr>stn_instance := Some (next_addr s), next_addr := next_addr s + 1\<rparr>)
      | Some a \<Rightarrow> (a, s))"

definition StnCallBack_Release :: "app_state \<Rightarrow> app_state" where
  "StnCallBack_Release s = s\<lparr>stn_instance := None\<rparr>"

definition AppCallBack_Instance :: "app_state \<Rightarrow> addr \<times> app_state" where
  "AppCallBack_Instance s =
     (case app_instance s of
        None \<Rightarrow> (next_addr s, s\<lparr>app_instance := Some (next_addr s), next_addr := next_addr s + 1\<rparr>)
      | Some a \<Rightarrow> (a, s))"

definition AppCallBack_Release :: "app_state \<Rightarrow> app_state" where
  "AppCallBack_Release s = s\<lparr>app_instance := None\<rparr>"

interpretation stn_cb: singleton stn_instance StnCallBack_Instance StnCallBack_Release
  by unfold_locales
    (auto simp: StnCallBack_Instance_def StnCallBack_Release_def split: option.split)

interpretation app_cb: singleton app_instance AppCallBack_Instance AppCallBack_Release
  by unfold_locales
    (auto simp: AppCallBack_Instance_def AppCallBack_Release_def split: option.split)

section \<open>What \<open>AppCallBack\<close> answers\<close>

record account_info =
  ai_uin :: int
  ai_username :: string
  ai_is_logoned :: bool

definition AccountInfo_new :: account_info where
  "AccountInfo_new = \<lparr>ai_uin = 0, ai_username = '''', ai_is_logoned = False\<rparr>"

record device_info =
  di_devicename :: string
  di_devicetype :: string

definition GetAppFilePath :: string where
  "GetAppFilePath = ''''"

definition GetAccountInfo :: account_info where
  "GetAccountInfo = AccountInfo_new"

definition GetClientVersion :: u32 where
  "GetClientVersion = 0"

text \<open>\<open>info.devicetype = 1\<close> assigns the number 1 to a string: the character with code 1.\<close>

definition GetDeviceInfo :: device_info where
  "GetDeviceInfo = \<lparr>di_devicename = '''', di_devicetype = [char_of (1 :: nat)]\<rparr>"

end
