(* ===== verification/MarsPlus.thy ===== *)
theory MarsPlus imports StnCallback Singleton begin

text \<open>
  \<open>include/mars_plus.h\<close> and \<open>src/src/mars_plus.cpp\<close>: the public interface. \<open>sendMessage\<close>
  allocates the message and its context, stores the context and starts the task; \<open>init\<close>
  configures Mars. The default-constructed \<open>Task\<close> comes from the Mars library and is a parameter.
\<close>

section \<open>Operations\<close>

record mars_config =
  mc_host :: string
  mc_backupIp :: string
  mc_port :: u32

definition MarsConfig_new :: "string \<Rightarrow> u32 \<Rightarrow> mars_config" where
  "MarsConfig_new host port = \<lparr>mc_host = host, mc_backupIp = '''', mc_port = port\<rparr>"

definition sendMessage ::
    "task \<Rightarrow> byte list \<Rightarrow> u32 \<Rightarrow> ptr \<Rightarrow> app_state \<Rightarrow> (int \<times> app_state) result" where
  "sendMessage task0 body sz callback s =
     bnd (ImMessage_new body sz (messageId s)) (\<lambda>(im, mid').
     let (m, s) = new_msg im (s\<lparr>messageId := mid'\<rparr>)
     in bnd (the_obj (msg_heap s) (Some m)) (\<lambda>msg.
        bnd (getMessageId msg) (\<lambda>tid.
        let task = task0\<lparr>tk_taskid := tid, tk_cmdid := 55, tk_channel_select := kChannelLong,
              tk_need_authed := False, tk_priority := kTaskPriorityNormal\<rparr>;
            (c, s) = new_ctx
              (TaskContext_new\<lparr>tc_respCallback := callback, tc_msg := Some m,
                 tc_size := sz + of_nat sizeof_MessageFormat\<rparr>) s
        in bnd (storeContext (tk_taskid task) (Some c) s) (\<lambda>(stored, s).
           Inr (0, emit (StartTask task) s)))))"

definition registerPushListener :: "ptr \<Rightarrow> app_state \<Rightarrow> app_state" where
  "registerPushListener listener s = s\<lparr>g_pushListener := listener\<rparr>"

definition registerChannelListener :: "ptr \<Rightarrow> app_state \<Rightarrow> app_state" where
  "registerChannelListener listener s = s\<lparr>g_channelListener := listener\<rparr>"

text \<open>
  \<open>init\<close>; \<open>android\<close> is the build flag \<open>ANDROID\<close>. \<open>config.port\<close> is 32 bits wide and is stored in a
  \<open>uint16_t\<close>.
\<close>

definition mars_init :: "bool \<Rightarrow> mars_config \<Rightarrow> app_state \<Rightarrow> int \<times> app_state" where
  "mars_init android config s =
     (let s = emit (AppenderSetConsoleLog True) s;
          s = emit (AppenderOpen 0 ''./log'' ''marPlus'' '''') s;
          s = emit (XloggerSetLevel 0) s;
          ports = [ucast (mc_port config)];
          s = emit (SetLonglinkSvrAddr (mc_host config) ports '''') s;
          backupIps = [mc_backupIp config];
          s = emit (SetBackupIPs (mc_host config) backupIps) s;
          (cb, s) = StnCallBack_Instance s;
          s = emit (SetStnCallback (Some cb)) s;
          s = (if android then s
               else let (acb, s) = AppCallBack_Instance s in emit (SetAppCallback (Some acb)) s);
          s = emit OnCreate s;
          s = emit (OnForeground True) s;
          s = emit MakesureLonglinkConnected s
      in (0, s))"

section \<open>The state after \<open>sendMessage\<close>\<close>

definition started_task :: "task \<Rightarrow> u32 \<Rightarrow> task" where
  "started_task task0 i = task0\<lparr>tk_taskid := i, tk_cmdid := 55, tk_channel_select := kChannelLong,
     tk_need_authed := False, tk_priority := kTaskPriorityNormal\<rparr>"

definition stored :: "task \<Rightarrow> byte list \<Rightarrow> ptr \<Rightarrow> app_state \<Rightarrow> app_state" where
  "stored task0 body cb s =
     (let i = messageId s; m = next_addr s; a = next_addr s + 1
      in s\<lparr>messageId := i + 1, next_addr := next_addr s + 2,
           msg_heap := (msg_heap s)(m \<mapsto> of_bytes (frame i body)),
           ctx_heap := (ctx_heap s)(a \<mapsto> \<lparr>tc_needAck = None, tc_msg = Some m,
             tc_size = of_nat (length body) + of_nat sizeof_MessageFormat, tc_respCallback = cb\<rparr>),
           taskId2TaskCtx := (taskId2TaskCtx s)(i \<mapsto> Some a),
           trace := trace s @ [StartTask (started_task task0 i)]\<rparr>)"

lemma sendMessage_stored:
  assumes "\<not> taskId2TaskCtxMutex s" and "unat sz < 2 ^ 31" and "unat sz \<le> length body"
  shows "sendMessage task0 body sz cb s = Inr (0, stored task0 (take (unat sz) body) cb s)"
proof -
  have "of_nat (min (length body) (unat sz)) = sz"
    using assms(3) by (simp add: min_def)
  then show ?thesis
    using assms(1) getMessageId_frame [of "messageId s" "take (unat sz) body"]
    by (simp add: sendMessage_def ImMessage_new_ok [OF assms(2,3)] new_msg_def new_ctx_def
        storeContext_def mutex_lock_def mutex_unlock_def stored_def started_task_def emit_def
        TaskContext_new_def Let_def)
qed

lemma sendMessage_bad:
  "\<not> (unat sz < 2 ^ 31 \<and> unat sz \<le> length body) \<Longrightarrow>
     sendMessage task0 body sz cb s = Inl OutOfBounds"
  by (simp add: sendMessage_def ImMessage_new_bad)

lemma stored_sel:
  "taskId2TaskCtx (stored task0 body cb s) = (taskId2TaskCtx s)(messageId s \<mapsto> Some (next_addr s + 1))"
  "msg_heap (stored task0 body cb s) =
     (msg_heap s)(next_addr s \<mapsto> of_bytes (frame (messageId s) body))"
  "ctx_heap (stored task0 body cb s) = (ctx_heap s)(next_addr s + 1 \<mapsto>
     \<lparr>tc_needAck = None, tc_msg = Some (next_addr s),
      tc_size = of_nat (length body) + of_nat sizeof_MessageFormat, tc_respCallback = cb\<rparr>)"
  "next_addr (stored task0 body cb s) = next_addr s + 2"
  "messageId (stored task0 body cb s) = messageId s + 1"
  "taskId2TaskCtxMutex (stored task0 body cb s) = taskId2TaskCtxMutex s"
  "trace (stored task0 body cb s) = trace s @ [StartTask (started_task task0 (messageId s))]"
  by (simp_all add: stored_def Let_def)

lemma proxy_inv_fresh_id:
  "proxy_inv s \<Longrightarrow> taskId2TaskCtx s (messageId s) = None"
  unfolding proxy_inv_def ids_ok_def by (metis domIff less_irrefl)

lemma owns_stored:
  assumes "proxy_inv s" and "body_fits body"
  shows "owns (stored task0 body cb s) j b n bd cc \<longleftrightarrow>
    owns s j b n bd cc \<or>
    (j = messageId s \<and> b = next_addr s + 1 \<and> n = next_addr s \<and> cc = cb \<and> bd = body)"
proof -
  have fresh: "a < next_addr s" if "ctx_heap s a \<noteq> None \<or> msg_heap s a \<noteq> None" for a
    using that assms(1) by (auto simp: proxy_inv_def addrs_fresh_def)
  show ?thesis
  proof (cases "j = messageId s")
    case True
    have "bd = body" if "of_bytes (frame j body) = of_bytes (frame j bd)"
    proof -
      from that have "map Some (frame j body) = map Some (frame j bd)"
        by (simp add: of_bytes_def)
      then have "frame j body = frame j bd"
        by (simp add: inj_map_eq_map inj_def)
      then show ?thesis
        by (metis frame_fields_exact(4))
    qed
    with True assms(2) proxy_inv_fresh_id [OF assms(1)] show ?thesis
      by (auto simp: owns_def stored_sel)
  next
    case False
    show ?thesis
    proof
      assume o: "owns (stored task0 body cb s) j b n bd cc"
      from o False assms(1) have "taskId2TaskCtx s j = Some (Some b)"
        by (auto simp: owns_def stored_sel)
      with assms(1) obtain m bd' cb' where o': "owns s j b m bd' cb'"
        unfolding proxy_inv_def table_ok_def by (force simp: owns_def)
      with fresh [of b] fresh [of m] have "b < next_addr s" "m < next_addr s"
        by (auto simp: owns_def)
      with o o' False show "owns s j b n bd cc \<or> (j = messageId s \<and> b = next_addr s + 1 \<and>
          n = next_addr s \<and> cc = cb \<and> bd = body)"
        by (auto simp: owns_def stored_sel)
    next
      assume "owns s j b n bd cc \<or> (j = messageId s \<and> b = next_addr s + 1 \<and>
          n = next_addr s \<and> cc = cb \<and> bd = body)"
      with False have o: "owns s j b n bd cc"
        by simp
      with fresh [of b] fresh [of n] have "b < next_addr s" "n < next_addr s"
        by (auto simp: owns_def)
      with o False show "owns (stored task0 body cb s) j b n bd cc"
        by (auto simp: owns_def stored_sel)
    qed
  qed
qed

lemma proxy_inv_stored:
  assumes "proxy_inv s" and "body_fits body" and "unat (messageId s) < 2 ^ 32 - 1"
  shows "proxy_inv (stored task0 body cb s)"
proof -
  let ?t = "stored task0 body cb s"
  have inv: "\<not> taskId2TaskCtxMutex s" "table_ok s" "unshared s" "no_leak s" "addrs_fresh s" "ids_ok s"
    using assms(1) by (auto simp: proxy_inv_def)
  note o = owns_stored [OF assms(1,2), of task0 cb]
  have old: "b < next_addr s \<and> n < next_addr s" if "owns s j b n bd cc" for j b n bd cc
    using that inv(5) by (auto simp: owns_def addrs_fresh_def)
  have mid: "unat (messageId s + 1) = unat (messageId s) + 1"
    using unat_id [of 1 "messageId s"] assms(3) by simp
  have "table_ok ?t"
    unfolding table_ok_def
  proof
    fix i
    assume "i \<in> dom (taskId2TaskCtx ?t)"
    then have "i = messageId s \<or> i \<in> dom (taskId2TaskCtx s)"
      by (auto simp: stored_sel split: if_splits)
    with inv(2) show "\<exists>a m bd cc. owns ?t i a m bd cc"
      unfolding table_ok_def o by blast
  qed
  moreover have "unshared ?t"
    using inv(3) old unfolding unshared_def o by fastforce
  moreover have "no_leak ?t"
    using inv(4) unfolding no_leak_def o stored_sel by fastforce
  moreover have "addrs_fresh ?t"
    using inv(5) by (auto simp: addrs_fresh_def stored_sel less_Suc_eq)
  moreover have "ids_ok ?t"
    using inv(6) mid by (auto simp: ids_ok_def stored_sel less_Suc_eq Ball_def)
  ultimately show ?thesis
    using inv(1) by (simp add: proxy_inv_def stored_sel)
qed

section \<open>Abstract view\<close>

text \<open>
  What the wrapper promises, without memory: a finite map from task ids to the message body and
  the listener of each message in flight. The contract of such a table is a locale: a submitted
  value goes under a key of its own, finishing a key removes it and nothing else.
\<close>

primrec run_all :: "('k \<Rightarrow> 's \<Rightarrow> 's result) \<Rightarrow> 'k list \<Rightarrow> 's \<Rightarrow> 's result" where
  "run_all f [] s = Inr s"
| "run_all f (k # ks) s = bnd (f k s) (run_all f ks)"

locale task_table =
  fixes inv :: "'s \<Rightarrow> bool"
    and look :: "'s \<Rightarrow> 'k \<Rightarrow> 'v option"
    and accepts :: "'v \<Rightarrow> 's \<Rightarrow> bool"
    and submit :: "'v \<Rightarrow> 's \<Rightarrow> ('k \<times> 's) result"
    and finish :: "'k \<Rightarrow> 's \<Rightarrow> 's result"
  assumes submit_ok: "inv s \<Longrightarrow> accepts v s \<Longrightarrow>
      \<exists>k s'. submit v s = Inr (k, s') \<and> inv s' \<and> look s k = None \<and> look s' = (look s)(k \<mapsto> v)"
    and finish_ok: "inv s \<Longrightarrow> \<exists>s'. finish k s = Inr s' \<and> inv s' \<and> look s' = (look s)(k := None)"
begin

lemma submit_finish:
  assumes "inv s" and "accepts v s"
  shows "\<exists>k s1 s2. submit v s = Inr (k, s1) \<and> finish k s1 = Inr s2 \<and> inv s2 \<and> look s2 = look s"
proof -
  from submit_ok [OF assms] obtain k s1 where s1: "submit v s = Inr (k, s1)" "inv s1"
    "look s k = None" "look s1 = (look s)(k \<mapsto> v)" by blast
  from finish_ok [OF s1(2), of k] obtain s2 where s2: "finish k s1 = Inr s2" "inv s2"
    "look s2 = (look s1)(k := None)" by blast
  have "look s2 = look s"
    using s1(3,4) s2(3) by (simp add: fun_eq_iff)
  with s1(1) s2(1,2) show ?thesis by blast
qed

lemma finish_twice:
  assumes "inv s"
  shows "\<exists>s1 s2. finish k s = Inr s1 \<and> finish k s1 = Inr s2 \<and> look s2 = look s1"
proof -
  from finish_ok [OF assms, of k] obtain s1 where s1: "finish k s = Inr s1" "inv s1"
    "look s1 = (look s)(k := None)" by blast
  from finish_ok [OF s1(2), of k] s1 show ?thesis by fastforce
qed

lemma finish_all:
  "inv s \<Longrightarrow> \<exists>s'. run_all finish ks s = Inr s' \<and> inv s' \<and>
     (\<forall>k. look s' k = (if k \<in> set ks then None else look s k))"
proof (induction ks arbitrary: s)
  case (Cons k ks)
  from finish_ok [OF Cons.prems, of k] obtain s1 where s1: "finish k s = Inr s1" "inv s1"
    "look s1 = (look s)(k := None)" by blast
  from Cons.IH [OF s1(2)] s1 show ?case by auto
qed simp

end

definition pending :: "app_state \<Rightarrow> u32 \<Rightarrow> (byte list \<times> ptr) option" where
  "pending s i =
     (case getTaskConext i s of None \<Rightarrow> None
      | Some a \<Rightarrow> (case ctx_heap s a of None \<Rightarrow> None
      | Some c \<Rightarrow> (case tc_msg c of None \<Rightarrow> None
      | Some m \<Rightarrow> (case msg_heap s m of None \<Rightarrow> None
      | Some im \<Rightarrow> (case getData im of Inl e \<Rightarrow> None
      | Inr d \<Rightarrow> Some (d, tc_respCallback c))))))"

definition room_for :: "byte list \<times> ptr \<Rightarrow> app_state \<Rightarrow> bool" where
  "room_for v s \<longleftrightarrow> body_fits (fst v) \<and> messageId s < kSignallingKeeperTaskID"

definition submit_message :: "task \<Rightarrow> byte list \<times> ptr \<Rightarrow> app_state \<Rightarrow> (u32 \<times> app_state) result" where
  "submit_message task0 v s =
     bnd (sendMessage task0 (fst v) (of_nat (length (fst v))) (snd v) s)
       (\<lambda>(r, s'). Inr (messageId s, s'))"

definition end_task :: "int \<Rightarrow> int \<Rightarrow> u32 \<Rightarrow> app_state \<Rightarrow> app_state result" where
  "end_task et ec i s = bnd (OnTaskEnd i et ec s) (\<lambda>(r, s'). Inr s')"

lemma pending_owns: "owns s i a m body cb \<Longrightarrow> pending s i = Some (body, cb)"
  using getData_frame [of body i "[]"]
  by (auto simp: pending_def getTaskConext_def owns_def)

lemma pending_absent: "taskId2TaskCtx s i = None \<Longrightarrow> pending s i = None"
  by (simp add: pending_def getTaskConext_None)

lemma pending_iff:
  assumes "proxy_inv s"
  shows "pending s i = Some (body, cb) \<longleftrightarrow> (\<exists>a m. owns s i a m body cb)"
  using proxy_inv_cases [OF assms, of i] pending_owns pending_absent
  by (metis option.distinct(1) option.inject prod.inject)

lemma pending_None: "proxy_inv s \<Longrightarrow> pending s i = None \<longleftrightarrow> taskId2TaskCtx s i = None"
  using proxy_inv_cases [of s i] pending_owns pending_absent by (metis option.distinct(1) owns_def)

lemma pending_eqI:
  assumes "proxy_inv s" and "\<And>body cb. P = Some (body, cb) \<longleftrightarrow> (\<exists>a m. owns s i a m body cb)"
  shows "pending s i = P"
proof (cases P)
  case None
  with assms show ?thesis by (metis not_None_eq pending_iff surj_pair)
next
  case (Some v)
  with assms show ?thesis by (metis pending_owns surj_pair)
qed

lemma pending_stored:
  assumes "proxy_inv s" and "body_fits body" and "unat (messageId s) < 2 ^ 32 - 1"
  shows "pending (stored task0 body cb s) = (pending s)(messageId s \<mapsto> (body, cb))"
proof
  fix i
  have new: "\<not> owns s (messageId s) a m bd cc" for a m bd cc
    using proxy_inv_fresh_id [OF assms(1)] by (simp add: owns_def)
  show "pending (stored task0 body cb s) i = ((pending s)(messageId s \<mapsto> (body, cb))) i"
    using new
    by (intro pending_eqI [OF proxy_inv_stored [OF assms]])
      (auto simp: owns_stored [OF assms(1,2)] pending_iff [OF assms(1), symmetric])
qed

lemma pending_removed:
  assumes "proxy_inv s" and "owns s i a m body cb"
  shows "pending (removed i a m s) = (pending s)(i := None)"
proof
  fix j
  have u: "unshared s"
    using assms(1) by (simp add: proxy_inv_def)
  show "pending (removed i a m s) j = ((pending s)(i := None)) j"
    by (intro pending_eqI [OF proxy_inv_removed [OF assms]])
      (auto simp: owns_removed [OF u assms(2)] pending_iff [OF assms(1)])
qed

lemma pending_frame [simp]:
  "pending (s\<lparr>trace := t\<rparr>) = pending s"
  "pending (s\<lparr>messageId := k\<rparr>) = pending s"
  by (simp_all add: pending_def getTaskConext_def fun_eq_iff cong: option.case_cong)

lemma OnTaskEnd_pending:
  assumes "proxy_inv s"
  shows "\<exists>s'. OnTaskEnd i et ec s = Inr (0, s') \<and> proxy_inv s' \<and>
    pending s' = (pending s)(i := None) \<and> messageId s' = messageId s \<and>
    trace s' = trace s @
      (case pending s i of None \<Rightarrow> [] | Some (body, cb) \<Rightarrow> final_call cb et ec)"
  using assms
proof (cases rule: proxy_inv_cases [of s i])
  case 1
  with assms pending_absent [OF 1] show ?thesis
    by (auto simp: OnTaskEnd_absent)
next
  case (2 a m body cb)
  let ?t = "s\<lparr>trace := trace s @ final_call cb et ec\<rparr>"
  have own: "owns ?t i a m body cb" and inv: "proxy_inv ?t"
    using 2 assms by simp_all
  have "\<not> taskId2TaskCtxMutex s"
    using assms by (simp add: proxy_inv_def)
  then have "OnTaskEnd i et ec s = Inr (0, removed i a m ?t)"
    using OnTaskEnd_owns 2 by blast
  with pending_removed [OF inv own] proxy_inv_removed [OF inv own] pending_owns [OF 2]
  show ?thesis by (auto simp: removed_def)
qed

lemma sendMessage_pending:
  assumes "proxy_inv s" and "body_fits body" and "messageId s < kSignallingKeeperTaskID"
  shows "\<exists>s'. sendMessage task0 body (of_nat (length body)) cb s = Inr (0, s') \<and> proxy_inv s' \<and>
    pending s' = (pending s)(messageId s \<mapsto> (body, cb)) \<and> messageId s' = messageId s + 1 \<and>
    trace s' = trace s @ [StartTask (started_task task0 (messageId s))]"
proof -
  have sz: "unat (of_nat (length body) :: u32) = length body"
    by (rule body_fits_unat [OF assms(2)])
  have small: "unat (of_nat (length body) :: u32) < 2 ^ 31"
    "unat (of_nat (length body) :: u32) \<le> length body"
    unfolding sz using assms(2) by (simp_all add: body_fits_def)
  have mid: "unat (messageId s) < 2 ^ 32 - 1"
    using assms(3) by (simp add: kSignallingKeeperTaskID_def word_less_nat_alt)
  have "\<not> taskId2TaskCtxMutex s"
    using assms(1) by (simp add: proxy_inv_def)
  from sendMessage_stored [OF this small, of task0 cb]
  have "sendMessage task0 body (of_nat (length body)) cb s = Inr (0, stored task0 body cb s)"
    unfolding sz by simp
  with proxy_inv_stored [OF assms(1,2) mid] pending_stored [OF assms(1,2) mid] show ?thesis
    by (auto simp: stored_sel)
qed

interpretation tasks: task_table proxy_inv pending room_for "submit_message task0" "end_task et ec"
  for task0 et ec
proof unfold_locales
  fix s v
  assume inv: "proxy_inv s" and "room_for v s"
  then have "body_fits (fst v)" "messageId s < kSignallingKeeperTaskID"
    by (simp_all add: room_for_def)
  from sendMessage_pending [OF inv this, of task0 "snd v"]
  show "\<exists>k s'. submit_message task0 v s = Inr (k, s') \<and> proxy_inv s' \<and> pending s k = None \<and>
      pending s' = (pending s)(k \<mapsto> v)"
    using pending_absent [OF proxy_inv_fresh_id [OF inv]] by (auto simp: submit_message_def)
next
  fix s k
  assume "proxy_inv s"
  from OnTaskEnd_pending [OF this, of k et ec]
  show "\<exists>s'. end_task et ec k s = Inr s' \<and> proxy_inv s' \<and> pending s' = (pending s)(k := None)"
    by (auto simp: end_task_def)
qed

section \<open>Runs of the wrapper\<close>

text \<open>
  Everything the user and Mars can do to the wrapper, one action per entry point. A run stays
  within the budget of message ids as long as the counter is below the reserved ids; \<open>OnPush\<close>
  takes an id too.
\<close>

datatype 'b action =
    Init mars_config
  | Send "byte list" ptr
  | RegisterPush ptr
  | RegisterChannel ptr
  | Push u32 u32 'b
  | Request u32 'b
  | Response u32 'b
  | TaskEnd u32 int int
  | ConnectStatus int int
  | ResetAll
  | Redo

fun do_action :: "'b autobuffer_api \<Rightarrow> task \<Rightarrow> bool \<Rightarrow> 'b action \<Rightarrow> app_state \<Rightarrow> app_state result" where
  "do_action api task0 android (Init config) s = Inr (snd (mars_init android config s))"
| "do_action api task0 android (Send body cb) s =
     bnd (sendMessage task0 body (of_nat (length body)) cb s) (\<lambda>(r, s). Inr s)"
| "do_action api task0 android (RegisterPush l) s = Inr (registerPushListener l s)"
| "do_action api task0 android (RegisterChannel l) s = Inr (registerChannelListener l s)"
| "do_action api task0 android (Push cmdid taskid body) s = OnPush api cmdid taskid body s"
| "do_action api task0 android (Request i out) s = bnd (Req2Buf api i out s) (\<lambda>r. Inr s)"
| "do_action api task0 android (Response i inbuf) s = bnd (Buf2Resp api i inbuf s) (\<lambda>(r, s). Inr s)"
| "do_action api task0 android (TaskEnd i et ec) s = bnd (OnTaskEnd i et ec s) (\<lambda>(r, s). Inr s)"
| "do_action api task0 android (ConnectStatus st ll) s = Inr (ReportConnectStatus st ll s)"
| "do_action api task0 android ResetAll s = Inr (proxy_reset s)"
| "do_action api task0 android Redo s = Inr (redoTasks s)"

fun within_budget :: "'b action \<Rightarrow> app_state \<Rightarrow> bool" where
  "within_budget (Send body cb) s = room_for (body, cb) s"
| "within_budget (Push c t b) s = (messageId s < kSignallingKeeperTaskID)"
| "within_budget a s = True"

inductive reachable :: "'b autobuffer_api \<Rightarrow> task \<Rightarrow> bool \<Rightarrow> app_state \<Rightarrow> bool"
  for api task0 android where
  start: "reachable api task0 android initial_state"
| step: "reachable api task0 android s \<Longrightarrow> within_budget a s \<Longrightarrow>
    do_action api task0 android a s = Inr s' \<Longrightarrow> reachable api task0 android s'"

section \<open>Every action keeps the invariant\<close>

lemma proxy_inv_messageId:
  assumes "proxy_inv s" and "messageId s < kSignallingKeeperTaskID"
  shows "proxy_inv (s\<lparr>messageId := messageId s + 1\<rparr>)"
proof -
  have "unat (messageId s) < 2 ^ 32 - 1"
    using assms(2) by (simp add: kSignallingKeeperTaskID_def word_less_nat_alt)
  then have "unat (messageId s + 1) = unat (messageId s) + 1"
    using unat_id [of 1 "messageId s"] by simp
  with assms(1) show ?thesis
    by (auto simp: proxy_inv_defs less_Suc_eq Ball_def)
qed

text \<open>What \<open>OnPush\<close> does with a received body that fits an \<open>int\<close>.\<close>

lemma OnPush_result:
  assumes "autobuffer_ok api" and "ab_length api body < 2 ^ 31 - 12"
  shows "OnPush api cmdid taskid body s = Inr
    (case g_pushListener s of
       None \<Rightarrow> s\<lparr>messageId := messageId s + 1\<rparr>
     | Some l \<Rightarrow> emit (OnPushMessage l (ab_content api body)) (s\<lparr>messageId := messageId s + 1\<rparr>))"
proof -
  let ?n = "of_nat (ab_length api body) :: u32"
  have n: "unat ?n = ab_length api body"
    using assms(2) by (intro of_nat_unat_small) simp
  have "unat ?n < 2 ^ 31" "unat ?n \<le> length (ab_mem api body)"
    unfolding n using assms(2) ab_length_mem [OF assms(1), of body] by simp_all
  from ImMessage_new_ok [OF this, of "messageId s"]
  have new: "ImMessage_new (ab_mem api body) ?n (messageId s) =
      Inr (of_bytes (frame (messageId s) (ab_content api body)), messageId s + 1)"
    unfolding n by (simp add: ab_content_def)
  have "body_fits (ab_content api body)"
    using assms ab_content_length [OF assms(1), of body] by (simp add: body_fits_def)
  from getData_frame [OF this, of "messageId s" "[]"] isValid_frame [of "messageId s" "ab_content api body" "[]"]
  show ?thesis
    by (simp add: OnPush_def new getPushListener_def split: option.split)
qed

lemma ImMessage_new_id: "ImMessage_new d n i = Inr (m, x) \<Longrightarrow> x = i + 1"
  by (cases "unat n < 2 ^ 31 \<and> unat n \<le> length d") (auto simp: ImMessage_new_ok ImMessage_new_bad)

lemma OnPush_frame:
  assumes "OnPush api cmdid taskid body s = Inr s'"
  shows "s' = s\<lparr>messageId := messageId s + 1\<rparr> \<or> (\<exists>e. s' = emit e (s\<lparr>messageId := messageId s + 1\<rparr>))"
proof -
  obtain m x where "ImMessage_new (ab_mem api body) (of_nat (ab_length api body)) (messageId s) = Inr (m, x)"
    using assms by (auto simp: OnPush_def bnd_eq_Inr)
  with ImMessage_new_id [OF this] assms show ?thesis
    by (auto simp: OnPush_def bnd_eq_Inr Let_def split: option.splits if_splits)
qed

lemma Buf2Resp_frame:
  assumes "Buf2Resp api i inbuf s = Inr (r, s')"
  shows "s' = s \<or> (\<exists>e. s' = emit e s)"
  using assms by (auto simp: Buf2Resp_def bnd_eq_Inr split: option.splits)

text \<open>The body inside a received packet: the length field decides, not the number of bytes.\<close>

definition packet_body :: "byte list \<Rightarrow> byte list option" where
  "packet_body bs =
     (if length bs < 12 then None
      else let n = unat (le32_dec (take 4 (drop 8 bs)))
           in if length bs < 12 + n then None else Some (take n (drop 12 bs)))"

lemma packet_body_frame: "body_fits body \<Longrightarrow> packet_body (frame i body @ ys) = Some body"
  by (simp add: packet_body_def Let_def layout_simps le.dec_enc body_fits_unat)

lemma Buf2Resp_owns:
  assumes "autobuffer_ok api" and "ab_length api inbuf < 2 ^ 31" and "owns s i a m body (Some l)"
  shows "Buf2Resp api i inbuf s =
    (case packet_body (ab_content api inbuf) of
       None \<Rightarrow> Inl OutOfBounds
     | Some d \<Rightarrow> Inr (0, emit (OnResponse l d) s))"
proof -
  have n: "unat (of_nat (ab_length api inbuf) :: u32) = ab_length api inbuf"
    using assms(2) by (intro of_nat_unat_small) simp
  have "parse ImMessage_empty (ab_mem api inbuf) (of_nat (ab_length api inbuf)) =
      bnd (isValid (of_bytes (ab_content api inbuf))) (\<lambda>v. Inr (v, of_bytes (ab_content api inbuf)))"
    using assms(2) ab_length_mem [OF assms(1), of inbuf] by (simp add: parse_empty n ab_content_def)
  moreover have "getTaskConext i s = Some a"
    by (rule getTaskConext_owns [OF assms(3)])
  ultimately show ?thesis
    using assms(3)
    by (auto simp: Buf2Resp_def owns_def packet_body_def isValid_of_bytes getData_of_bytes Let_def)
qed

lemma Buf2Resp_absent: "taskId2TaskCtx s i = None \<Longrightarrow> Buf2Resp api i inbuf s = Inr (-1, s)"
  by (simp add: Buf2Resp_def getTaskConext_None)

lemma Buf2Resp_no_listener: "owns s i a m body None \<Longrightarrow> Buf2Resp api i inbuf s = Inr (-1, s)"
  using getTaskConext_owns [of s i a m body None] by (simp add: Buf2Resp_def owns_def)

lemma proxy_inv_instance:
  assumes "proxy_inv s"
  shows "proxy_inv (snd (StnCallBack_Instance s))" "proxy_inv (snd (AppCallBack_Instance s))"
  using assms
  by (auto simp: StnCallBack_Instance_def AppCallBack_Instance_def proxy_inv_defs less_Suc_eq
      Ball_def split: option.split)

lemma mars_init_inv: "proxy_inv s \<Longrightarrow> proxy_inv (snd (mars_init android config s))"
  using proxy_inv_instance
  by (auto simp: mars_init_def Let_def split: prod.split)
    (metis proxy_inv_emit snd_conv)+

lemma ReportConnectStatus_frame:
  "ReportConnectStatus st ll s = s \<or> (\<exists>e. ReportConnectStatus st ll s = emit e s)"
  by (auto simp: ReportConnectStatus_def split: option.split)

lemma do_action_inv:
  assumes "proxy_inv s" and "within_budget a s" and "do_action api task0 android a s = Inr s'"
  shows "proxy_inv s'"
proof (cases a)
  case (Init config)
  with assms mars_init_inv [OF assms(1)] show ?thesis by auto
next
  case (Send body cb)
  with assms(2) have "body_fits body" "messageId s < kSignallingKeeperTaskID"
    by (simp_all add: room_for_def)
  from sendMessage_pending [OF assms(1) this, of task0 cb] assms(3) Send show ?thesis
    by auto
next
  case (Push c t b)
  with assms proxy_inv_messageId [OF assms(1)] OnPush_frame [of api c t b s s'] show ?thesis
    by auto
next
  case (Response i inbuf)
  with assms show ?thesis
    by (auto simp: bnd_eq_Inr dest: Buf2Resp_frame)
next
  case (TaskEnd i et ec)
  with assms OnTaskEnd_pending [OF assms(1), of i et ec] show ?thesis
    by auto
next
  case (ConnectStatus st ll)
  with assms ReportConnectStatus_frame [of st ll s] show ?thesis
    by auto
qed (use assms in \<open>auto simp: bnd_eq_Inr registerPushListener_def registerChannelListener_def
    proxy_reset_def redoTasks_def\<close>)

lemma reachable_inv: "reachable api task0 android s \<Longrightarrow> proxy_inv s"
  by (induction rule: reachable.induct) (auto intro: proxy_inv_initial do_action_inv)

text \<open>A reachable state with a task in flight.\<close>

definition one_pending :: app_state where
  "one_pending = stored undefined [1, 2] (Some 7) initial_state"

lemma one_pending:
  "reachable list_buffer undefined False one_pending"
  "pending one_pending 10000 = Some ([1, 2], Some 7)"
proof -
  have fits: "body_fits [1, 2]"
    by (simp add: body_fits_def)
  have "do_action list_buffer undefined False (Send [1, 2] (Some 7)) initial_state = Inr one_pending"
    by (simp add: sendMessage_stored initial_state_def one_pending_def)
  moreover have "within_budget (Send [1, 2] (Some 7) :: (byte list \<times> nat) action) initial_state"
    using fits by (simp add: room_for_def initial_state_def messageId_init_def kSignallingKeeperTaskID_def)
  ultimately show "reachable list_buffer undefined False one_pending"
    by (blast intro: reachable.intros)
  have "owns one_pending 10000 2 1 [1, 2] (Some 7)"
    unfolding one_pending_def
    by (simp add: owns_stored [OF proxy_inv_initial fits]) (simp add: initial_state_def messageId_init_def)
  then show "pending one_pending 10000 = Some ([1, 2], Some 7)"
    by (rule pending_owns)
qed

section \<open>Properties\<close>

text \<open>C19: \<open>sendMessage\<close> copies exactly \<open>size\<close> bytes into a frame under the next message id, stores
  its context and starts one task for it on the long link with command 55; a size above
  \<open>2^31 - 1\<close>, or above the length of the body, is a read or write out of bounds.\<close>

theorem sendMessage_total:
  assumes "\<not> taskId2TaskCtxMutex s"
  shows "sendMessage task0 body sz cb s =
    (if unat sz < 2 ^ 31 \<and> unat sz \<le> length body
     then Inr (0, stored task0 (take (unat sz) body) cb s)
     else Inl OutOfBounds)"
  using sendMessage_stored [OF assms] sendMessage_bad by simp

theorem sendMessage_total_witness:
  "sendMessage \<lparr>tk_taskid = 0, tk_cmdid = 0, tk_channel_id = 0, tk_channel_select = 0, tk_cgi = '''',
      tk_send_only = False, tk_need_authed = True, tk_limit_flow = True, tk_limit_frequency = True,
      tk_network_status_sensitive = False, tk_channel_strategy = 0, tk_priority = 3,
      tk_retry_count = -1, tk_server_process_cost = -1, tk_total_timetout = -1,
      tk_user_context = None, tk_report_arg = '''', tk_shortlink_host_list = []\<rparr> [1, 2, 3] 2 (Some 9) initial_state =
    (if unat (2 :: u32) < 2 ^ 31 \<and> unat (2 :: u32) \<le> length [1, 2, 3 :: byte]
     then Inr (0, stored \<lparr>tk_taskid = 0, tk_cmdid = 0, tk_channel_id = 0, tk_channel_select = 0, tk_cgi = '''',
      tk_send_only = False, tk_need_authed = True, tk_limit_flow = True, tk_limit_frequency = True,
      tk_network_status_sensitive = False, tk_channel_strategy = 0, tk_priority = 3,
      tk_retry_count = -1, tk_server_process_cost = -1, tk_total_timetout = -1,
      tk_user_context = None, tk_report_arg = '''', tk_shortlink_host_list = []\<rparr>
        (take (unat (2 :: u32)) [1, 2, 3]) (Some 9) initial_state)
     else Inl OutOfBounds)"
  by (rule sendMessage_total) (simp add: initial_state_def)

text \<open>C1: in every reachable state the wrapper owns its memory properly: the lock is free, every
  table entry is a live context with a live message whose header carries the entry's key, no two
  entries share an object, no object is leaked, and all ids in flight lie below the counter.\<close>

theorem reachable_ownership:
  assumes "reachable api task0 android s"
  shows "\<not> taskId2TaskCtxMutex s \<and> table_ok s \<and> unshared s \<and> no_leak s \<and> addrs_fresh s \<and> ids_ok s"
  using reachable_inv [OF assms] by (simp add: proxy_inv_def)

theorem reachable_ownership_witness:
  "taskId2TaskCtx one_pending 10000 = Some (Some 2) \<and>
    \<not> taskId2TaskCtxMutex one_pending \<and> table_ok one_pending \<and> unshared one_pending \<and>
    no_leak one_pending \<and> addrs_fresh one_pending \<and> ids_ok one_pending"
  using reachable_ownership [OF one_pending(1)]
  by (simp add: one_pending_def stored_sel) (simp add: initial_state_def messageId_init_def)

text \<open>In every reachable state \<open>Req2Buf\<close> refines the map of pending messages. For a pending
  task it writes that message's frame and returns \<open>true\<close>, for any other id it leaves the buffer
  alone and returns \<open>false\<close>; it never faults.\<close>

theorem Req2Buf_refines:
  assumes "reachable api task0 android s"
  shows "Req2Buf api' i out s =
    (case pending s i of
       None \<Rightarrow> Inr (False, out)
     | Some (body, cb) \<Rightarrow> Inr (True, ab_write api' out (frame i body)))"
  using reachable_inv [OF assms]
proof (cases rule: proxy_inv_cases [of s i])
  case 1
  then show ?thesis by (simp add: Req2Buf_absent pending_absent)
next
  case (2 a m body cb)
  then show ?thesis by (simp add: Req2Buf_owns pending_owns)
qed

theorem Req2Buf_refines_witness:
  "Req2Buf list_buffer 10000 ([], 0) initial_state =
    (case pending initial_state 10000 of
       None \<Rightarrow> Inr (False, ([], 0))
     | Some (body, cb) \<Rightarrow> Inr (True, ab_write list_buffer ([], 0) (frame 10000 body)))"
  by (rule Req2Buf_refines [of list_buffer undefined False]) (rule reachable.start)

text \<open>C4: in every reachable state \<open>OnTaskEnd\<close> succeeds, removes exactly its own task, and makes
  exactly one final call to the task's listener (success for \<open>kEctOK\<close>, else an error with the
  code); for an unknown or an already finished task it does nothing.\<close>

theorem OnTaskEnd_exactly_once:
  assumes "reachable api task0 android s"
  shows "\<exists>s1 s2. OnTaskEnd i et ec s = Inr (0, s1) \<and>
    pending s1 = (pending s)(i := None) \<and>
    trace s1 = trace s @ (case pending s i of None \<Rightarrow> [] | Some (body, cb) \<Rightarrow> final_call cb et ec) \<and>
    OnTaskEnd i et' ec' s1 = Inr (0, s2) \<and> trace s2 = trace s1 \<and> pending s2 = pending s1"
proof -
  obtain s1 where s1: "OnTaskEnd i et ec s = Inr (0, s1)" "proxy_inv s1"
    "pending s1 = (pending s)(i := None)"
    "trace s1 = trace s @ (case pending s i of None \<Rightarrow> [] | Some (body, cb) \<Rightarrow> final_call cb et ec)"
    using OnTaskEnd_pending [OF reachable_inv [OF assms], of i et ec] by blast
  from OnTaskEnd_pending [OF s1(2), of i et' ec'] s1(3)
  obtain s2 where "OnTaskEnd i et' ec' s1 = Inr (0, s2)" "pending s2 = pending s1" "trace s2 = trace s1"
    by auto
  with s1 show ?thesis by blast
qed

theorem OnTaskEnd_exactly_once_witness:
  "\<exists>s1 s2. OnTaskEnd 10000 0 0 one_pending = Inr (0, s1) \<and>
    pending s1 = (pending one_pending)(10000 := None) \<and>
    trace s1 = trace one_pending @ [OnSuccess 7] \<and>
    OnTaskEnd 10000 1 1 s1 = Inr (0, s2) \<and> trace s2 = trace s1 \<and> pending s2 = pending s1"
  using OnTaskEnd_exactly_once [OF one_pending(1), of 10000 0 0 1 1]
  by (simp add: one_pending(2) final_call_def kEctOK_def)

text \<open>C23: in every reachable state \<open>Buf2Resp\<close> hands the body of the received packet to the task's
  listener. It trusts the packet's length field: a packet shorter than the header, or than its
  header claims, is read out of bounds. The result of \<open>parse\<close> is ignored, so the magic number does
  not matter. An unknown task, or a task without a listener, is answered with \<open>-1\<close>.\<close>

theorem Buf2Resp_trusts_length:
  assumes "reachable api task0 android s" and "autobuffer_ok api'" and "ab_length api' inbuf < 2 ^ 31"
  shows "Buf2Resp api' i inbuf s =
    (case pending s i of
       None \<Rightarrow> Inr (-1, s)
     | Some (body, None) \<Rightarrow> Inr (-1, s)
     | Some (body, Some l) \<Rightarrow>
         (case packet_body (ab_content api' inbuf) of
            None \<Rightarrow> Inl OutOfBounds
          | Some d \<Rightarrow> Inr (0, emit (OnResponse l d) s)))"
  using reachable_inv [OF assms(1)]
proof (cases rule: proxy_inv_cases [of s i])
  case 1
  then show ?thesis by (simp add: Buf2Resp_absent pending_absent)
next
  case (2 a m body cb)
  then show ?thesis
    using Buf2Resp_owns [OF assms(2,3)] Buf2Resp_no_listener
    by (cases cb) (auto simp: pending_owns)
qed

theorem Buf2Resp_trusts_length_witness:
  "Buf2Resp list_buffer 10000 ([1, 2, 3], 0) one_pending = Inl OutOfBounds \<and>
   Buf2Resp list_buffer 10000 (frame 0 [5], 0) one_pending = Inr (0, emit (OnResponse 7 [5]) one_pending)"
  using Buf2Resp_trusts_length [OF one_pending(1) list_buffer_ok, of "([1, 2, 3], 0)" 10000]
    Buf2Resp_trusts_length [OF one_pending(1) list_buffer_ok, of "(frame 0 [5], 0)" 10000]
    packet_body_frame [of "[5]" 0 "[]"]
  by (simp add: one_pending(2) ab_content_def packet_body_def [of "[1, 2, 3]"] body_fits_def)

text \<open>\<open>OnPush\<close> wraps the received packet with the constructor for new messages instead of
  parsing it. The magic number is therefore written by the wrapper itself and the validity test
  never fails: whatever the bytes are, the listener receives the whole packet, header included,
  and the push consumes one message id.\<close>

theorem OnPush_delivers_raw_packet:
  assumes "autobuffer_ok api" and "ab_length api body < 2 ^ 31 - 12" and "g_pushListener s = Some l"
  shows "OnPush api cmdid taskid body s =
    Inr (s\<lparr>messageId := messageId s + 1, trace := trace s @ [OnPushMessage l (ab_content api body)]\<rparr>)"
  by (simp add: OnPush_result [OF assms(1,2)] assms(3) emit_def)

theorem OnPush_delivers_raw_packet_witness:
  "OnPush list_buffer 0 1 ([1, 2, 3], 0) (registerPushListener (Some 5) initial_state) =
    Inr ((registerPushListener (Some 5) initial_state)
      \<lparr>messageId := messageId (registerPushListener (Some 5) initial_state) + 1,
       trace := trace (registerPushListener (Some 5) initial_state) @
         [OnPushMessage 5 (ab_content list_buffer ([1, 2, 3], 0))]\<rparr>)"
  by (rule OnPush_delivers_raw_packet) (simp_all add: list_buffer_ok registerPushListener_def)

text \<open>C24: from every reachable state, ending any list of tasks succeeds and leaves pending exactly
  the tasks not in the list.\<close>

theorem end_all_tasks:
  assumes "reachable api task0 android s"
  shows "\<exists>s'. run_all (end_task et ec) ids s = Inr s' \<and>
    pending s' = (\<lambda>i. if i \<in> set ids then None else pending s i)"
  using tasks.finish_all [OF reachable_inv [OF assms], of et ec ids] by (auto simp: fun_eq_iff)

theorem end_all_tasks_witness:
  "\<exists>s'. run_all (end_task 0 0) [10000, 10001] one_pending = Inr s' \<and>
    pending s' = (\<lambda>i. if i \<in> set [10000, 10001] then None else pending one_pending i)"
  by (rule end_all_tasks [OF one_pending(1)])

text \<open>Sending a message and ending its task leaves the pending tasks as they were.\<close>

theorem send_end_restores:
  assumes "reachable api task0 android s" and "room_for v s"
  shows "\<exists>i s1 s2. submit_message task1 v s = Inr (i, s1) \<and> end_task et ec i s1 = Inr s2 \<and>
    proxy_inv s2 \<and> pending s2 = pending s"
  using tasks.submit_finish [OF reachable_inv [OF assms(1)] assms(2)] by blast

theorem send_end_restores_witness:
  "\<exists>i s1 s2. submit_message undefined ([1, 2], Some 7) initial_state = Inr (i, s1) \<and>
    end_task 0 0 i s1 = Inr s2 \<and> proxy_inv s2 \<and> pending s2 = pending initial_state"
  by (rule send_end_restores [of list_buffer undefined False], rule reachable.start)
    (simp add: room_for_def body_fits_def initial_state_def messageId_init_def kSignallingKeeperTaskID_def)

text \<open>Storing a context under an id that is still in use overwrites the entry: the old context
  and its message stay allocated and no table entry leads to them any more.\<close>

theorem storeContext_collision_leaks:
  assumes "proxy_inv s" and "owns s i a m body cb" and "b \<noteq> a"
  shows "\<exists>s'. storeContext i (Some b) s = Inr (True, s') \<and>
    a \<in> dom (ctx_heap s') \<and> m \<in> dom (msg_heap s') \<and>
    (\<nexists>j. getTaskConext j s' = Some a)"
proof -
  have "\<not> taskId2TaskCtxMutex s" and tab: "table_ok s" and un: "unshared s"
    using assms(1) by (simp_all add: proxy_inv_def)
  then have "storeContext i (Some b) s =
      Inr (True, s\<lparr>taskId2TaskCtx := (taskId2TaskCtx s)(i \<mapsto> Some b)\<rparr>)" (is "_ = Inr (True, ?s)")
    by (simp add: storeContext_def mutex_lock_def mutex_unlock_def getTaskConext_def Let_def)
  moreover have "getTaskConext j ?s \<noteq> Some a" for j
  proof (cases "j = i")
    case False
    have "taskId2TaskCtx s j \<noteq> Some (Some a)"
    proof
      assume t: "taskId2TaskCtx s j = Some (Some a)"
      with tab obtain a' n bd cc where "owns s j a' n bd cc"
        unfolding table_ok_def by blast
      with t have "owns s j a n bd cc"
        by (auto simp: owns_def)
      with un assms(2) False show False
        unfolding unshared_def by blast
    qed
    with False show ?thesis
      by (auto simp: getTaskConext_def split: option.split)
  qed (use assms(3) in \<open>simp add: getTaskConext_def\<close>)
  ultimately show ?thesis
    using assms(2) by (auto simp: owns_def)
qed

theorem storeContext_collision_leaks_witness:
  "\<exists>s'. storeContext 10000 (Some 9) (stored undefined [1, 2] (Some 7) initial_state) = Inr (True, s') \<and>
    2 \<in> dom (ctx_heap s') \<and> 1 \<in> dom (msg_heap s') \<and> (\<nexists>j. getTaskConext j s' = Some 2)"
proof (rule storeContext_collision_leaks [where body = "[1, 2]" and cb = "Some 7"])
  show "proxy_inv (stored undefined [1, 2] (Some 7) initial_state)"
    by (rule proxy_inv_stored [OF proxy_inv_initial])
      (simp_all add: body_fits_def initial_state_def messageId_init_def)
  show "owns (stored undefined [1, 2] (Some 7) initial_state) 10000 2 1 [1, 2] (Some 7)"
    by (simp add: owns_stored [OF proxy_inv_initial] body_fits_def)
      (simp add: initial_state_def messageId_init_def)
qed simp

text \<open>\<open>init\<close> makes its calls into Mars in a fixed order and cuts the configured port, a 32-bit
  number, to its low 16 bits.\<close>

theorem mars_init_trace:
  "trace (snd (mars_init android config s)) = trace s @
    [AppenderSetConsoleLog True, AppenderOpen 0 ''./log'' ''marPlus'' '''', XloggerSetLevel 0,
     SetLonglinkSvrAddr (mc_host config) [word_of_nat (unat (mc_port config) mod 65536)] '''',
     SetBackupIPs (mc_host config) [mc_backupIp config],
     SetStnCallback (Some (fst (StnCallBack_Instance s)))] @
    (if android then []
     else [SetAppCallback (Some (fst (AppCallBack_Instance (snd (StnCallBack_Instance s)))))]) @
    [OnCreate, OnForeground True, MakesureLonglinkConnected]"
proof -
  have "(ucast (p :: u32) :: u16) = word_of_nat (unat p mod 65536)" for p
    by (simp add: word_unat_eq_iff unsigned_ucast_eq unat_of_nat take_bit_eq_mod)
  then show ?thesis
    by (simp add: mars_init_def Let_def emit_def StnCallBack_Instance_def AppCallBack_Instance_def
        split: option.split)
qed

end
