(* ===== verification/TaskHistory.thy ===== *)
theory TaskHistory imports MarsPlus begin

text \<open>
  Whole runs of the wrapper with the list of what was done: what the listener of a message hears,
  counted over the run. The entry points are those of \<open>MarsPlus\<close>; the calls into listeners are the
  events \<open>stn_callback.cpp\<close> makes.
\<close>

section \<open>Histories\<close>

inductive history :: "'b autobuffer_api \<Rightarrow> task \<Rightarrow> bool \<Rightarrow> 'b action list \<Rightarrow> app_state \<Rightarrow> bool"
  for api task0 android where
  start: "history api task0 android [] initial_state"
| step: "history api task0 android as s \<Longrightarrow> within_budget a s \<Longrightarrow>
    do_action api task0 android a s = Inr s' \<Longrightarrow> history api task0 android (as @ [a]) s'"

lemma history_reachable: "history api task0 android as s \<Longrightarrow> reachable api task0 android s"
  by (induction rule: history.induct) (auto intro: reachable.intros)

lemma reachable_history: "reachable api task0 android s \<Longrightarrow> \<exists>as. history api task0 android as s"
  by (induction rule: reachable.induct) (blast intro: history.intros)+

text \<open>Messages sent with a listener, and the events that call it.\<close>

fun sends_to :: "addr \<Rightarrow> 'b action \<Rightarrow> bool" where
  "sends_to l (Send body cb) = (cb = Some l)"
| "sends_to l a = False"

definition sent :: "addr \<Rightarrow> 'b action list \<Rightarrow> nat" where
  "sent l as = length (filter (sends_to l) as)"

fun heard :: "addr \<Rightarrow> event \<Rightarrow> bool" where
  "heard l (OnResponse a d) = (a = l)"
| "heard l (OnError a c t) = (a = l)"
| "heard l (OnSuccess a) = (a = l)"
| "heard l e = False"

fun final_event :: "event \<Rightarrow> bool" where
  "final_event (OnError a c t) = True"
| "final_event (OnSuccess a) = True"
| "final_event e = False"

definition told :: "addr \<Rightarrow> app_state \<Rightarrow> event list" where
  "told l s = filter (heard l) (trace s)"

definition in_flight :: "addr \<Rightarrow> app_state \<Rightarrow> u32 set" where
  "in_flight l s = {i. \<exists>body. pending s i = Some (body, Some l)}"

definition finals :: "addr \<Rightarrow> app_state \<Rightarrow> nat" where
  "finals l s = length (filter final_event (told l s))"

lemma sent_snoc: "sent l (as @ [a]) = sent l as + (if sends_to l a then 1 else 0)"
  by (simp add: sent_def)

lemma told_append: "trace s' = trace s @ es \<Longrightarrow> told l s' = told l s @ filter (heard l) es"
  by (simp add: told_def)

lemma final_call_heard:
  "filter (heard l) (final_call cb et ec) = (if cb = Some l then final_call cb et ec else [])"
  "filter final_event (final_call cb et ec) = final_call cb et ec"
  "length (final_call (Some l) et ec) = 1"
  by (auto simp: final_call_def split: option.split)

section \<open>One action\<close>

text \<open>Actions that neither add nor remove a task, and call no listener of a message.\<close>

definition silent :: "app_state \<Rightarrow> app_state \<Rightarrow> bool" where
  "silent s s' \<longleftrightarrow> pending s' = pending s \<and> (\<forall>l. told l s' = told l s)"

lemma silent_refl [simp]: "silent s s"
  by (simp add: silent_def)

lemma silent_emit: "silent s (emit e s) \<longleftrightarrow> (\<forall>l. \<not> heard l e)"
  by (auto simp: silent_def emit_def told_def)

lemma silent_trans: "silent s t \<Longrightarrow> silent t u \<Longrightarrow> silent s u"
  by (simp add: silent_def)

lemma pending_frame_more [simp]:
  "pending (s\<lparr>stn_instance := p, next_addr := n\<rparr>) = pending s"
  "pending (s\<lparr>app_instance := p, next_addr := n\<rparr>) = pending s"
  "pending (s\<lparr>g_pushListener := p\<rparr>) = pending s"
  "pending (s\<lparr>g_channelListener := p\<rparr>) = pending s"
  by (simp_all add: pending_def getTaskConext_def fun_eq_iff cong: option.case_cong)

lemma silent_simps [simp]:
  "pending (emit e s) = pending s"
  "told l (emit e s) = told l s @ (if heard l e then [e] else [])"
  by (simp_all add: emit_def told_def)

lemma told_fields [simp]:
  "told l (s\<lparr>stn_instance := p, next_addr := n\<rparr>) = told l s"
  "told l (s\<lparr>app_instance := p, next_addr := n\<rparr>) = told l s"
  "told l (s\<lparr>g_pushListener := p\<rparr>) = told l s"
  "told l (s\<lparr>g_channelListener := p\<rparr>) = told l s"
  "told l (s\<lparr>messageId := k\<rparr>) = told l s"
  by (simp_all add: told_def)

lemma mars_init_silent: "silent s (snd (mars_init android config s))"
  by (simp add: silent_def mars_init_def Let_def StnCallBack_Instance_def AppCallBack_Instance_def
      split: option.split)

lemma OnPush_silent:
  assumes "OnPush api c t body s = Inr s'"
  shows "silent s s'"
  using assms by (auto simp: OnPush_def bnd_eq_Inr Let_def silent_def split: option.splits if_splits)

text \<open>\<open>Buf2Resp\<close> talks only to the listener of a task in flight.\<close>

lemma Buf2Resp_told:
  assumes "proxy_inv s" and "Buf2Resp api i inbuf s = Inr (r, s')"
  shows "silent s s' \<or> (\<exists>l d. in_flight l s \<noteq> {} \<and> s' = emit (OnResponse l d) s)"
  using assms(1)
proof (cases rule: proxy_inv_cases [of s i])
  case 1
  with assms(2) show ?thesis by (simp add: Buf2Resp_absent)
next
  case (2 a m body cb)
  show ?thesis
  proof (cases cb)
    case None
    with 2 assms(2) show ?thesis by (simp add: Buf2Resp_no_listener)
  next
    case (Some l)
    with 2 have "i \<in> in_flight l s"
      using pending_owns [OF 2] by (simp add: in_flight_def)
    moreover have "\<exists>d. s' = emit (OnResponse l d) s"
      using assms(2) 2 Some getTaskConext_owns [OF 2]
      by (auto simp: Buf2Resp_def owns_def bnd_eq_Inr)
    ultimately show ?thesis by blast
  qed
qed

text \<open>What an action does to the tasks in flight and to what a listener has heard.\<close>

definition adds :: "app_state \<Rightarrow> u32 \<Rightarrow> byte list \<Rightarrow> ptr \<Rightarrow> app_state \<Rightarrow> bool" where
  "adds s i body cb s' \<longleftrightarrow> pending s i = None \<and> pending s' = (pending s)(i \<mapsto> (body, cb)) \<and>
     (\<forall>l. told l s' = told l s)"

definition ends :: "app_state \<Rightarrow> u32 \<Rightarrow> int \<Rightarrow> int \<Rightarrow> app_state \<Rightarrow> bool" where
  "ends s i et ec s' \<longleftrightarrow> pending s' = (pending s)(i := None) \<and>
     (\<forall>l. told l s' = told l s @
        (if i \<in> in_flight l s then final_call (Some l) et ec else []))"

definition answers :: "app_state \<Rightarrow> app_state \<Rightarrow> bool" where
  "answers s s' \<longleftrightarrow> (\<exists>l d. in_flight l s \<noteq> {} \<and> s' = emit (OnResponse l d) s)"

lemma OnTaskEnd_ends:
  assumes "proxy_inv s" and "OnTaskEnd i et ec s = Inr (r, s')"
  shows "ends s i et ec s'"
proof -
  from OnTaskEnd_pending [OF assms(1), of i et ec] assms(2)
  have p: "pending s' = (pending s)(i := None)"
    and t: "trace s' = trace s @ (case pending s i of None \<Rightarrow> [] | Some (body, cb) \<Rightarrow> final_call cb et ec)"
    by auto
  have "filter (heard l) (case pending s i of None \<Rightarrow> [] | Some (body, cb) \<Rightarrow> final_call cb et ec) =
      (if i \<in> in_flight l s then final_call (Some l) et ec else [])" for l
    by (auto simp: in_flight_def final_call_heard split: option.splits)
  with told_append [OF t] p show ?thesis
    by (simp add: ends_def)
qed

lemma sendMessage_adds:
  assumes "proxy_inv s" and "room_for (body, cb) s"
    and "sendMessage task0 body (of_nat (length body)) cb s = Inr (r, s')"
  shows "adds s (messageId s) body cb s'"
proof -
  have "body_fits body" "messageId s < kSignallingKeeperTaskID"
    using assms(2) by (simp_all add: room_for_def)
  from sendMessage_pending [OF assms(1) this, of task0 cb] assms(3)
  have "pending s' = (pending s)(messageId s \<mapsto> (body, cb))"
    and t: "trace s' = trace s @ [StartTask (started_task task0 (messageId s))]"
    by auto
  with told_append [OF t] pending_absent [OF proxy_inv_fresh_id [OF assms(1)]] show ?thesis
    by (simp add: adds_def)
qed

lemma do_action_effect:
  assumes "proxy_inv s" and "within_budget a s" and "do_action api task0 android a s = Inr s'"
  shows "case a of
      Send body cb \<Rightarrow> \<exists>i. adds s i body cb s'
    | TaskEnd i et ec \<Rightarrow> ends s i et ec s'
    | _ \<Rightarrow> silent s s' \<or> answers s s'"
proof (cases a)
  case (Send body cb)
  with assms sendMessage_adds [OF assms(1), of body cb task0] show ?thesis
    by (auto simp: bnd_eq_Inr)
next
  case (TaskEnd i et ec)
  with assms OnTaskEnd_ends [OF assms(1)] show ?thesis
    by (auto simp: bnd_eq_Inr)
next
  case (Response i inbuf)
  with assms Buf2Resp_told [OF assms(1), of api i inbuf] show ?thesis
    by (auto simp: bnd_eq_Inr answers_def)
next
  case (Push c t b)
  with assms OnPush_silent show ?thesis by auto
next
  case (Init config)
  with assms mars_init_silent show ?thesis by auto
qed (use assms in \<open>auto simp: bnd_eq_Inr silent_def registerPushListener_def registerChannelListener_def
    proxy_reset_def redoTasks_def ReportConnectStatus_def split: option.split\<close>)

section \<open>The account of a listener\<close>

lemma in_flight_finite: "finite (in_flight l s)"
  by simp

lemma in_flight_adds:
  assumes "adds s i body cb s'"
  shows "in_flight l s' = (if cb = Some l then insert i (in_flight l s) else in_flight l s)"
    and "i \<notin> in_flight l s"
  using assms by (auto simp: adds_def in_flight_def)

lemma in_flight_ends: "ends s i et ec s' \<Longrightarrow> in_flight l s' = in_flight l s - {i}"
  by (auto simp: ends_def in_flight_def)

lemma in_flight_same: "silent s s' \<or> answers s s' \<Longrightarrow> in_flight l s' = in_flight l s"
  by (auto simp: silent_def answers_def in_flight_def)

lemma finals_told:
  "told l s' = told l s @ es \<Longrightarrow> finals l s' = finals l s + length (filter final_event es)"
  by (simp add: finals_def)

text \<open>The history's account: every message sent with the listener is in flight or was concluded.\<close>

definition balanced :: "addr \<Rightarrow> 'b action list \<Rightarrow> app_state \<Rightarrow> bool" where
  "balanced l as s \<longleftrightarrow> sent l as = finals l s + card (in_flight l s)"

lemma balanced_step:
  assumes "proxy_inv s" and "within_budget a s" and "do_action api task0 android a s = Inr s'"
    and "balanced l as s"
  shows "balanced l (as @ [a]) s'"
proof -
  note eff = do_action_effect [OF assms(1-3)]
  have quiet: "balanced l (as @ [a]) s'" if "silent s s' \<or> answers s s'" "\<not> sends_to l a"
  proof -
    have "finals l s' = finals l s"
      using that(1) by (auto simp: silent_def answers_def finals_def)
    with that assms(4) in_flight_same [OF that(1)] show ?thesis
      by (simp add: balanced_def sent_snoc)
  qed
  show ?thesis
  proof (cases a)
    case (Send body cb)
    with eff obtain i where i: "adds s i body cb s'" by auto
    then have "finals l s' = finals l s"
      by (simp add: adds_def finals_def)
    with Send assms(4) in_flight_adds [OF i, of l] show ?thesis
      by (simp add: balanced_def sent_snoc)
  next
    case (TaskEnd i et ec)
    with eff have e: "ends s i et ec s'" by simp
    have t: "told l s' = told l s @ (if i \<in> in_flight l s then final_call (Some l) et ec else [])"
      using e by (simp add: ends_def)
    have n: "sent l (as @ [a]) = finals l s + card (in_flight l s)"
      using assms(4) TaskEnd by (simp add: balanced_def sent_snoc)
    show ?thesis
    proof (cases "i \<in> in_flight l s")
      case True
      with finals_told [OF t] have "finals l s' = finals l s + 1"
        by (simp add: final_call_heard)
      with n card.remove [OF in_flight_finite True] in_flight_ends [OF e, of l] show ?thesis
        by (simp add: balanced_def)
    next
      case False
      with finals_told [OF t] n in_flight_ends [OF e, of l] show ?thesis
        by (simp add: balanced_def)
    qed
  qed (use eff quiet in auto)
qed

lemma history_balanced: "history api task0 android as s \<Longrightarrow> balanced l as s"
proof (induction rule: history.induct)
  case start
  show ?case
    by (simp add: balanced_def sent_def finals_def told_def in_flight_def pending_def getTaskConext_def
        initial_state_def)
next
  case (step as s a s')
  from balanced_step [OF reachable_inv [OF history_reachable [OF step.hyps(1)]] step.hyps(2,3) step.IH]
  show ?case .
qed

section \<open>The order of calls\<close>

text \<open>Responses first, then final calls.\<close>

definition in_order :: "event list \<Rightarrow> bool" where
  "in_order es \<longleftrightarrow> (\<exists>rs fs. es = rs @ fs \<and> (\<forall>e \<in> set rs. \<not> final_event e) \<and> (\<forall>e \<in> set fs. final_event e))"

lemma in_order_response: "(\<forall>e \<in> set es. \<not> final_event e) \<Longrightarrow> in_order (es @ [e])"
  by (cases "final_event e") (force simp: in_order_def)+

lemma in_order_iff: "in_order es \<longleftrightarrow>
    es = filter (\<lambda>e. \<not> final_event e) es @ filter final_event es"
proof
  assume "in_order es"
  then show "es = filter (\<lambda>e. \<not> final_event e) es @ filter final_event es"
    by (auto simp: in_order_def filter_empty_conv filter_id_conv)
next
  assume "es = filter (\<lambda>e. \<not> final_event e) es @ filter final_event es"
  then show "in_order es"
    unfolding in_order_def
    by (intro exI [of _ "filter (\<lambda>e. \<not> final_event e) es"] exI [of _ "filter final_event es"]) simp
qed

text \<open>A listener of at most one message that is still in flight has not had its final call.\<close>

lemma balanced_no_final:
  assumes "balanced l as s" and "sent l as \<le> 1" and "in_flight l s \<noteq> {}"
  shows "\<forall>e \<in> set (told l s). \<not> final_event e"
proof -
  have "0 < card (in_flight l s)"
    using assms(3) in_flight_finite by (simp add: card_gt_0_iff)
  with assms(1,2) have "finals l s = 0"
    by (simp add: balanced_def)
  then show ?thesis by (auto simp: finals_def filter_empty_conv)
qed

lemma final_call_one: "\<exists>e. final_call (Some l) et ec = [e]"
  by (simp add: final_call_def)

text \<open>An action lets a listener hear one thing at most, and that only while it is in flight.\<close>

lemma told_step:
  assumes "proxy_inv s" and "within_budget a s" and "do_action api task0 android a s = Inr s'"
  shows "told l s' = told l s \<or> (in_flight l s \<noteq> {} \<and> (\<exists>e. told l s' = told l s @ [e]))"
proof -
  note eff = do_action_effect [OF assms]
  have quiet: "?thesis" if "silent s s' \<or> answers s s'"
    using that by (auto simp: silent_def answers_def split: if_splits)
  show ?thesis
  proof (cases a)
    case (Send body cb)
    with eff show ?thesis by (auto simp: adds_def)
  next
    case (TaskEnd i et ec)
    with eff have "told l s' = told l s @ (if i \<in> in_flight l s then final_call (Some l) et ec else [])"
      by (simp add: ends_def)
    then show ?thesis
      using final_call_one [of l et ec] by (auto split: if_splits)
  qed (use eff quiet in auto)
qed

lemma history_in_order:
  "history api task0 android as s \<Longrightarrow> sent l as \<le> 1 \<Longrightarrow>
     in_order (told l s) \<and> (sent l as = 0 \<longrightarrow> told l s = [])"
proof (induction rule: history.induct)
  case start
  show ?case
    by (simp add: in_order_def told_def initial_state_def)
next
  case (step as s a s')
  have le: "sent l as \<le> sent l (as @ [a])"
    by (simp add: sent_snoc)
  with step.prems step.IH have IH: "in_order (told l s)" "sent l as = 0 \<longrightarrow> told l s = []" "sent l as \<le> 1"
    by simp_all
  have bal: "balanced l as s"
    by (rule history_balanced [OF step.hyps(1)])
  from told_step [OF reachable_inv [OF history_reachable [OF step.hyps(1)]] step.hyps(2,3), of l]
  show ?case
  proof
    assume "told l s' = told l s"
    with IH(1,2) le show ?thesis by simp
  next
    assume h: "in_flight l s \<noteq> {} \<and> (\<exists>e. told l s' = told l s @ [e])"
    then have "in_order (told l s')"
      using in_order_response balanced_no_final [OF bal IH(3)] by auto
    moreover have "0 < card (in_flight l s)"
      using h in_flight_finite by (simp add: card_gt_0_iff)
    with bal have "0 < sent l as"
      by (simp add: balanced_def)
    ultimately show ?thesis
      using le by simp
  qed
qed

lemma told_not_final: "e \<in> set (told l s) \<Longrightarrow> \<not> final_event e \<Longrightarrow> \<exists>d. e = OnResponse l d"
  by (cases e) (auto simp: told_def)

text \<open>A run: a message, an answer to nobody, its end.\<close>

lemma history_send_end:
  "\<exists>s. history list_buffer task0 android
      [Send [1, 2] (Some 7), RegisterPush None, TaskEnd messageId_init kEctOK 0] s \<and>
    told 7 s = [OnSuccess 7] \<and> in_flight 7 s = {}"
proof -
  have room: "room_for ([1, 2], Some 7) initial_state"
    by (simp add: room_for_def body_fits_def initial_state_def messageId_init_def kSignallingKeeperTaskID_def)
  then have "body_fits [1, 2]" "messageId initial_state < kSignallingKeeperTaskID"
    by (simp_all add: room_for_def)
  from sendMessage_pending [OF proxy_inv_initial this, of task0 "Some 7"] obtain s1 where
    s1: "sendMessage task0 [1, 2] (of_nat (length [1, 2 :: byte])) (Some 7) initial_state = Inr (0, s1)"
    "proxy_inv s1" "pending s1 messageId_init = Some ([1, 2], Some 7)"
    "trace s1 = [StartTask (started_task task0 (messageId initial_state))]"
    "pending s1 = (pending initial_state)(messageId_init \<mapsto> ([1, 2], Some 7))"
    by (auto simp: initial_state_def)
  let ?s2 = "s1\<lparr>g_pushListener := None\<rparr>"
  have inv: "proxy_inv ?s2"
    using s1(2) by simp
  from OnTaskEnd_pending [OF inv, of messageId_init kEctOK 0] s1(3,4) obtain s3 where
    s3: "OnTaskEnd messageId_init kEctOK 0 ?s2 = Inr (0, s3)"
    "pending s3 = (pending s1)(messageId_init := None)"
    "trace s3 = [StartTask (started_task task0 (messageId initial_state)), OnSuccess 7]"
    by (auto simp: final_call_def)
  have "history list_buffer task0 android ([] @ [Send [1, 2] (Some 7)]) s1"
    using s1(1) room by (intro history.step [OF history.start]) simp_all
  from history.step [OF this, of "RegisterPush None" ?s2]
  have "history list_buffer task0 android ([Send [1, 2] (Some 7)] @ [RegisterPush None]) ?s2"
    by (simp add: registerPushListener_def)
  from history.step [OF this, of "TaskEnd messageId_init kEctOK 0" s3] s3(1)
  have "history list_buffer task0 android
      [Send [1, 2] (Some 7), RegisterPush None, TaskEnd messageId_init kEctOK 0] s3"
    by simp
  moreover have "in_flight 7 s3 = {}"
    using s3(2) s1(5) by (auto simp: in_flight_def pending_def getTaskConext_def initial_state_def)
  ultimately show ?thesis
    using s3(3) by (auto simp: told_def)
qed

section \<open>Properties\<close>

text \<open>C5: the account of a listener balances over every run: the messages sent with it are those still
  in flight plus the final calls it has had. No message is ever lost or concluded twice, whatever
  Mars reports and in whatever order.\<close>

theorem listener_account:
  assumes "history api task0 android as s"
  shows "sent l as = finals l s + card (in_flight l s)"
  using history_balanced [OF assms] by (simp add: balanced_def)

theorem listener_account_witness:
  "\<exists>s. history list_buffer undefined False
      [Send [1, 2] (Some 7), RegisterPush None, TaskEnd messageId_init kEctOK 0] s \<and>
    finals 7 s = 1 \<and> in_flight 7 s = {} \<and>
    sent 7 [Send [1, 2] (Some 7), RegisterPush None, TaskEnd messageId_init kEctOK 0 :: (byte list \<times> nat) action] =
      finals 7 s + card (in_flight 7 s)"
proof -
  obtain s where s: "history list_buffer undefined False
      [Send [1, 2] (Some 7), RegisterPush None, TaskEnd messageId_init kEctOK 0] s"
    "told 7 s = [OnSuccess 7]" "in_flight 7 s = {}"
    using history_send_end by blast
  from listener_account [OF s(1), of 7] s show ?thesis
    by (auto simp: finals_def)
qed

text \<open>C6: the protocol a listener of one message sees: any number of responses, then, once the task
  has ended, exactly one final call, and nothing after it; a listener that was given to no message
  hears nothing.\<close>

theorem listener_protocol:
  assumes "history api task0 android as s" and "sent l as \<le> 1"
  shows "\<exists>rs fs. told l s = rs @ fs \<and> (\<forall>e \<in> set rs. \<exists>d. e = OnResponse l d) \<and>
    (\<forall>e \<in> set fs. final_event e) \<and> length fs + card (in_flight l s) = sent l as \<and>
    (sent l as = 0 \<longrightarrow> rs = [])"
proof -
  note H = history_in_order [OF assms]
  have "told l s = filter (\<lambda>e. \<not> final_event e) (told l s) @ filter final_event (told l s)"
    using H by (simp flip: in_order_iff)
  moreover have "\<forall>e \<in> set (filter (\<lambda>e. \<not> final_event e) (told l s)). \<exists>d. e = OnResponse l d"
    using told_not_final by auto
  moreover have "length (filter final_event (told l s)) + card (in_flight l s) = sent l as"
    using history_balanced [OF assms(1), of l] by (simp add: balanced_def finals_def)
  ultimately show ?thesis
    using H by (intro exI conjI) (assumption | force)+
qed

theorem listener_protocol_witness:
  "\<exists>s. history list_buffer undefined False
      [Send [1, 2] (Some 7), RegisterPush None, TaskEnd messageId_init kEctOK 0] s \<and>
    told 7 s = [OnSuccess 7] \<and>
    (\<exists>rs fs. told 7 s = rs @ fs \<and> (\<forall>e \<in> set rs. \<exists>d. e = OnResponse 7 d) \<and>
      (\<forall>e \<in> set fs. final_event e) \<and> length fs + card (in_flight 7 s) =
        sent 7 [Send [1, 2] (Some 7), RegisterPush None, TaskEnd messageId_init kEctOK 0 :: (byte list \<times> nat) action])"
proof -
  obtain s where s: "history list_buffer undefined False
      [Send [1, 2] (Some 7), RegisterPush None, TaskEnd messageId_init kEctOK 0] s"
    "told 7 s = [OnSuccess 7]"
    using history_send_end by blast
  show ?thesis
    by (rule exI [of _ s]) (use s listener_protocol [OF s(1), of 7] in \<open>simp add: sent_def\<close>)
qed

end
