(* ===== verification/WrapperSpec.thy ===== *)
theory WrapperSpec imports TaskHistory begin

text \<open>
  What the wrapper promises, as one small machine. The specification keeps the messages in flight,
  the next message id, the two registered listeners and the list of calls made; it has no memory,
  no table, no lock and no frames in memory. The entry points of \<open>mars_plus.cpp\<close>,
  \<open>stn_callback.cpp\<close> and \<open>mars_task_proxy.cpp\<close>, with the values they return to their caller, are
  proved to simulate it run by run.
\<close>

section \<open>Simulation\<close>

text \<open>
  A call takes an action and a state to a reply and a new state, or to an error. The square of one
  call extends to runs; the condition on an action is read on the abstract state.
\<close>

definition lift_result :: "('s \<Rightarrow> 't) \<Rightarrow> ('r \<times> 's) result \<Rightarrow> ('r \<times> 't) result" where
  "lift_result f = map_sum id (map_prod id f)"

lemma lift_result_simps [simp]:
  "lift_result f (Inl e) = Inl e"
  "lift_result f (Inr (r, s)) = Inr (r, f s)"
  by (simp_all add: lift_result_def)

lemma lift_result_bnd:
  "lift_result f (bnd x g) = bnd x (\<lambda>y. lift_result f (g y))"
  by (cases x) simp_all

primrec run_calls :: "('a \<Rightarrow> 's \<Rightarrow> ('r \<times> 's) result) \<Rightarrow> 'a list \<Rightarrow> 's \<Rightarrow> ('r list \<times> 's) result" where
  "run_calls f [] s = Inr ([], s)"
| "run_calls f (a # as) s =
     bnd (f a s) (\<lambda>(r, s). bnd (run_calls f as s) (\<lambda>(rs, s). Inr (r # rs, s)))"

primrec all_fit :: "('a \<Rightarrow> 't \<Rightarrow> bool) \<Rightarrow> ('a \<Rightarrow> 't \<Rightarrow> ('r \<times> 't) result) \<Rightarrow> 'a list \<Rightarrow> 't \<Rightarrow> bool" where
  "all_fit fits f [] t = True"
| "all_fit fits f (a # as) t =
     (fits a t \<and> (case f a t of Inl e \<Rightarrow> True | Inr (r, t) \<Rightarrow> all_fit fits f as t))"

locale simulation =
  fixes inv :: "'s \<Rightarrow> bool"
    and abs :: "'s \<Rightarrow> 't"
    and fits :: "'a \<Rightarrow> 't \<Rightarrow> bool"
    and call :: "'a \<Rightarrow> 's \<Rightarrow> ('r \<times> 's) result"
    and spec :: "'a \<Rightarrow> 't \<Rightarrow> ('r \<times> 't) result"
  assumes square: "inv s \<Longrightarrow> fits a (abs s) \<Longrightarrow> lift_result abs (call a s) = spec a (abs s)"
    and keeps: "inv s \<Longrightarrow> fits a (abs s) \<Longrightarrow> call a s = Inr (r, s') \<Longrightarrow> inv s'"
begin

lemma spec_call: "inv s \<Longrightarrow> fits a (abs s) \<Longrightarrow> call a s = Inr (r, s') \<Longrightarrow> spec a (abs s) = Inr (r, abs s')"
  using square by fastforce

lemma spec_error: "inv s \<Longrightarrow> fits a (abs s) \<Longrightarrow> call a s = Inl e \<Longrightarrow> spec a (abs s) = Inl e"
  using square by fastforce

lemma runs_agree:
  "inv s \<Longrightarrow> all_fit fits spec as (abs s) \<Longrightarrow>
     lift_result abs (run_calls call as s) = run_calls spec as (abs s)"
proof (induction as arbitrary: s)
  case (Cons a as)
  then have fit: "fits a (abs s)" by simp
  show ?case
  proof (cases "call a s")
    case (Inl e)
    with spec_error [OF Cons.prems(1) fit] show ?thesis by simp
  next
    case (Inr p)
    then obtain r s' where c: "call a s = Inr (r, s')" by (cases p) simp
    note sp = spec_call [OF Cons.prems(1) fit c]
    with Cons.prems(2) have "all_fit fits spec as (abs s')" by simp
    from Cons.IH [OF keeps [OF Cons.prems(1) fit c] this]
    have "run_calls spec as (abs s') = lift_result abs (run_calls call as s')" by simp
    with c sp show ?thesis
      by (cases "run_calls call as s'") auto
  qed
qed simp

lemma runs_keep:
  "inv s \<Longrightarrow> all_fit fits spec as (abs s) \<Longrightarrow> run_calls call as s = Inr (rs, s') \<Longrightarrow> inv s'"
proof (induction as arbitrary: s rs)
  case (Cons a as)
  then have fit: "fits a (abs s)" by simp
  from Cons.prems(3) obtain r t rs' where c: "call a s = Inr (r, t)" "run_calls call as t = Inr (rs', s')"
    by (auto simp: bnd_eq_Inr)
  with Cons.prems(2) spec_call [OF Cons.prems(1) fit c(1)] have "all_fit fits spec as (abs t)" by simp
  from Cons.IH [OF keeps [OF Cons.prems(1) fit c(1)] this c(2)] show ?case .
qed simp

end

section \<open>Entry points with their replies\<close>

text \<open>What an entry point gives back: nothing, an integer, or a flag and the output buffer.\<close>

datatype 'b reply =
    Nothing
  | Code int
  | Buffer bool 'b

fun call_action ::
    "'b autobuffer_api \<Rightarrow> task \<Rightarrow> bool \<Rightarrow> 'b action \<Rightarrow> app_state \<Rightarrow> ('b reply \<times> app_state) result" where
  "call_action api task0 android (Init config) s =
     (let (r, s) = mars_init android config s in Inr (Code r, s))"
| "call_action api task0 android (Send body cb) s =
     bnd (sendMessage task0 body (of_nat (length body)) cb s) (\<lambda>(r, s). Inr (Code r, s))"
| "call_action api task0 android (RegisterPush l) s = Inr (Nothing, registerPushListener l s)"
| "call_action api task0 android (RegisterChannel l) s = Inr (Nothing, registerChannelListener l s)"
| "call_action api task0 android (Push cmdid taskid body) s =
     bnd (OnPush api cmdid taskid body s) (\<lambda>s. Inr (Nothing, s))"
| "call_action api task0 android (Request i out) s =
     bnd (Req2Buf api i out s) (\<lambda>(ok, out). Inr (Buffer ok out, s))"
| "call_action api task0 android (Response i inbuf) s =
     bnd (Buf2Resp api i inbuf s) (\<lambda>(r, s). Inr (Code r, s))"
| "call_action api task0 android (TaskEnd i et ec) s =
     bnd (OnTaskEnd i et ec s) (\<lambda>(r, s). Inr (Code r, s))"
| "call_action api task0 android (ConnectStatus st ll) s = Inr (Nothing, ReportConnectStatus st ll s)"
| "call_action api task0 android ResetAll s = Inr (Nothing, proxy_reset s)"
| "call_action api task0 android Redo s = Inr (Nothing, redoTasks s)"

lemma do_action_call:
  "do_action api task0 android a s = bnd (call_action api task0 android a s) (\<lambda>(r, s). Inr s)"
proof (cases a)
  case (Push c t b)
  then show ?thesis by (cases "OnPush api c t b s") simp_all
next
  case (Request i out)
  then show ?thesis by (cases "Req2Buf api i out s") (simp_all add: split_def)
next
  case (Send body cb)
  then show ?thesis
    by (cases "sendMessage task0 body (of_nat (length body)) cb s") (simp_all add: split_def)
next
  case (Response i inbuf)
  then show ?thesis by (cases "Buf2Resp api i inbuf s") (simp_all add: split_def)
next
  case (TaskEnd i et ec)
  then show ?thesis by (cases "OnTaskEnd i et ec s") (simp_all add: split_def)
qed (simp_all add: split_def Let_def)

section \<open>The specification\<close>

record wrapper_spec =
  ws_pending :: "u32 \<rightharpoonup> byte list \<times> ptr"
  ws_next :: u32
  ws_push :: ptr
  ws_channel :: ptr
  ws_calls :: "event list"

definition spec_initial :: wrapper_spec where
  "spec_initial =
     \<lparr>ws_pending = Map.empty, ws_next = messageId_init, ws_push = None, ws_channel = None, ws_calls = []\<rparr>"

text \<open>A call as a reader of the run sees it: the address of a callback singleton does not matter.\<close>

fun seen :: "event \<Rightarrow> event" where
  "seen (SetStnCallback p) = SetStnCallback None"
| "seen (SetAppCallback p) = SetAppCallback None"
| "seen e = e"

definition calls :: "event list \<Rightarrow> wrapper_spec \<Rightarrow> wrapper_spec" where
  "calls es w = w\<lparr>ws_calls := ws_calls w @ es\<rparr>"

definition init_calls :: "bool \<Rightarrow> mars_config \<Rightarrow> event list" where
  "init_calls android config =
     [AppenderSetConsoleLog True, AppenderOpen 0 ''./log'' ''marPlus'' '''', XloggerSetLevel 0,
      SetLonglinkSvrAddr (mc_host config) [word_of_nat (unat (mc_port config) mod 65536)] '''',
      SetBackupIPs (mc_host config) [mc_backupIp config], SetStnCallback None] @
     (if android then [] else [SetAppCallback None]) @
     [OnCreate, OnForeground True, MakesureLonglinkConnected]"

definition notify :: "ptr \<Rightarrow> (addr \<Rightarrow> event) \<Rightarrow> event list" where
  "notify p f = (case p of None \<Rightarrow> [] | Some l \<Rightarrow> [f l])"

fun spec_action ::
    "'b autobuffer_api \<Rightarrow> task \<Rightarrow> bool \<Rightarrow> 'b action \<Rightarrow> wrapper_spec \<Rightarrow> ('b reply \<times> wrapper_spec) result" where
  "spec_action api task0 android (Init config) w = Inr (Code 0, calls (init_calls android config) w)"
| "spec_action api task0 android (Send body cb) w =
     Inr (Code 0, calls [StartTask (started_task task0 (ws_next w))]
       (w\<lparr>ws_pending := (ws_pending w)(ws_next w \<mapsto> (body, cb)), ws_next := ws_next w + 1\<rparr>))"
| "spec_action api task0 android (RegisterPush l) w = Inr (Nothing, w\<lparr>ws_push := l\<rparr>)"
| "spec_action api task0 android (RegisterChannel l) w = Inr (Nothing, w\<lparr>ws_channel := l\<rparr>)"
| "spec_action api task0 android (Push cmdid taskid body) w =
     Inr (Nothing, calls (notify (ws_push w) (\<lambda>l. OnPushMessage l (ab_content api body)))
       (w\<lparr>ws_next := ws_next w + 1\<rparr>))"
| "spec_action api task0 android (Request i out) w =
     Inr (case ws_pending w i of
            None \<Rightarrow> Buffer False out
          | Some (body, cb) \<Rightarrow> Buffer True (ab_write api out (frame i body)), w)"
| "spec_action api task0 android (Response i inbuf) w =
     (case ws_pending w i of
        Some (body, Some l) \<Rightarrow>
          (case packet_body (ab_content api inbuf) of
             None \<Rightarrow> Inl OutOfBounds
           | Some d \<Rightarrow> Inr (Code 0, calls [OnResponse l d] w))
      | _ \<Rightarrow> Inr (Code (-1), w))"
| "spec_action api task0 android (TaskEnd i et ec) w =
     Inr (Code 0, calls (case ws_pending w i of None \<Rightarrow> [] | Some (body, cb) \<Rightarrow> final_call cb et ec)
       (w\<lparr>ws_pending := (ws_pending w)(i := None)\<rparr>))"
| "spec_action api task0 android (ConnectStatus st ll) w =
     Inr (Nothing, calls (notify (ws_channel w) (\<lambda>l. OnChannelStatus l ll)) w)"
| "spec_action api task0 android ResetAll w = Inr (Nothing, calls [StnReset] w)"
| "spec_action api task0 android Redo w = Inr (Nothing, calls [StnRedoTasks] w)"

text \<open>
  The bounds of a run: bodies that fit a frame, received buffers that fit an \<open>int\<close>, and message ids
  below the reserved ones.
\<close>

fun spec_fits :: "'b autobuffer_api \<Rightarrow> 'b action \<Rightarrow> wrapper_spec \<Rightarrow> bool" where
  "spec_fits api (Send body cb) w = (body_fits body \<and> ws_next w < kSignallingKeeperTaskID)"
| "spec_fits api (Push c t b) w =
     (ab_length api b < 2 ^ 31 - 12 \<and> ws_next w < kSignallingKeeperTaskID)"
| "spec_fits api (Response i b) w = (ab_length api b < 2 ^ 31)"
| "spec_fits api a w = True"

definition spec_of :: "app_state \<Rightarrow> wrapper_spec" where
  "spec_of s =
     \<lparr>ws_pending = pending s, ws_next = messageId s, ws_push = g_pushListener s,
      ws_channel = g_channelListener s, ws_calls = map seen (trace s)\<rparr>"

section \<open>The squares\<close>

lemma spec_of_initial: "spec_of initial_state = spec_initial"
  by (simp add: spec_of_def spec_initial_def initial_state_def pending_def getTaskConext_def fun_eq_iff)

lemma spec_of_sel [simp]:
  "ws_pending (spec_of s) = pending s"
  "ws_next (spec_of s) = messageId s"
  "ws_push (spec_of s) = g_pushListener s"
  "ws_channel (spec_of s) = g_channelListener s"
  "ws_calls (spec_of s) = map seen (trace s)"
  by (simp_all add: spec_of_def)

lemma spec_of_emit: "spec_of (emit e s) = calls [seen e] (spec_of s)"
  by (simp add: spec_of_def calls_def) (simp add: emit_def)

lemma calls_simps [simp]:
  "calls [] w = w"
  "calls es (calls ds w) = calls (ds @ es) w"
  by (simp_all add: calls_def)

lemma spec_of_instance:
  "spec_of (s\<lparr>stn_instance := p, next_addr := n\<rparr>) = spec_of s"
  "spec_of (s\<lparr>app_instance := p, next_addr := n\<rparr>) = spec_of s"
  by (simp_all add: spec_of_def)

lemma spec_of_singletons:
  "StnCallBack_Instance s = (a, s') \<Longrightarrow> spec_of s' = spec_of s"
  "AppCallBack_Instance s = (a, s') \<Longrightarrow> spec_of s' = spec_of s"
  by (auto simp: StnCallBack_Instance_def AppCallBack_Instance_def spec_of_instance split: option.splits)

lemma square_init:
  "fst (mars_init android config s) = 0"
  "spec_of (snd (mars_init android config s)) = calls (init_calls android config) (spec_of s)"
proof -
  have port: "(ucast (p :: u32) :: u16) = word_of_nat (unat p mod 65536)" for p
    by (simp add: word_unat_eq_iff unsigned_ucast_eq unat_of_nat take_bit_eq_mod)
  show "fst (mars_init android config s) = 0"
    by (simp add: mars_init_def Let_def split: prod.split)
  show "spec_of (snd (mars_init android config s)) = calls (init_calls android config) (spec_of s)"
    by (simp add: mars_init_def Let_def init_calls_def port spec_of_emit split: prod.split)
      (auto simp: spec_of_emit dest!: spec_of_singletons)
qed

lemma spec_eqI:
  assumes "pending s = ws_pending w" and "messageId s = ws_next w" and "g_pushListener s = ws_push w"
    and "g_channelListener s = ws_channel w" and "map seen (trace s) = ws_calls w"
  shows "spec_of s = w"
  using assms by (cases w) (simp add: spec_of_def)

lemma square_send:
  assumes "proxy_inv s" and "spec_fits api (Send body cb) (spec_of s)"
  shows "lift_result spec_of (call_action api task0 android (Send body cb) s) =
    spec_action api task0 android (Send body cb) (spec_of s)"
proof -
  have fits: "body_fits body" "messageId s < kSignallingKeeperTaskID"
    using assms(2) by simp_all
  have sz: "unat (of_nat (length body) :: u32) = length body"
    by (rule body_fits_unat [OF fits(1)])
  have small: "unat (of_nat (length body) :: u32) < 2 ^ 31"
    "unat (of_nat (length body) :: u32) \<le> length body"
    unfolding sz using fits(1) by (simp_all add: body_fits_def)
  have mid: "unat (messageId s) < 2 ^ 32 - 1"
    using fits(2) by (simp add: kSignallingKeeperTaskID_def word_less_nat_alt)
  have "\<not> taskId2TaskCtxMutex s"
    using assms(1) by (simp add: proxy_inv_def)
  from sendMessage_stored [OF this small, of task0 cb]
  have "sendMessage task0 body (of_nat (length body)) cb s = Inr (0, stored task0 body cb s)"
    unfolding sz by simp
  moreover have "spec_of (stored task0 body cb s) = calls [StartTask (started_task task0 (messageId s))]
      ((spec_of s)\<lparr>ws_pending := (pending s)(messageId s \<mapsto> (body, cb)), ws_next := messageId s + 1\<rparr>)"
    using pending_stored [OF assms(1) fits(1) mid]
    by (intro spec_eqI) (simp_all add: calls_def stored_sel, simp_all add: stored_def Let_def)
  ultimately show ?thesis by simp
qed

lemma square_push:
  assumes "autobuffer_ok api" and "spec_fits api (Push c t b) (spec_of s)"
  shows "lift_result spec_of (call_action api task0 android (Push c t b) s) =
    spec_action api task0 android (Push c t b) (spec_of s)"
proof -
  have "ab_length api b < 2 ^ 31 - 12"
    using assms(2) by simp
  from OnPush_result [OF assms(1) this, of c t s] show ?thesis
    by (cases "g_pushListener s")
      (simp_all add: notify_def, (rule spec_eqI; simp add: calls_def emit_def)+)
qed

lemma square_request:
  assumes "proxy_inv s"
  shows "lift_result spec_of (call_action api task0 android (Request i out) s) =
    spec_action api task0 android (Request i out) (spec_of s)"
  using assms
proof (cases rule: proxy_inv_cases [of s i])
  case 1
  then show ?thesis by (simp add: Req2Buf_absent pending_absent)
next
  case (2 a m body cb)
  then show ?thesis by (simp add: Req2Buf_owns pending_owns)
qed

lemma square_response:
  assumes "proxy_inv s" and "autobuffer_ok api" and "spec_fits api (Response i b) (spec_of s)"
  shows "lift_result spec_of (call_action api task0 android (Response i b) s) =
    spec_action api task0 android (Response i b) (spec_of s)"
  using assms(1)
proof (cases rule: proxy_inv_cases [of s i])
  case 1
  then show ?thesis by (simp add: Buf2Resp_absent pending_absent)
next
  case (2 a m body cb)
  have len: "ab_length api b < 2 ^ 31"
    using assms(3) by simp
  show ?thesis
  proof (cases cb)
    case None
    with 2 show ?thesis by (simp add: Buf2Resp_no_listener pending_owns)
  next
    case (Some l)
    with 2 Buf2Resp_owns [OF assms(2) len] show ?thesis
      by (auto simp: pending_owns spec_of_emit split: option.split)
  qed
qed

lemma square_end:
  assumes "proxy_inv s"
  shows "lift_result spec_of (call_action api task0 android (TaskEnd i et ec) s) =
    spec_action api task0 android (TaskEnd i et ec) (spec_of s)"
  using assms
proof (cases rule: proxy_inv_cases [of s i])
  case 1
  then show ?thesis
    by (simp add: OnTaskEnd_absent pending_absent)
      (rule spec_eqI; simp add: pending_absent fun_upd_idem)
next
  case (2 a m body cb)
  let ?t = "s\<lparr>trace := trace s @ final_call cb et ec\<rparr>"
  have own: "owns ?t i a m body cb" and inv: "proxy_inv ?t"
    using 2 assms by simp_all
  have "\<not> taskId2TaskCtxMutex s"
    using assms by (simp add: proxy_inv_def)
  then have "OnTaskEnd i et ec s = Inr (0, removed i a m ?t)"
    using OnTaskEnd_owns 2 by blast
  moreover have "map seen (final_call cb et ec) = final_call cb et ec"
    by (simp add: final_call_def split: option.split)
  then have "spec_of (removed i a m ?t) =
      calls (final_call cb et ec) ((spec_of s)\<lparr>ws_pending := (pending s)(i := None)\<rparr>)"
    using pending_removed [OF inv own]
    by (intro spec_eqI) (simp_all add: calls_def removed_def)
  ultimately show ?thesis
    using pending_owns [OF 2] by simp
qed

lemma call_square:
  assumes "autobuffer_ok api" and "proxy_inv s" and "spec_fits api a (spec_of s)"
  shows "lift_result spec_of (call_action api task0 android a s) =
    spec_action api task0 android a (spec_of s)"
proof (cases a)
  case (Init config)
  then show ?thesis
    using square_init [of android config s] by (simp add: split_def Let_def)
next
  case (Send body cb)
  with assms(3) square_send [OF assms(2)] show ?thesis by blast
next
  case (Push c t b)
  with assms(3) square_push [OF assms(1)] show ?thesis by blast
next
  case (Request i out)
  then show ?thesis by (simp only: square_request [OF assms(2)])
next
  case (Response i b)
  with assms(3) square_response [OF assms(2,1)] show ?thesis by blast
next
  case (TaskEnd i et ec)
  then show ?thesis by (simp only: square_end [OF assms(2)])
qed (auto simp: registerPushListener_def registerChannelListener_def proxy_reset_def redoTasks_def
    ReportConnectStatus_def getChannelListener_def notify_def spec_of_emit
    split: option.split intro!: spec_eqI)

lemma spec_fits_budget: "spec_fits api a (spec_of s) \<Longrightarrow> within_budget a s"
  by (cases a) (simp_all add: room_for_def)

lemma call_keeps:
  assumes "proxy_inv s" and "spec_fits api a (spec_of s)"
    and "call_action api task0 android a s = Inr (r, s')"
  shows "proxy_inv s'"
  using do_action_inv [OF assms(1) spec_fits_budget [OF assms(2)], of api task0 android s'] assms(3)
  by (simp add: do_action_call)

text \<open>An \<open>AutoBuffer\<close> that keeps its laws is one of the assumptions; the invariant carries it.\<close>

interpretation wrapper: simulation "\<lambda>s. autobuffer_ok api \<and> proxy_inv s" spec_of "spec_fits api"
    "call_action api task0 android" "spec_action api task0 android" for api task0 android
  by unfold_locales (auto intro: call_square call_keeps)

text \<open>The one fault of the specification, and runs that avoid it.\<close>

fun whole_packet :: "'b autobuffer_api \<Rightarrow> 'b action \<Rightarrow> bool" where
  "whole_packet api (Response i b) = (packet_body (ab_content api b) \<noteq> None)"
| "whole_packet api a = True"

lemma spec_total: "whole_packet api a \<Longrightarrow> \<exists>r w'. spec_action api task0 android a w = Inr (r, w')"
  by (cases a) (auto split: option.split)

lemma call_total:
  assumes "autobuffer_ok api" and "proxy_inv s" and "spec_fits api a (spec_of s)" and "whole_packet api a"
  shows "\<exists>r s'. call_action api task0 android a s = Inr (r, s')"
proof (cases "call_action api task0 android a s")
  case (Inl e)
  with call_square [OF assms(1-3), of task0 android] spec_total [OF assms(4), of task0 android "spec_of s"]
  show ?thesis by auto
qed auto

lemma runs_total:
  assumes "autobuffer_ok api"
  shows "reachable api task0 android s \<Longrightarrow>
    all_fit (spec_fits api) (spec_action api task0 android) as (spec_of s) \<Longrightarrow>
    \<forall>a \<in> set as. whole_packet api a \<Longrightarrow>
    \<exists>rs s'. run_calls (call_action api task0 android) as s = Inr (rs, s') \<and>
      length rs = length as \<and> reachable api task0 android s'"
proof (induction as arbitrary: s)
  case (Cons a as)
  have inv: "proxy_inv s"
    by (rule reachable_inv [OF Cons.prems(1)])
  have fit: "spec_fits api a (spec_of s)" and whole: "whole_packet api a"
    using Cons.prems(2,3) by simp_all
  from call_total [OF assms inv fit whole] obtain r t where c: "call_action api task0 android a s = Inr (r, t)"
    by blast
  then have "do_action api task0 android a s = Inr t"
    by (simp add: do_action_call)
  from reachable.step [OF Cons.prems(1) spec_fits_budget [OF fit] this]
  have "reachable api task0 android t" .
  moreover have "all_fit (spec_fits api) (spec_action api task0 android) as (spec_of t)"
    using Cons.prems(2) wrapper.spec_call [OF conjI [OF assms inv] fit c] by simp
  ultimately show ?case
    using Cons.IH Cons.prems(3) c by fastforce
qed simp

section \<open>Properties\<close>

text \<open>The wrapper refines its specification over whole runs: whatever the user and Mars do, in
  whatever order, the entry points return the values the specification returns, call Mars and the
  listeners as the specification does, and end in a state that shows the specification's pending
  messages, next id and listeners; they fault exactly where the specification does, which is on a
  response that is shorter than its own length field says.\<close>

theorem wrapper_refines_spec:
  assumes "autobuffer_ok api" and "all_fit (spec_fits api) (spec_action api task0 android) as spec_initial"
  shows "lift_result spec_of (run_calls (call_action api task0 android) as initial_state) =
    run_calls (spec_action api task0 android) as spec_initial"
  using wrapper.runs_agree [of api initial_state task0 android as] assms
  by (simp add: spec_of_initial proxy_inv_initial)

theorem wrapper_refines_spec_witness:
  "lift_result spec_of (run_calls (call_action list_buffer undefined False)
      [Send [1, 2] (Some 7), Request 10000 ([], 0), Response 10000 ([1, 2, 3], 0)] initial_state) =
    run_calls (spec_action list_buffer undefined False)
      [Send [1, 2] (Some 7), Request 10000 ([], 0), Response 10000 ([1, 2, 3], 0)] spec_initial \<and>
   run_calls (spec_action list_buffer undefined False)
      [Send [1, 2] (Some 7), Request 10000 ([], 0), Response 10000 ([1, 2, 3], 0)] spec_initial =
    Inl OutOfBounds"
proof
  show "lift_result spec_of (run_calls (call_action list_buffer undefined False)
      [Send [1, 2] (Some 7), Request 10000 ([], 0), Response 10000 ([1, 2, 3], 0)] initial_state) =
    run_calls (spec_action list_buffer undefined False)
      [Send [1, 2] (Some 7), Request 10000 ([], 0), Response 10000 ([1, 2, 3], 0)] spec_initial"
    by (rule wrapper_refines_spec [OF list_buffer_ok])
      (simp add: spec_initial_def messageId_init_def kSignallingKeeperTaskID_def body_fits_def calls_def
        packet_body_def list_buffer_def ab_content_def)
  show "run_calls (spec_action list_buffer undefined False)
      [Send [1, 2] (Some 7), Request 10000 ([], 0), Response 10000 ([1, 2, 3], 0)] spec_initial =
    Inl OutOfBounds"
    by (simp add: spec_initial_def messageId_init_def calls_def packet_body_def list_buffer_def ab_content_def)
qed

text \<open>C3: nothing but a short packet stops the wrapper: a run within the bounds, in which every packet
  handed to \<open>Buf2Resp\<close> is as long as its length field says, returns from every entry point,
  without a fault and without blocking on its mutex, and ends in a reachable state.\<close>

theorem wrapper_never_stuck:
  assumes "autobuffer_ok api" and "all_fit (spec_fits api) (spec_action api task0 android) as spec_initial"
    and "\<forall>a \<in> set as. whole_packet api a"
  shows "\<exists>rs s. run_calls (call_action api task0 android) as initial_state = Inr (rs, s) \<and>
    length rs = length as \<and> reachable api task0 android s"
  using runs_total [OF assms(1) reachable.start _ assms(3)] assms(2) by (simp add: spec_of_initial)

theorem wrapper_never_stuck_witness:
  "\<exists>rs s. run_calls (call_action list_buffer undefined True)
      [Send [1, 2] (Some 7), Response 10000 (replicate 12 0, 0), TaskEnd 10000 kEctOK 0, TaskEnd 10000 kEctOK 0]
      initial_state = Inr (rs, s) \<and> length rs = 4 \<and> reachable list_buffer undefined True s"
proof -
  let ?as = "[Send [1, 2] (Some 7), Response 10000 (replicate 12 0, 0), TaskEnd 10000 kEctOK 0, TaskEnd 10000 kEctOK 0]"
  have packet: "packet_body (replicate 12 0) = Some []"
    by (simp add: packet_body_def eval_nat_numeral le32_dec_def)
  then have whole: "\<forall>a \<in> set ?as. whole_packet list_buffer a"
    by (simp add: ab_content_def)
  have fit: "all_fit (spec_fits list_buffer) (spec_action list_buffer undefined True) ?as spec_initial"
    using packet
    by (simp add: spec_initial_def messageId_init_def kSignallingKeeperTaskID_def body_fits_def calls_def
        ab_content_def)
  have len: "length ?as = 4" by simp
  from wrapper_never_stuck [OF list_buffer_ok fit whole] show ?thesis
    unfolding len .
qed

end
