(* ===== verification/CLib.thy ===== *)
theory CLib imports Prelude "HOL-Library.Char_ord" begin

text \<open>
  The functions of the C standard library that several components call on strings: decimal output,
  as \<open>printf("%u")\<close> and \<open>"%d"\<close> write it, \<open>atoi\<close>, \<open>strtoimax\<close>, \<open>strtoumax\<close> and the view of bytes as a C string. A string is a
  list of characters without the terminator.
\<close>

definition digit :: "nat \<Rightarrow> char" where
  "digit d = char_of (48 + d)"

fun show_nat :: "nat \<Rightarrow> string" where
  "show_nat n = (if n < 10 then [digit n] else show_nat (n div 10) @ [digit (n mod 10)])"

declare show_nat.simps [simp del]

definition show_int :: "int \<Rightarrow> string" where
  "show_int i = (if i < 0 then CHR ''-'' # show_nat (nat (- i)) else show_nat (nat i))"

definition is_digit :: "char \<Rightarrow> bool" where
  "is_digit c \<longleftrightarrow> 48 \<le> (of_char c :: nat) \<and> (of_char c :: nat) \<le> 57"

definition is_space :: "char \<Rightarrow> bool" where
  "is_space c \<longleftrightarrow> (of_char c :: nat) = 32 \<or> 9 \<le> (of_char c :: nat) \<and> (of_char c :: nat) \<le> 13"

definition read_digits :: "string \<Rightarrow> nat" where
  "read_digits cs = fold (\<lambda>c n. 10 * n + (of_char c - 48)) (takeWhile is_digit cs) 0"

text \<open>A value outside \<open>int\<close>, which \<open>atoi\<close> leaves undefined, is the number itself.\<close>

definition atoi :: "string \<Rightarrow> int" where
  "atoi cs =
     (case dropWhile is_space cs of
        [] \<Rightarrow> 0
      | c # ds \<Rightarrow>
          if c = CHR ''-'' then - int (read_digits ds)
          else if c = CHR ''+'' then int (read_digits ds)
          else int (read_digits (c # ds)))"

text \<open>
  \<open>strtoimax\<close> and \<open>strtoumax\<close> with base 0 (C11, 7.8.2.3 and 7.22.1.4): blanks, a sign, then a decimal,
  octal or hexadecimal constant; the rest is ignored. The result is the value and the number of
  characters used, 0 when there is no constant. A value out of range becomes the largest or least
  one of the 64 bits, and \<open>strtoumax\<close> negates in its unsigned type.
\<close>

definition digit_val :: "char \<Rightarrow> nat option" where
  "digit_val c =
     (let n = of_char c :: nat
      in if 48 \<le> n \<and> n \<le> 57 then Some (n - 48)
         else if 97 \<le> n \<and> n \<le> 122 then Some (n - 87)
         else if 65 \<le> n \<and> n \<le> 90 then Some (n - 55)
         else None)"

definition digit_in :: "nat \<Rightarrow> char \<Rightarrow> bool" where
  "digit_in b c = (case digit_val c of None \<Rightarrow> False | Some d \<Rightarrow> d < b)"

definition text_value :: "nat \<Rightarrow> string \<Rightarrow> nat" where
  "text_value b cs = fold (\<lambda>c n. b * n + the (digit_val c)) cs 0"

fun hex_prefix :: "string \<Rightarrow> bool" where
  "hex_prefix (z # x # c # cs) \<longleftrightarrow> z = CHR ''0'' \<and> (x = CHR ''x'' \<or> x = CHR ''X'') \<and> digit_in 16 c"
| "hex_prefix cs \<longleftrightarrow> False"

text \<open>The base of a constant and the length of the prefix that says so.\<close>

definition strto_base :: "string \<Rightarrow> nat \<times> nat" where
  "strto_base cs =
     (if hex_prefix cs then (16, 2)
      else if cs \<noteq> [] \<and> hd cs = CHR ''0'' then (8, 0)
      else (10, 0))"

definition strto_sign :: "string \<Rightarrow> bool \<times> nat" where
  "strto_sign cs =
     (case cs of [] \<Rightarrow> (False, 0) | c # ds \<Rightarrow> (c = CHR ''-'', if c = CHR ''-'' \<or> c = CHR ''+'' then 1 else 0))"

definition strto_scan :: "string \<Rightarrow> bool \<times> nat \<times> nat" where
  "strto_scan s =
     (let cs = dropWhile is_space s;
          (neg, sg) = strto_sign cs;
          cs = drop sg cs;
          (b, p) = strto_base cs;
          ds = takeWhile (digit_in b) (drop p cs)
      in (neg, text_value b ds,
          if ds = [] then 0 else length (takeWhile is_space s) + sg + p + length ds))"

definition strtoimax :: "string \<Rightarrow> int \<times> nat" where
  "strtoimax s =
     (let (neg, n, used) = strto_scan s
      in (if neg then max (- (2 ^ 63)) (- int n) else min (2 ^ 63 - 1) (int n), used))"

definition strtoumax :: "string \<Rightarrow> int \<times> nat" where
  "strtoumax s =
     (let (neg, n, used) = strto_scan s
      in (if 2 ^ 64 \<le> n then 2 ^ 64 - 1 else if neg then (- int n) mod 2 ^ 64 else int n, used))"

text \<open>The bytes of a \<open>std::string\<close> as a C string: it ends at the first zero byte.\<close>

definition c_str :: "byte list \<Rightarrow> string" where
  "c_str bs = map (\<lambda>b. char_of (unat b)) (takeWhile (\<lambda>b. b \<noteq> 0) bs)"

lemma of_char_digit: "d < 10 \<Longrightarrow> of_char (digit d) = (48 + d :: nat)"
  by (simp add: digit_def)

lemma is_digit_digit [simp]: "d < 10 \<Longrightarrow> is_digit (digit d)"
  by (simp add: is_digit_def of_char_digit)

lemma show_nat_digits: "\<forall>c \<in> set (show_nat n). is_digit c"
proof (induction n rule: show_nat.induct)
  case (1 n)
  then show ?case by (subst show_nat.simps) auto
qed

lemma show_nat_nonempty: "show_nat n \<noteq> []"
  by (subst show_nat.simps) simp

lemma takeWhile_show_nat: "takeWhile is_digit (show_nat n) = show_nat n"
  using show_nat_digits by (simp add: takeWhile_eq_all_conv)

lemma read_show_nat: "read_digits (show_nat n) = n"
proof -
  have "fold (\<lambda>c n. 10 * n + (of_char c - 48)) (show_nat n) 0 = n" for n :: nat
  proof (induction n rule: show_nat.induct)
    case (1 n)
    show ?case
    proof (cases "n < 10")
      case True
      then show ?thesis by (subst show_nat.simps) (simp add: of_char_digit)
    next
      case False
      with 1 have "fold (\<lambda>c n. 10 * n + (of_char c - 48)) (show_nat (n div 10)) 0 = n div 10"
        by simp
      with False show ?thesis
        by (subst show_nat.simps) (simp add: of_char_digit)
    qed
  qed
  then show ?thesis by (simp add: read_digits_def takeWhile_show_nat)
qed

lemma digit_not_space: "is_digit c \<Longrightarrow> \<not> is_space c \<and> c \<noteq> CHR ''-'' \<and> c \<noteq> CHR ''+''"
  by (auto simp: is_digit_def is_space_def)

lemma atoi_show_int: "atoi (show_int i) = i"
proof (cases "i < 0")
  case True
  have "\<not> is_space CHR ''-''"
    by (simp add: is_space_def)
  with True show ?thesis
    by (simp add: atoi_def show_int_def read_show_nat)
next
  case False
  obtain c cs where s: "show_nat (nat i) = c # cs"
    using show_nat_nonempty by (cases "show_nat (nat i)") auto
  then have "is_digit c"
    using show_nat_digits [of "nat i"] by simp
  with digit_not_space [OF this] False s read_show_nat [of "nat i"] show ?thesis
    by (simp add: atoi_def show_int_def)
qed

text \<open>The number of decimal digits of a bounded number.\<close>

lemma show_nat_length: "n < 10 ^ Suc k \<Longrightarrow> length (show_nat n) \<le> Suc k"
proof (induction k arbitrary: n)
  case 0
  then show ?case by (subst show_nat.simps) simp
next
  case (Suc k)
  show ?case
  proof (cases "n < 10")
    case False
    have "n div 10 < 10 ^ Suc k"
      using Suc.prems by (simp add: less_mult_imp_div_less mult.commute)
    with Suc.IH False show ?thesis by (subst show_nat.simps) simp
  qed (subst show_nat.simps, simp)
qed

end
