(* ===== verification/NetTypes.thy ===== *)
theory NetTypes imports CLib "HOL-Library.List_Lexorder" begin

text \<open>
  The small data types of the Mars headers: \<open>comm/comm_data.h\<close> (proxies), \<open>sdt/sdt.h\<close> (network checks)
  and the enumerations of \<open>stn/stn.h\<close>. An enumeration is a datatype with a function that gives its
  codes; enumerators that share a code in one enumeration are one constructor and an abbreviation.
  \<open>std::string\<close> compares lexicographically.
\<close>

section \<open>comm_data.h\<close>

datatype ProxyType = kProxyNone | kProxyHttpTunel | kProxySocks5 | kProxyHttp

record proxy_info =
  pi_type :: ProxyType
  pi_host :: string
  pi_ip :: string
  pi_port :: u16
  pi_username :: string
  pi_password :: string

definition ProxyInfo_new :: "ProxyType \<Rightarrow> string \<Rightarrow> string \<Rightarrow> u16 \<Rightarrow> string \<Rightarrow> string \<Rightarrow> proxy_info" where
  "ProxyInfo_new type host ip port username password =
     \<lparr>pi_type = type, pi_host = host, pi_ip = ip, pi_port = port, pi_username = username,
      pi_password = password\<rparr>"

definition ProxyInfo_default :: proxy_info where
  "ProxyInfo_default = ProxyInfo_new kProxyNone [] [] 0 [] []"

definition ProxyInfo_IsValid :: "proxy_info \<Rightarrow> bool" where
  "ProxyInfo_IsValid p \<longleftrightarrow>
     kProxyNone = pi_type p \<or> ((pi_ip p \<noteq> [] \<or> pi_host p \<noteq> []) \<and> pi_port p > 0)"

section \<open>sdt.h\<close>

record check_ip_port =
  cip_ip :: string
  cip_port :: u16

text \<open>The default constructor starts from members that hold anything.\<close>

definition CheckIPPort_Reset :: "check_ip_port \<Rightarrow> check_ip_port" where
  "CheckIPPort_Reset c = c\<lparr>cip_ip := [], cip_port := 0\<rparr>"

definition CheckIPPort_default :: "check_ip_port \<Rightarrow> check_ip_port" where
  "CheckIPPort_default fresh = CheckIPPort_Reset fresh"

definition CheckIPPort_new :: "string \<Rightarrow> u16 \<Rightarrow> check_ip_port" where
  "CheckIPPort_new ip port = \<lparr>cip_ip = ip, cip_port = port\<rparr>"

definition CheckIPPort_less :: "check_ip_port \<Rightarrow> check_ip_port \<Rightarrow> bool" where
  "CheckIPPort_less a b \<longleftrightarrow> cip_ip a < cip_ip b"

definition CheckIPPort_assign :: "check_ip_port \<Rightarrow> check_ip_port \<Rightarrow> check_ip_port" where
  "CheckIPPort_assign c rhs = c\<lparr>cip_ip := cip_ip rhs, cip_port := cip_port rhs\<rparr>"

datatype NetCheckStatus = kNone | kChecking | kCheckEnd

datatype NetCheckType =
    kPingCheck
  | kDnsCheck
  | kNewDnsCheck
  | kTcpCheck
  | kHttpCheck
  | kTracerouteCheck
  | kReqBufCheck

datatype CheckErrCode = kCheckOK | kDns | kSocket | kIsRunning

datatype TcpErrCode =
    kTcpSucc
  | kTcpNonErr
  | kSelectErr
  | kPipeIntr
  | kSndRcvErr
  | kAssertErr
  | kTimeoutErr
  | kSelectExpErr
  | kPipeExp
  | kConnectErr
  | kTcpRespErr

fun tcp_err_code :: "TcpErrCode \<Rightarrow> int" where
  "tcp_err_code kTcpSucc = 0"
| "tcp_err_code kTcpNonErr = 1"
| "tcp_err_code kSelectErr = -1"
| "tcp_err_code kPipeIntr = -2"
| "tcp_err_code kSndRcvErr = -3"
| "tcp_err_code kAssertErr = -4"
| "tcp_err_code kTimeoutErr = -5"
| "tcp_err_code kSelectExpErr = -6"
| "tcp_err_code kPipeExp = -7"
| "tcp_err_code kConnectErr = -8"
| "tcp_err_code kTcpRespErr = -9"

datatype CheckStatus = kCheckContinue | kCheckFinish

section \<open>stn.h\<close>

datatype TaskFailHandleType =
    kTaskFailHandleNormal
  | kTaskFailHandleDefault
  | kTaskFailHandleRetryAllTasks
  | kTaskFailHandleSessionTimeout
  | kTaskFailHandleTaskEnd
  | kTaskFailHandleTaskTimeout

abbreviation kTaskFailHandleNoError :: TaskFailHandleType where
  "kTaskFailHandleNoError \<equiv> kTaskFailHandleNormal"

fun fail_handle_code :: "TaskFailHandleType \<Rightarrow> int" where
  "fail_handle_code kTaskFailHandleNormal = 0"
| "fail_handle_code kTaskFailHandleDefault = -1"
| "fail_handle_code kTaskFailHandleRetryAllTasks = -12"
| "fail_handle_code kTaskFailHandleSessionTimeout = -13"
| "fail_handle_code kTaskFailHandleTaskEnd = -14"
| "fail_handle_code kTaskFailHandleTaskTimeout = -15"

text \<open>The kinds of errors \<open>OnTaskEnd\<close> is told; its test for \<open>kEctOK\<close> uses the number of \<open>AppState\<close>.\<close>

datatype ErrCmdType =
    kEctOK'
  | kEctFalse
  | kEctDial
  | kEctDns
  | kEctSocket
  | kEctHttp
  | kEctNetMsgXP
  | kEctEnDecode
  | kEctServer
  | kEctLocal
  | kEctCanceld

fun err_cmd_code :: "ErrCmdType \<Rightarrow> int" where
  "err_cmd_code kEctOK' = 0"
| "err_cmd_code kEctFalse = 1"
| "err_cmd_code kEctDial = 2"
| "err_cmd_code kEctDns = 3"
| "err_cmd_code kEctSocket = 4"
| "err_cmd_code kEctHttp = 5"
| "err_cmd_code kEctNetMsgXP = 6"
| "err_cmd_code kEctEnDecode = 7"
| "err_cmd_code kEctServer = 8"
| "err_cmd_code kEctLocal = 9"
| "err_cmd_code kEctCanceld = 10"

datatype LocalError =
    kEctLocalTaskTimeout
  | kEctLocalTaskRetry
  | kEctLocalStartTaskFail
  | kEctLocalAntiAvalanche
  | kEctLocalChannelSelect
  | kEctLocalNoNet
  | kEctLocalCancel
  | kEctLocalClear
  | kEctLocalReset
  | kEctLocalTaskParam
  | kEctLocalCgiFrequcencyLimit
  | kEctLocalChannelID

fun local_code :: "LocalError \<Rightarrow> int" where
  "local_code kEctLocalTaskTimeout = -1"
| "local_code kEctLocalTaskRetry = -2"
| "local_code kEctLocalStartTaskFail = -3"
| "local_code kEctLocalAntiAvalanche = -4"
| "local_code kEctLocalChannelSelect = -5"
| "local_code kEctLocalNoNet = -6"
| "local_code kEctLocalCancel = -7"
| "local_code kEctLocalClear = -8"
| "local_code kEctLocalReset = -9"
| "local_code kEctLocalTaskParam = -12"
| "local_code kEctLocalCgiFrequcencyLimit = -13"
| "local_code kEctLocalChannelID = -14"

datatype LongError =
    kEctLongFirstPkgTimeout
  | kEctLongPkgPkgTimeout
  | kEctLongReadWriteTimeout
  | kEctLongTaskTimeout

fun long_code :: "LongError \<Rightarrow> int" where
  "long_code kEctLongFirstPkgTimeout = -500"
| "long_code kEctLongPkgPkgTimeout = -501"
| "long_code kEctLongReadWriteTimeout = -502"
| "long_code kEctLongTaskTimeout = -503"

datatype HttpError =
    kEctHttpFirstPkgTimeout
  | kEctHttpPkgPkgTimeout
  | kEctHttpReadWriteTimeout
  | kEctHttpTaskTimeout

fun http_code :: "HttpError \<Rightarrow> int" where
  "http_code kEctHttpFirstPkgTimeout = -500"
| "http_code kEctHttpPkgPkgTimeout = -501"
| "http_code kEctHttpReadWriteTimeout = -502"
| "http_code kEctHttpTaskTimeout = -503"

datatype SocketError =
    kEctSocketNetworkChange
  | kEctSocketMakeSocketPrepared
  | kEctSocketWritenWithNonBlock
  | kEctSocketReadOnce
  | kEctSocketShutdown
  | kEctSocketRecvErr
  | kEctSocketSendErr
  | kEctSocketNoopTimeout
  | kEctSocketNoopAlarmTooLate
  | kEctHttpSplitHttpHeadAndBody
  | kEctHttpParseStatusLine
  | kEctNetMsgXPHandleBufferErr
  | kEctDnsMakeSocketPrepared

fun socket_code :: "SocketError \<Rightarrow> int" where
  "socket_code kEctSocketNetworkChange = -10086"
| "socket_code kEctSocketMakeSocketPrepared = -10087"
| "socket_code kEctSocketWritenWithNonBlock = -10088"
| "socket_code kEctSocketReadOnce = -10089"
| "socket_code kEctSocketShutdown = -10090"
| "socket_code kEctSocketRecvErr = -10091"
| "socket_code kEctSocketSendErr = -10092"
| "socket_code kEctSocketNoopTimeout = -10093"
| "socket_code kEctSocketNoopAlarmTooLate = -10094"
| "socket_code kEctHttpSplitHttpHeadAndBody = -10194"
| "socket_code kEctHttpParseStatusLine = -10195"
| "socket_code kEctNetMsgXPHandleBufferErr = -10504"
| "socket_code kEctDnsMakeSocketPrepared = -10606"

datatype NetStatus =
    kNetworkUnkown
  | kNetworkUnavailable
  | kGateWayFailed
  | kServerFailed
  | kConnecting
  | kConnected
  | kServerDown

fun net_status_code :: "NetStatus \<Rightarrow> int" where
  "net_status_code kNetworkUnkown = -1"
| "net_status_code kNetworkUnavailable = 0"
| "net_status_code kGateWayFailed = 1"
| "net_status_code kServerFailed = 2"
| "net_status_code kConnecting = 3"
| "net_status_code kConnected = 4"
| "net_status_code kServerDown = 5"

datatype IdentifyMode = kCheckNow | kCheckNext | kCheckNever

fun identify_mode_code :: "IdentifyMode \<Rightarrow> int" where
  "identify_mode_code kCheckNow = 0"
| "identify_mode_code kCheckNext = 1"
| "identify_mode_code kCheckNever = 2"

datatype IPSourceType =
    kIPSourceNULL
  | kIPSourceDebug
  | kIPSourceDNS
  | kIPSourceNewDns
  | kIPSourceProxy
  | kIPSourceBackup

fun ip_source_code :: "IPSourceType \<Rightarrow> nat" where
  "ip_source_code kIPSourceNULL = 0"
| "ip_source_code kIPSourceDebug = 1"
| "ip_source_code kIPSourceDNS = 2"
| "ip_source_code kIPSourceNewDns = 3"
| "ip_source_code kIPSourceProxy = 4"
| "ip_source_code kIPSourceBackup = 5"

definition IPSourceTypeString :: "string list" where
  "IPSourceTypeString = [''NullIP'', ''DebugIP'', ''DNSIP'', ''NewDNSIP'', ''ProxyIP'', ''BackupIP'']"

record ip_port_item =
  ipi_str_ip :: string
  ipi_port :: u16
  ipi_source_type :: IPSourceType
  ipi_str_host :: string

section \<open>Lemmas\<close>

lemma ip_source_code_inj: "ip_source_code a = ip_source_code b \<Longrightarrow> a = b"
  by (cases a; cases b) simp_all

lemma long_code_range: "- 600 \<le> long_code a \<and> long_code a \<le> - 500"
  by (cases a) simp_all

lemma http_code_range: "- 600 \<le> http_code a \<and> http_code a \<le> - 500"
  by (cases a) simp_all

lemma socket_code_range: "- 20000 \<le> socket_code a \<and> socket_code a \<le> - 10000"
  by (cases a) simp_all

lemma local_code_range: "- 14 \<le> local_code a \<and> local_code a \<le> - 1"
  by (cases a) simp_all

lemma err_cmd_code_inj: "err_cmd_code a = err_cmd_code b \<Longrightarrow> a = b"
  by (cases a; simp; cases b; simp)

lemma long_code_inj: "long_code a = long_code b \<Longrightarrow> a = b"
  by (cases a; cases b) simp_all

lemma http_code_inj: "http_code a = http_code b \<Longrightarrow> a = b"
  by (cases a; cases b) simp_all

lemma socket_code_inj: "socket_code a = socket_code b \<Longrightarrow> a = b"
  by (cases a; simp; cases b; simp)

lemma local_code_inj: "local_code a = local_code b \<Longrightarrow> a = b"
  by (cases a; simp; cases b; simp)

text \<open>The source types in the order of their codes.\<close>

instantiation IPSourceType :: linorder
begin

definition less_eq_IPSourceType :: "IPSourceType \<Rightarrow> IPSourceType \<Rightarrow> bool" where
  "less_eq_IPSourceType a b \<longleftrightarrow> ip_source_code a \<le> ip_source_code b"

definition less_IPSourceType :: "IPSourceType \<Rightarrow> IPSourceType \<Rightarrow> bool" where
  "less_IPSourceType a b \<longleftrightarrow> ip_source_code a < ip_source_code b"

instance
  by standard (auto simp: less_eq_IPSourceType_def less_IPSourceType_def dest: ip_source_code_inj)

end

text \<open>Insertion into an ordered container that keeps one of several equivalent elements.\<close>

primrec insert_by :: "('a \<Rightarrow> 'a \<Rightarrow> bool) \<Rightarrow> 'a \<Rightarrow> 'a list \<Rightarrow> 'a list" where
  "insert_by lt a [] = [a]"
| "insert_by lt a (b # bs) =
     (if lt a b then a # b # bs else if lt b a then b # insert_by lt a bs else b # bs)"

text \<open>
  The contract the standard library asks of a comparison: a strict weak order. What such an order
  cannot separate, a sorted container keeps once.
\<close>

locale strict_weak_order =
  fixes lt :: "'a \<Rightarrow> 'a \<Rightarrow> bool"
  assumes irreflexive: "\<not> lt a a"
    and transitive: "lt a b \<Longrightarrow> lt b c \<Longrightarrow> lt a c"
    and incomparable_trans: "\<not> lt a b \<Longrightarrow> \<not> lt b a \<Longrightarrow> \<not> lt b c \<Longrightarrow> \<not> lt c b \<Longrightarrow>
      \<not> lt a c \<and> \<not> lt c a"
begin

definition same :: "'a \<Rightarrow> 'a \<Rightarrow> bool" where
  "same a b \<longleftrightarrow> \<not> lt a b \<and> \<not> lt b a"

lemma same_trans: "same a b \<Longrightarrow> same b c \<Longrightarrow> same a c"
  unfolding same_def using incomparable_trans by blast

lemma insert_same:
  "same a b \<Longrightarrow> insert_by lt b (insert_by lt a xs) = insert_by lt a xs"
proof (induction xs)
  case Nil
  then show ?case by (simp add: same_def)
next
  case (Cons x xs)
  from Cons.prems have "lt b x \<longleftrightarrow> lt a x" "lt x b \<longleftrightarrow> lt x a"
    unfolding same_def using transitive incomparable_trans irreflexive by metis+
  with Cons show ?case by (auto simp: same_def)
qed

end

interpretation ip_order: strict_weak_order CheckIPPort_less
  by unfold_locales (auto simp: CheckIPPort_less_def)

section \<open>Properties\<close>

text \<open>The comparison of \<open>CheckIPPort\<close> is a strict weak order, but it looks at the address only:
  two checks of one address on different ports are equivalent, so that an ordered set keeps only
  the first of them. Sorting by it never confuses different addresses.\<close>

theorem CheckIPPort_order_ignores_port:
  "(\<not> CheckIPPort_less a b \<and> \<not> CheckIPPort_less b a) = (cip_ip a = cip_ip b) \<and>
   insert_by CheckIPPort_less (CheckIPPort_new ip q) (insert_by CheckIPPort_less (CheckIPPort_new ip p) xs) =
     insert_by CheckIPPort_less (CheckIPPort_new ip p) xs"
  using ip_order.insert_same [of "CheckIPPort_new ip p" "CheckIPPort_new ip q" xs]
  by (auto simp: CheckIPPort_less_def ip_order.same_def CheckIPPort_new_def)

text \<open>The error codes lie in the ranges the comments give, -600 to -500 for the long link and HTTP,
  -20000 to -10000 for sockets, and the codes of a group are distinct; the timeouts of the long
  link and of HTTP share their codes, so that the code alone does not tell them apart.\<close>

theorem error_code_ranges:
  "- 600 \<le> long_code a \<and> long_code a \<le> - 500 \<and> - 600 \<le> http_code b \<and> http_code b \<le> - 500 \<and>
   - 20000 \<le> socket_code c \<and> socket_code c \<le> - 10000 \<and> - 14 \<le> local_code d \<and> local_code d \<le> - 1 \<and>
   (long_code a = long_code a') = (a = a') \<and> (http_code b = http_code b') = (b = b') \<and>
   (socket_code c = socket_code c') = (c = c') \<and> (local_code d = local_code d') = (d = d') \<and>
   http_code kEctHttpTaskTimeout = long_code kEctLongTaskTimeout"
  using long_code_range [of a] http_code_range [of b] socket_code_range [of c] local_code_range [of d]
    long_code_inj http_code_inj socket_code_inj local_code_inj by auto

end
