(* ===== verification/MarsInterface.thy ===== *)
theory MarsInterface imports WrapperSpec NetTypes begin

text \<open>
  The interfaces through which Mars calls the program, \<open>mars/stn/stn_logic.h\<close> and
  \<open>mars/app/app_logic.h\<close>: a class with virtual functions is a record of functions on the state, with
  the parameters the class has; a parameter passed by reference is given and returned. \<open>StnCallBack\<close>
  and \<open>AppCallBack\<close> are records of these types, their members the handlers of \<open>stn_callback.cpp\<close> and
  \<open>app_callback.cpp\<close>.
\<close>

section \<open>The classes\<close>

text \<open>\<open>mars::stn::Callback\<close>.\<close>

record ('b, 's) stn_class =
  vt_MakesureAuthed :: "'s \<Rightarrow> (bool \<times> 's) result"
  vt_TrafficData :: "int \<Rightarrow> int \<Rightarrow> 's \<Rightarrow> 's result"
  vt_OnNewDns :: "string \<Rightarrow> 's \<Rightarrow> (string list \<times> 's) result"
  vt_OnPush :: "64 word \<Rightarrow> u32 \<Rightarrow> u32 \<Rightarrow> 'b \<Rightarrow> 'b \<Rightarrow> 's \<Rightarrow> 's result"
  vt_Req2Buf :: "u32 \<Rightarrow> ptr \<Rightarrow> 'b \<Rightarrow> 'b \<Rightarrow> int \<Rightarrow> int \<Rightarrow> 's \<Rightarrow> ((bool \<times> 'b \<times> 'b \<times> int) \<times> 's) result"
  vt_Buf2Resp :: "u32 \<Rightarrow> ptr \<Rightarrow> 'b \<Rightarrow> 'b \<Rightarrow> int \<Rightarrow> int \<Rightarrow> 's \<Rightarrow> ((int \<times> int) \<times> 's) result"
  vt_OnTaskEnd :: "u32 \<Rightarrow> ptr \<Rightarrow> int \<Rightarrow> int \<Rightarrow> 's \<Rightarrow> (int \<times> 's) result"
  vt_ReportConnectStatus :: "int \<Rightarrow> int \<Rightarrow> 's \<Rightarrow> 's result"
  vt_GetLonglinkIdentifyCheckBuffer :: "'b \<Rightarrow> 'b \<Rightarrow> int \<Rightarrow> 's \<Rightarrow> ((int \<times> 'b \<times> 'b \<times> int) \<times> 's) result"
  vt_OnLonglinkIdentifyResponse :: "'b \<Rightarrow> 'b \<Rightarrow> 's \<Rightarrow> (bool \<times> 's) result"
  vt_RequestSync :: "'s \<Rightarrow> 's result"

definition StnCallBack_class :: "'b autobuffer_api \<Rightarrow> ('b, app_state) stn_class" where
  "StnCallBack_class api =
     \<lparr>vt_MakesureAuthed = (\<lambda>s. Inr (MakesureAuthed, s)),
      vt_TrafficData = (\<lambda>send recv s. Inr (TrafficData send recv s)),
      vt_OnNewDns = (\<lambda>host s. Inr (OnNewDns host, s)),
      vt_OnPush = (\<lambda>channel_id cmdid taskid body extend s. OnPush api cmdid taskid body s),
      vt_Req2Buf = (\<lambda>taskid user_context outbuffer extend error_code channel_select s.
        bnd (Req2Buf api taskid outbuffer s) (\<lambda>(ok, out). Inr ((ok, out, extend, error_code), s))),
      vt_Buf2Resp = (\<lambda>taskid user_context inbuffer extend error_code channel_select s.
        bnd (Buf2Resp api taskid inbuffer s) (\<lambda>(r, s). Inr ((r, error_code), s))),
      vt_OnTaskEnd = (\<lambda>taskid user_context error_type error_code s. OnTaskEnd taskid error_type error_code s),
      vt_ReportConnectStatus = (\<lambda>status longlink_status s. Inr (ReportConnectStatus status longlink_status s)),
      vt_GetLonglinkIdentifyCheckBuffer = (\<lambda>identify_buffer buffer_hash cmdid s.
        let (mode, cmdid) = GetLonglinkIdentifyCheckBuffer
        in Inr ((mode, identify_buffer, buffer_hash, cmdid), s)),
      vt_OnLonglinkIdentifyResponse = (\<lambda>response_buffer hash s. Inr (OnLonglinkIdentifyResponse, s)),
      vt_RequestSync = (\<lambda>s. Inr (RequestSync s))\<rparr>"

text \<open>\<open>mars::app::Callback\<close>: \<open>GetProxyInfo\<close> has a default, which \<open>AppCallBack\<close> inherits.\<close>

record app_class =
  vt_GetProxyInfo :: "string \<Rightarrow> proxy_info \<Rightarrow> bool \<times> proxy_info"
  vt_GetAppFilePath :: string
  vt_GetAccountInfo :: account_info
  vt_GetClientVersion :: u32
  vt_GetDeviceInfo :: device_info

definition GetProxyInfo_default :: "string \<Rightarrow> proxy_info \<Rightarrow> bool \<times> proxy_info" where
  "GetProxyInfo_default host p = (False, p)"

definition AppCallBack_class :: app_class where
  "AppCallBack_class =
     \<lparr>vt_GetProxyInfo = GetProxyInfo_default, vt_GetAppFilePath = GetAppFilePath,
      vt_GetAccountInfo = GetAccountInfo, vt_GetClientVersion = GetClientVersion,
      vt_GetDeviceInfo = GetDeviceInfo\<rparr>"

section \<open>Calls of Mars\<close>

text \<open>A virtual call with all its arguments, and what it gives back, reference parameters included.\<close>

datatype 'b upcall =
    U_MakesureAuthed
  | U_TrafficData int int
  | U_OnNewDns string
  | U_OnPush "64 word" u32 u32 'b 'b
  | U_Req2Buf u32 ptr 'b 'b int int
  | U_Buf2Resp u32 ptr 'b 'b int int
  | U_OnTaskEnd u32 ptr int int
  | U_ReportConnectStatus int int
  | U_GetLonglinkIdentifyCheckBuffer 'b 'b int
  | U_OnLonglinkIdentifyResponse 'b 'b
  | U_RequestSync

datatype 'b answer =
    A_void
  | A_bool bool
  | A_int int
  | A_hosts "string list"
  | A_request bool 'b 'b int
  | A_response int int
  | A_identify int 'b 'b int

definition give :: "('r \<Rightarrow> 'b answer) \<Rightarrow> ('r \<times> 's) result \<Rightarrow> ('b answer \<times> 's) result" where
  "give f r = bnd r (\<lambda>(x, s). Inr (f x, s))"

definition give_void :: "'s result \<Rightarrow> ('b answer \<times> 's) result" where
  "give_void r = bnd r (\<lambda>s. Inr (A_void, s))"

fun invoke :: "('b, 's) stn_class \<Rightarrow> 'b upcall \<Rightarrow> 's \<Rightarrow> ('b answer \<times> 's) result" where
  "invoke c U_MakesureAuthed s = give A_bool (vt_MakesureAuthed c s)"
| "invoke c (U_TrafficData a b) s = give_void (vt_TrafficData c a b s)"
| "invoke c (U_OnNewDns h) s = give A_hosts (vt_OnNewDns c h s)"
| "invoke c (U_OnPush ch cmd i body ext) s = give_void (vt_OnPush c ch cmd i body ext s)"
| "invoke c (U_Req2Buf i u out ext ec sel) s =
     give (\<lambda>(ok, out, ext, ec). A_request ok out ext ec) (vt_Req2Buf c i u out ext ec sel s)"
| "invoke c (U_Buf2Resp i u inb ext ec sel) s =
     give (\<lambda>(r, ec). A_response r ec) (vt_Buf2Resp c i u inb ext ec sel s)"
| "invoke c (U_OnTaskEnd i u et ec) s = give A_int (vt_OnTaskEnd c i u et ec s)"
| "invoke c (U_ReportConnectStatus st ll) s = give_void (vt_ReportConnectStatus c st ll s)"
| "invoke c (U_GetLonglinkIdentifyCheckBuffer b h cmd) s =
     give (\<lambda>(m, b, h, cmd). A_identify m b h cmd) (vt_GetLonglinkIdentifyCheckBuffer c b h cmd s)"
| "invoke c (U_OnLonglinkIdentifyResponse b h) s = give A_bool (vt_OnLonglinkIdentifyResponse c b h s)"
| "invoke c U_RequestSync s = give_void (vt_RequestSync c s)"

section \<open>What the calls mean to the wrapper\<close>

text \<open>The action of \<open>MarsPlus\<close> behind a call: contexts, channels, extra buffers and error codes that
  come with it do not matter.\<close>

fun action_of :: "'b upcall \<Rightarrow> 'b action option" where
  "action_of (U_OnPush ch cmd i body ext) = Some (Push cmd i body)"
| "action_of (U_Req2Buf i u out ext ec sel) = Some (Request i out)"
| "action_of (U_Buf2Resp i u inb ext ec sel) = Some (Response i inb)"
| "action_of (U_OnTaskEnd i u et ec) = Some (TaskEnd i et ec)"
| "action_of (U_ReportConnectStatus st ll) = Some (ConnectStatus st ll)"
| "action_of u = None"

text \<open>The answer to a call, given the reply of its action; reference parameters come back as they
  were, except the output buffer and the command of the identification.\<close>

fun answer_of :: "'b upcall \<Rightarrow> 'b reply \<Rightarrow> 'b answer" where
  "answer_of (U_Req2Buf i u out ext ec sel) (Buffer ok out') = A_request ok out' ext ec"
| "answer_of (U_Buf2Resp i u inb ext ec sel) (Code r) = A_response r ec"
| "answer_of (U_OnTaskEnd i u et ec) (Code r) = A_int r"
| "answer_of U_MakesureAuthed r = A_bool True"
| "answer_of (U_OnNewDns h) r = A_hosts []"
| "answer_of (U_GetLonglinkIdentifyCheckBuffer b h cmd) r = A_identify (identify_mode_code kCheckNext) b h (-1)"
| "answer_of (U_OnLonglinkIdentifyResponse b h) r = A_bool False"
| "answer_of u r = A_void"

definition answered_by ::
    "('b action \<Rightarrow> 's \<Rightarrow> ('b reply \<times> 's) result) \<Rightarrow> 'b upcall \<Rightarrow> 's \<Rightarrow> ('b answer \<times> 's) result" where
  "answered_by f u s =
     (case action_of u of
        None \<Rightarrow> Inr (answer_of u Nothing, s)
      | Some a \<Rightarrow> bnd (f a s) (\<lambda>(r, s). Inr (answer_of u r, s)))"

lemma give_simps [simp]:
  "give f (Inl e) = Inl e"
  "give f (Inr (x, s)) = Inr (f x, s)"
  "give_void (Inl e) = Inl e"
  "give_void (Inr s) = Inr (A_void, s)"
  by (simp_all add: give_def give_void_def)

text \<open>Through the class or by its action, a call does the same.\<close>

lemma invoke_action:
  "invoke (StnCallBack_class api) u s = answered_by (call_action api task0 android) u s"
proof (cases u)
  case (U_OnPush ch cmd i body ext)
  then show ?thesis
    by (cases "OnPush api cmd i body s") (simp_all add: StnCallBack_class_def answered_by_def)
next
  case (U_Req2Buf i c out ext ec sel)
  then show ?thesis
    by (cases "Req2Buf api i out s") (auto simp: StnCallBack_class_def answered_by_def)
next
  case (U_Buf2Resp i c inb ext ec sel)
  then show ?thesis
    by (cases "Buf2Resp api i inb s") (auto simp: StnCallBack_class_def answered_by_def)
next
  case (U_OnTaskEnd i c et ec)
  then show ?thesis
    by (cases "OnTaskEnd i et ec s") (auto simp: StnCallBack_class_def answered_by_def)
next
  case (U_GetLonglinkIdentifyCheckBuffer b h cmd)
  then show ?thesis
    by (simp add: StnCallBack_class_def answered_by_def GetLonglinkIdentifyCheckBuffer_def kNoopTaskID_def)
qed (simp_all add: StnCallBack_class_def answered_by_def MakesureAuthed_def TrafficData_def OnNewDns_def
    OnLonglinkIdentifyResponse_def RequestSync_def)

section \<open>The user and Mars\<close>

text \<open>A request is an action of the user, or a virtual call of Mars.\<close>

fun serve ::
    "('b action \<Rightarrow> 's \<Rightarrow> ('b reply \<times> 's) result) \<Rightarrow> ('b upcall \<Rightarrow> 's \<Rightarrow> ('b answer \<times> 's) result) \<Rightarrow>
     'b action + 'b upcall \<Rightarrow> 's \<Rightarrow> (('b reply + 'b answer) \<times> 's) result" where
  "serve f g (Inl a) s = bnd (f a s) (\<lambda>(r, s). Inr (Inl r, s))"
| "serve f g (Inr u) s = bnd (g u s) (\<lambda>(r, s). Inr (Inr r, s))"

fun request_fits :: "'b autobuffer_api \<Rightarrow> 'b action + 'b upcall \<Rightarrow> wrapper_spec \<Rightarrow> bool" where
  "request_fits api (Inl a) w = spec_fits api a w"
| "request_fits api (Inr u) w = (case action_of u of None \<Rightarrow> True | Some a \<Rightarrow> spec_fits api a w)"

lemma lift_answered:
  assumes "\<And>a. action_of u = Some a \<Longrightarrow> lift_result h (f a s) = g a (h s)"
  shows "lift_result h (answered_by f u s) = answered_by g u (h s)"
proof (cases "action_of u")
  case (Some a)
  from assms [OF Some] have "g a (h s) = lift_result h (f a s)" by simp
  with Some show ?thesis
    by (cases "f a s") (auto simp: answered_by_def)
qed (simp add: answered_by_def)

lemma lift_serve:
  assumes "\<And>a. q = Inl a \<Longrightarrow> lift_result h (f a s) = f' a (h s)"
    and "\<And>u. q = Inr u \<Longrightarrow> lift_result h (g u s) = g' u (h s)"
  shows "lift_result h (serve f g q s) = serve f' g' q (h s)"
proof (cases q)
  case (Inl a)
  from assms(1) [OF Inl] have "f' a (h s) = lift_result h (f a s)" by simp
  with Inl show ?thesis
    by (cases "f a s") auto
next
  case (Inr u)
  from assms(2) [OF Inr] have "g' u (h s) = lift_result h (g u s)" by simp
  with Inr show ?thesis
    by (cases "g u s") auto
qed

lemma serve_keeps:
  assumes "proxy_inv s" and "request_fits api q (spec_of s)"
    and "serve (call_action api task0 android) (invoke (StnCallBack_class api)) q s = Inr (r, s')"
  shows "proxy_inv s'"
proof (cases q)
  case (Inl a)
  with assms call_keeps [OF assms(1), of api a task0 android] show ?thesis
    by (auto simp: bnd_eq_Inr)
next
  case (Inr u)
  with assms call_keeps [OF assms(1), of api _ task0 android] show ?thesis
    by (auto simp: invoke_action [of api u s task0 android] answered_by_def bnd_eq_Inr split: option.splits)
qed

interpretation interfaces: simulation "\<lambda>s. autobuffer_ok api \<and> proxy_inv s" spec_of "request_fits api"
    "serve (call_action api task0 android) (invoke (StnCallBack_class api))"
    "serve (spec_action api task0 android) (answered_by (spec_action api task0 android))"
  for api task0 android
proof unfold_locales
  fix s q
  assume inv: "autobuffer_ok api \<and> proxy_inv s" and fit: "request_fits api q (spec_of s)"
  show "lift_result spec_of (serve (call_action api task0 android) (invoke (StnCallBack_class api)) q s) =
      serve (spec_action api task0 android) (answered_by (spec_action api task0 android)) q (spec_of s)"
  proof (rule lift_serve)
    fix a
    assume "q = Inl a"
    with inv fit show "lift_result spec_of (call_action api task0 android a s) =
        spec_action api task0 android a (spec_of s)"
      by (simp add: call_square)
  next
    fix u
    assume "q = Inr u"
    with inv fit show "lift_result spec_of (invoke (StnCallBack_class api) u s) =
        answered_by (spec_action api task0 android) u (spec_of s)"
      unfolding invoke_action [of api u s task0 android]
      by (intro lift_answered call_square) simp_all
  qed
next
  fix s q r s'
  assume "autobuffer_ok api \<and> proxy_inv s" and "request_fits api q (spec_of s)"
    and "serve (call_action api task0 android) (invoke (StnCallBack_class api)) q s = Inr (r, s')"
  then show "autobuffer_ok api \<and> proxy_inv s'"
    using serve_keeps by blast
qed

section \<open>Properties\<close>

text \<open>C2: the wrapper refines its specification over whole runs, at its real interfaces: whatever the
  user calls and Mars calls through \<open>mars::stn::Callback\<close>, in whatever order and with whatever
  arguments, the wrapper gives the answers the specification gives, makes the calls into Mars and
  the listeners that the specification makes, and ends in a state that shows the specification's pending
  messages, next id and listeners; it faults exactly where the specification does, which is on a
  response shorter than its own length field says. User contexts, extension buffers, channels and error
  codes that Mars passes are neither used nor changed.\<close>

theorem interfaces_refine_spec:
  assumes "autobuffer_ok api"
    and "all_fit (request_fits api)
      (serve (spec_action api task0 android) (answered_by (spec_action api task0 android))) qs spec_initial"
  shows "lift_result spec_of
      (run_calls (serve (call_action api task0 android) (invoke (StnCallBack_class api))) qs initial_state) =
    run_calls (serve (spec_action api task0 android) (answered_by (spec_action api task0 android))) qs
      spec_initial"
  using interfaces.runs_agree [of api initial_state task0 android qs] assms
  by (simp add: spec_of_initial proxy_inv_initial)

theorem interfaces_refine_spec_witness:
  "lift_result spec_of (run_calls (serve (call_action list_buffer undefined False)
      (invoke (StnCallBack_class list_buffer)))
      [Inl (Send [1, 2] (Some 7)), Inr (U_Req2Buf 10000 None ([], 0) ([], 0) 5 2),
       Inr (U_OnTaskEnd 10000 None 0 0), Inr (U_OnNewDns ''h'')] initial_state) =
    Inr ([Inl (Code 0), Inr (A_request True (frame 10000 [1, 2], 14) ([], 0) 5), Inr (A_int 0), Inr (A_hosts [])],
      spec_initial\<lparr>ws_next := 10001,
        ws_calls := [StartTask (started_task undefined 10000), OnSuccess 7]\<rparr>)"
proof -
  let ?qs = "[Inl (Send [1, 2] (Some 7)), Inr (U_Req2Buf 10000 None ([], 0) ([], 0) 5 2),
       Inr (U_OnTaskEnd 10000 None 0 0), Inr (U_OnNewDns ''h'')]"
  let ?spec = "serve (spec_action list_buffer undefined False) (answered_by (spec_action list_buffer undefined False))"
  have "all_fit (request_fits list_buffer) ?spec ?qs spec_initial"
    by (simp add: spec_initial_def messageId_init_def kSignallingKeeperTaskID_def body_fits_def calls_def answered_by_def)
  moreover have "run_calls ?spec ?qs spec_initial =
    Inr ([Inl (Code 0), Inr (A_request True (frame 10000 [1, 2], 14) ([], 0) 5), Inr (A_int 0), Inr (A_hosts [])],
      spec_initial\<lparr>ws_next := 10001,
        ws_calls := [StartTask (started_task undefined 10000), OnSuccess 7]\<rparr>)"
    by (simp add: spec_initial_def messageId_init_def calls_def answered_by_def
        final_call_def kEctOK_def list_put_def overwrite_def list_pos_def layout_simps fun_eq_iff)
  ultimately show ?thesis
    using interfaces_refine_spec [OF list_buffer_ok, of undefined False ?qs] by simp
qed

end
