(* ===== verification/TaskLocking.thy ===== *)
theory TaskLocking imports TaskProxy begin

text \<open>
  The accesses of \<open>mars_task_proxy.cpp\<close> to its \<open>std::map\<close>, one step each, for threads that run
  concurrently. \<open>storeContext\<close> works under the mutex; \<open>getTaskConext\<close> does not take it, and it accesses
  the map twice: \<open>find\<close>, then \<open>operator[]\<close>, which inserts a null pointer under a missing key and
  counts as a modification of the map. \<open>removeTaskContext\<close> looks the context up and takes the mutex for
  the \<open>erase\<close> only; the objects it frees are the subject of \<open>TaskRace\<close>.
\<close>

section \<open>Threads\<close>

text \<open>Who called \<open>getTaskConext\<close>: a callback of Mars, which only reads, or \<open>removeTaskContext\<close>.\<close>

datatype caller = Callback | Removal

datatype map_pc =
    Store_lock u32 ptr
  | Store_write u32 ptr
  | Store_find u32
  | Store_index u32
  | Store_unlock
  | Get_find caller u32
  | Get_index caller u32
  | Erase_lock u32
  | Erase_entry u32
  | Erase_unlock
  | Stopped ptr

definition map_index :: "u32 \<Rightarrow> app_state \<Rightarrow> ptr \<times> app_state" where
  "map_index i s =
     (case taskId2TaskCtx s i of
        None \<Rightarrow> (None, s\<lparr>taskId2TaskCtx := (taskId2TaskCtx s)(i \<mapsto> None)\<rparr>)
      | Some p \<Rightarrow> (p, s))"

fun map_step :: "map_pc \<Rightarrow> app_state \<Rightarrow> (map_pc \<times> app_state) option" where
  "map_step (Store_lock i c) s =
     (case mutex_lock s of Inl e \<Rightarrow> None | Inr s' \<Rightarrow> Some (Store_write i c, s'))"
| "map_step (Store_write i c) s =
     Some (Store_find i, s\<lparr>taskId2TaskCtx := (taskId2TaskCtx s)(i \<mapsto> c)\<rparr>)"
| "map_step (Store_find i) s =
     Some (if taskId2TaskCtx s i = None then Store_unlock else Store_index i, s)"
| "map_step (Store_index i) s = Some (Store_unlock, snd (map_index i s))"
| "map_step Store_unlock s = Some (Stopped None, mutex_unlock s)"
| "map_step (Get_find c i) s =
     Some (if taskId2TaskCtx s i = None then Stopped None else Get_index c i, s)"
| "map_step (Get_index c i) s =
     (let (p, s) = map_index i s
      in Some (if c = Removal \<and> p \<noteq> None then Erase_lock i else Stopped p, s))"
| "map_step (Erase_lock i) s =
     (case mutex_lock s of Inl e \<Rightarrow> None | Inr s' \<Rightarrow> Some (Erase_entry i, s'))"
| "map_step (Erase_entry i) s =
     Some (Erase_unlock, s\<lparr>taskId2TaskCtx := (taskId2TaskCtx s)(i := None)\<rparr>)"
| "map_step Erase_unlock s = Some (Stopped None, mutex_unlock s)"
| "map_step (Stopped p) s = None"

text \<open>A call that has not begun.\<close>

fun entry :: "map_pc \<Rightarrow> bool" where
  "entry (Store_lock i c) = True"
| "entry (Get_find c i) = True"
| "entry pc = False"

inductive running :: "('t \<Rightarrow> map_pc) \<Rightarrow> app_state \<Rightarrow> ('t \<Rightarrow> map_pc) \<times> app_state \<Rightarrow> bool"
  for pcs0 s0 where
  init: "(\<And>t. entry (pcs0 t)) \<Longrightarrow> \<not> taskId2TaskCtxMutex s0 \<Longrightarrow> running pcs0 s0 (pcs0, s0)"
| move: "running pcs0 s0 (pcs, s) \<Longrightarrow> map_step (pcs t) s = Some (pc, s') \<Longrightarrow>
    running pcs0 s0 (pcs(t := pc), s')"

section \<open>Accesses\<close>

datatype access = Read | Write

fun next_access :: "map_pc \<Rightarrow> access option" where
  "next_access (Store_write i c) = Some Write"
| "next_access (Store_find i) = Some Read"
| "next_access (Store_index i) = Some Write"
| "next_access (Get_find c i) = Some Read"
| "next_access (Get_index c i) = Some Write"
| "next_access (Erase_entry i) = Some Write"
| "next_access pc = None"

text \<open>Two threads are about to access the map, one of them to modify it.\<close>

definition map_race :: "map_pc \<Rightarrow> map_pc \<Rightarrow> bool" where
  "map_race p q \<longleftrightarrow> next_access p \<noteq> None \<and> next_access q \<noteq> None \<and>
     (next_access p = Some Write \<or> next_access q = Some Write)"

fun critical :: "map_pc \<Rightarrow> bool" where
  "critical (Store_write i c) = True"
| "critical (Store_find i) = True"
| "critical (Store_index i) = True"
| "critical Store_unlock = True"
| "critical (Erase_entry i) = True"
| "critical Erase_unlock = True"
| "critical pc = False"

fun unlocked_lookup :: "map_pc \<Rightarrow> bool" where
  "unlocked_lookup (Get_find c i) = True"
| "unlocked_lookup (Get_index c i) = True"
| "unlocked_lookup pc = False"

lemma access_cases: "next_access p \<noteq> None \<Longrightarrow> critical p \<or> unlocked_lookup p"
  by (cases p) simp_all

section \<open>Mutual exclusion\<close>

definition lock_inv :: "('t \<Rightarrow> map_pc) \<Rightarrow> app_state \<Rightarrow> bool" where
  "lock_inv pcs s \<longleftrightarrow>
     (\<forall>t u. critical (pcs t) \<longrightarrow> critical (pcs u) \<longrightarrow> t = u) \<and>
     (taskId2TaskCtxMutex s \<longleftrightarrow> (\<exists>t. critical (pcs t)))"

text \<open>What a step does to the lock: into a critical section only when it is free, out only with it.\<close>

lemma map_step_lock:
  assumes "map_step p s = Some (p', s')"
  shows "critical p' \<and> \<not> critical p \<Longrightarrow> \<not> taskId2TaskCtxMutex s \<and> taskId2TaskCtxMutex s'"
    and "critical p \<and> \<not> critical p' \<Longrightarrow> \<not> taskId2TaskCtxMutex s'"
    and "critical p = critical p' \<Longrightarrow> taskId2TaskCtxMutex s' = taskId2TaskCtxMutex s"
  using assms
  by (cases p; auto simp: mutex_lock_def mutex_unlock_def map_index_def split: if_splits option.splits)+

lemma lock_inv_step:
  assumes "lock_inv pcs s" and "map_step (pcs t) s = Some (pc, s')"
  shows "lock_inv (pcs(t := pc)) s'"
proof -
  note st = map_step_lock [OF assms(2)]
  consider (enter) "critical pc" "\<not> critical (pcs t)" | (leave) "\<not> critical pc" "critical (pcs t)"
    | (same) "critical (pcs t) = critical pc" by blast
  then show ?thesis
  proof cases
    case enter
    with st(1) assms(1) show ?thesis
      by (auto simp: lock_inv_def)
  next
    case leave
    with st(2) assms(1) show ?thesis
      by (auto simp: lock_inv_def)
  next
    case same
    with st(3) assms(1) show ?thesis
      unfolding lock_inv_def by (metis fun_upd_apply)
  qed
qed

lemma running_inv: "running pcs0 s0 c \<Longrightarrow> lock_inv (fst c) (snd c)"
proof (induction rule: running.induct)
  case init
  have "\<not> critical (pcs0 t)" for t
    using init(1) [of t] by (cases "pcs0 t") simp_all
  with init(2) show ?case by (simp add: lock_inv_def)
next
  case (move pcs s t pc s')
  then show ?case
    using lock_inv_step [of pcs s t pc s'] by (simp del: fun_upd_apply)
qed

text \<open>A schedule, the list of the threads that move.\<close>

primrec schedule ::
    "'t list \<Rightarrow> ('t \<Rightarrow> map_pc) \<times> app_state \<Rightarrow> (('t \<Rightarrow> map_pc) \<times> app_state) option" where
  "schedule [] c = Some c"
| "schedule (t # ts) c =
     (case map_step (fst c t) (snd c) of
        None \<Rightarrow> None
      | Some (pc, s) \<Rightarrow> schedule ts ((fst c)(t := pc), s))"

lemma schedule_running:
  "running pcs0 s0 c \<Longrightarrow> schedule ts c = Some c' \<Longrightarrow> running pcs0 s0 c'"
proof (induction ts arbitrary: c)
  case (Cons t ts)
  obtain pcs s where c: "c = (pcs, s)" by (cases c)
  from Cons.prems(2) obtain pc s' where m: "map_step (pcs t) s = Some (pc, s')"
    "schedule ts (pcs(t := pc), s') = Some c'"
    by (auto simp: c split: option.splits)
  from Cons.IH [OF running.move [OF Cons.prems(1) [unfolded c] m(1)] m(2)] show ?case .
qed simp

section \<open>One thread alone\<close>

primrec map_run :: "nat \<Rightarrow> map_pc \<times> app_state \<Rightarrow> map_pc \<times> app_state" where
  "map_run 0 c = c"
| "map_run (Suc n) c =
     (case map_step (fst c) (snd c) of None \<Rightarrow> c | Some c' \<Rightarrow> map_run n c')"

lemma store_alone:
  assumes "\<not> taskId2TaskCtxMutex s"
  shows "map_run 5 (Store_lock i c, s) = (Stopped None,
    case storeContext i c s of Inl e \<Rightarrow> s | Inr (b, s') \<Rightarrow> s')"
  using assms
  by (simp add: numeral_eq_Suc mutex_lock_def mutex_unlock_def map_index_def storeContext_def Let_def)

lemma get_alone: "map_run 2 (Get_find Callback i, s) = (Stopped (getTaskConext i s), s)"
  by (auto simp: numeral_eq_Suc map_index_def getTaskConext_def split: option.split)

section \<open>Properties\<close>

text \<open>C9: however the threads interleave, at most one is in a section the mutex protects, the mutex is
  held exactly then, and so two threads that race on the map are never both inside: every race
  involves a \<open>getTaskConext\<close> that runs without the mutex.\<close>

theorem locked_sections_exclusive:
  assumes "running pcs0 s0 (pcs, s)" and "t \<noteq> u"
  shows "\<not> (critical (pcs t) \<and> critical (pcs u)) \<and>
    (taskId2TaskCtxMutex s \<longleftrightarrow> (\<exists>v. critical (pcs v))) \<and>
    (map_race (pcs t) (pcs u) \<longrightarrow> unlocked_lookup (pcs t) \<or> unlocked_lookup (pcs u))"
proof -
  have inv: "lock_inv pcs s"
    using running_inv [OF assms(1)] by simp
  with assms(2) have "\<not> (critical (pcs t) \<and> critical (pcs u))"
    unfolding lock_inv_def by blast
  moreover have "taskId2TaskCtxMutex s \<longleftrightarrow> (\<exists>v. critical (pcs v))"
    using inv by (simp add: lock_inv_def)
  ultimately show ?thesis
    using access_cases [of "pcs t"] access_cases [of "pcs u"] unfolding map_race_def by blast
qed

theorem locked_sections_exclusive_witness:
  "\<exists>pcs s. running (case_bool (Store_lock 10000 (Some 2)) (Get_find Callback 10000)) initial_state (pcs, s) \<and>
    pcs True = Store_write 10000 (Some 2) \<and>
    \<not> (critical (pcs True) \<and> critical (pcs False)) \<and>
    (taskId2TaskCtxMutex s \<longleftrightarrow> (\<exists>v. critical (pcs v))) \<and>
    (map_race (pcs True) (pcs False) \<longrightarrow> unlocked_lookup (pcs True) \<or> unlocked_lookup (pcs False))"
proof -
  let ?pcs = "case_bool (Store_lock 10000 (Some 2)) (Get_find Callback 10000)"
  have "running ?pcs initial_state (?pcs, initial_state)"
    by (rule running.init) (simp_all add: initial_state_def split: bool.split)
  moreover have "map_step (?pcs True) initial_state =
      Some (Store_write 10000 (Some 2), initial_state\<lparr>taskId2TaskCtxMutex := True\<rparr>)"
    by (simp add: mutex_lock_def initial_state_def)
  ultimately have r: "running ?pcs initial_state
      (?pcs(True := Store_write 10000 (Some 2)), initial_state\<lparr>taskId2TaskCtxMutex := True\<rparr>)"
    by (rule running.move)
  from locked_sections_exclusive [OF r, of True False] r show ?thesis
    by (intro exI conjI) (assumption, simp, blast+)
qed

text \<open>C10: a callback that looks a task up while the task is removed brings the entry back: between its
  \<open>find\<close> and its \<open>operator[]\<close> the entry is erased, and \<open>operator[]\<close> inserts a null pointer under the id.
  On the way two threads race on the map. The entry stays: removing the task again does nothing.\<close>

theorem lookup_resurrects_entry:
  assumes "\<not> taskId2TaskCtxMutex s" and "taskId2TaskCtx s i = Some (Some a)"
  shows "(\<exists>pcs s'. running (case_bool (Get_find Callback i) (Get_find Removal i)) s (pcs, s') \<and>
      map_race (pcs True) (pcs False)) \<and>
    (\<exists>pcs s'. running (case_bool (Get_find Callback i) (Get_find Removal i)) s (pcs, s') \<and>
      pcs True = Stopped None \<and> pcs False = Stopped None \<and>
      taskId2TaskCtx s' i = Some None \<and> removeTaskContext i s' = Inr s')"
proof -
  let ?pcs = "case_bool (Get_find Callback i) (Get_find Removal i)"
  have start: "running ?pcs s (?pcs, s)"
    by (rule running.init) (simp_all add: assms(1) split: bool.split)
  have race: "\<exists>pcs s'. schedule [True, False, False, False] (?pcs, s) = Some (pcs, s') \<and>
      map_race (pcs True) (pcs False)"
    using assms by (simp add: map_index_def mutex_lock_def map_race_def)
  have ghost: "\<exists>pcs s'. schedule [True, False, False, False, False, False, True] (?pcs, s) = Some (pcs, s') \<and>
      pcs True = Stopped None \<and> pcs False = Stopped None \<and> taskId2TaskCtx s' i = Some None"
    using assms by (simp add: map_index_def mutex_lock_def mutex_unlock_def)
  have "removeTaskContext i s' = Inr s'" if "taskId2TaskCtx s' i = Some None" for s'
    using that by (simp add: removeTaskContext_def getTaskConext_def)
  with race ghost schedule_running [OF start] show ?thesis by meson
qed

theorem lookup_resurrects_entry_witness:
  "\<exists>s. (\<exists>pcs s'. running (case_bool (Get_find Callback 10000) (Get_find Removal 10000)) s (pcs, s') \<and>
      map_race (pcs True) (pcs False)) \<and>
    (\<exists>pcs s'. running (case_bool (Get_find Callback 10000) (Get_find Removal 10000)) s (pcs, s') \<and>
      pcs True = Stopped None \<and> pcs False = Stopped None \<and>
      taskId2TaskCtx s' 10000 = Some None \<and> removeTaskContext 10000 s' = Inr s')"
  by (rule exI [of _ "initial_state\<lparr>taskId2TaskCtx := [10000 \<mapsto> Some 2]\<rparr>"],
      rule lookup_resurrects_entry [of _ _ 2])
    (simp_all add: initial_state_def)

end
