(* ===== verification/TaskRace.thy ===== *)
theory TaskRace imports MarsPlus TaskLocking begin

text \<open>
  \<open>MarsTaskProxy::removeTaskContext\<close> step by step, for several threads. Every access to the table, the
  mutex and the objects is a step: \<open>find\<close> and \<open>operator[]\<close> of the lookup, which takes no lock, the read
  of \<open>ctx->msg\<close>, the two \<open>delete\<close>s, and the section under the mutex that erases the entry. A fault
  stops its thread. \<open>operator[]\<close> is the one of \<open>TaskLocking\<close>: under a missing key it inserts a null pointer.
\<close>

section \<open>Threads\<close>

datatype remove_pc =
    Enter
  | Indexing
  | Found addr
  | Deleting addr addr
  | MsgDeleted addr
  | Erasing addr
  | Unlocking addr
  | Erased addr
  | Returned
  | Faulted ub

text \<open>One step of a thread that removes task \<open>i\<close>; \<open>None\<close> when it cannot move.\<close>

fun remove_step :: "u32 \<Rightarrow> remove_pc \<Rightarrow> app_state \<Rightarrow> (remove_pc \<times> app_state) option" where
  "remove_step i Enter s = Some (if taskId2TaskCtx s i = None then Returned else Indexing, s)"
| "remove_step i Indexing s =
     (let (p, s') = map_index i s in Some (case p of None \<Rightarrow> Returned | Some a \<Rightarrow> Found a, s'))"
| "remove_step i (Found a) s =
     Some (case the_obj (ctx_heap s) (Some a) of
             Inl e \<Rightarrow> Faulted e
           | Inr ctx \<Rightarrow> (case tc_msg ctx of None \<Rightarrow> MsgDeleted a | Some m \<Rightarrow> Deleting a m), s)"
| "remove_step i (Deleting a m) s =
     (case delete_msg m s of Inl e \<Rightarrow> Some (Faulted e, s) | Inr s' \<Rightarrow> Some (MsgDeleted a, s'))"
| "remove_step i (MsgDeleted a) s =
     (case mutex_lock s of Inl e \<Rightarrow> None | Inr s' \<Rightarrow> Some (Erasing a, s'))"
| "remove_step i (Erasing a) s =
     Some (Unlocking a, s\<lparr>taskId2TaskCtx := (taskId2TaskCtx s)(i := None)\<rparr>)"
| "remove_step i (Unlocking a) s = Some (Erased a, mutex_unlock s)"
| "remove_step i (Erased a) s =
     (case delete_ctx a s of Inl e \<Rightarrow> Some (Faulted e, s) | Inr s' \<Rightarrow> Some (Returned, s'))"
| "remove_step i Returned s = None"
| "remove_step i (Faulted e) s = None"

text \<open>The threads are the values of a type; thread \<open>t\<close> removes task \<open>ids t\<close>.\<close>

inductive interleaved :: "('t \<Rightarrow> u32) \<Rightarrow> app_state \<Rightarrow> ('t \<Rightarrow> remove_pc) \<times> app_state \<Rightarrow> bool"
  for ids s0 where
  begin_all: "interleaved ids s0 (\<lambda>t. Enter, s0)"
| move: "interleaved ids s0 (pcs, s) \<Longrightarrow> remove_step (ids t) (pcs t) s = Some (pc, s') \<Longrightarrow>
    interleaved ids s0 (pcs(t := pc), s')"

section \<open>The accesses to the table\<close>






section \<open>Distinct tasks\<close>















section \<open>One thread alone\<close>

lemma interleaved_step:
  "interleaved ids s0 (pcs, s) \<Longrightarrow> remove_step (ids t) (pcs t) s = Some (pc, s') \<Longrightarrow>
     pcs' = pcs(t := pc) \<Longrightarrow> interleaved ids s0 (pcs', s')"
  by (simp add: interleaved.move)

text \<open>A schedule, the list of the threads that move.\<close>

primrec remove_schedule ::
    "('t \<Rightarrow> u32) \<Rightarrow> 't list \<Rightarrow> ('t \<Rightarrow> remove_pc) \<times> app_state \<Rightarrow> (('t \<Rightarrow> remove_pc) \<times> app_state) option" where
  "remove_schedule ids [] c = Some c"
| "remove_schedule ids (t # ts) c =
     (case remove_step (ids t) (fst c t) (snd c) of
        None \<Rightarrow> None
      | Some (pc, s) \<Rightarrow> remove_schedule ids ts ((fst c)(t := pc), s))"

lemma remove_schedule_interleaved:
  "interleaved ids s0 c \<Longrightarrow> remove_schedule ids ts c = Some c' \<Longrightarrow> interleaved ids s0 c'"
proof (induction ts arbitrary: c)
  case (Cons t ts)
  obtain pcs s where c: "c = (pcs, s)" by (cases c)
  from Cons.prems(2) obtain pc s' where m: "remove_step (ids t) (pcs t) s = Some (pc, s')"
    "remove_schedule ids ts (pcs(t := pc), s') = Some c'"
    by (auto simp: c split: option.splits)
  from Cons.IH [OF interleaved.move [OF Cons.prems(1) [unfolded c] m(1)] m(2)] show ?case .
qed simp

lemma solo_run:
  assumes "owns s i a m body cb" and "\<not> taskId2TaskCtxMutex s" and "ids t = i"
  shows "interleaved ids s ((\<lambda>u. Enter)(t := Returned), removed i a m s)"
proof -
  have o: "taskId2TaskCtx s i = Some (Some a)"
    "ctx_heap s a = Some \<lparr>tc_needAck = None, tc_msg = Some m,
      tc_size = of_nat (length body) + of_nat sizeof_MessageFormat, tc_respCallback = cb\<rparr>"
    "msg_heap s m = Some (of_bytes (frame i body))"
    using assms(1) by (simp_all add: owns_def)
  let ?e = "\<lambda>u. Enter"
  have "interleaved ids s (?e(t := Indexing), s)"
    by (rule interleaved_step [OF begin_all, of _ t]) (simp_all add: assms(3) o)
  then have "interleaved ids s (?e(t := Found a), s)"
    by (rule interleaved_step [of _ _ _ _ t]) (simp_all add: assms(3) o map_index_def)
  then have "interleaved ids s (?e(t := Deleting a m), s)"
    by (rule interleaved_step [of _ _ _ _ t]) (simp_all add: assms(3) o)
  then have "interleaved ids s (?e(t := MsgDeleted a), s\<lparr>msg_heap := (msg_heap s)(m := None)\<rparr>)"
    by (rule interleaved_step [of _ _ _ _ t]) (simp_all add: o delete_msg_def)
  then have "interleaved ids s (?e(t := Erasing a),
      s\<lparr>msg_heap := (msg_heap s)(m := None), taskId2TaskCtxMutex := True\<rparr>)"
    by (rule interleaved_step [of _ _ _ _ t]) (simp_all add: mutex_lock_def assms(2))
  then have "interleaved ids s (?e(t := Unlocking a), s\<lparr>msg_heap := (msg_heap s)(m := None),
      taskId2TaskCtx := (taskId2TaskCtx s)(i := None), taskId2TaskCtxMutex := True\<rparr>)"
    by (rule interleaved_step [of _ _ _ _ t]) (simp_all add: assms(3))
  then have "interleaved ids s (?e(t := Erased a), s\<lparr>msg_heap := (msg_heap s)(m := None),
      taskId2TaskCtx := (taskId2TaskCtx s)(i := None), taskId2TaskCtxMutex := False\<rparr>)"
    by (rule interleaved_step [of _ _ _ _ t]) (simp_all add: mutex_unlock_def)
  then show ?thesis
    by (rule interleaved_step [of _ _ _ _ t])
      (simp_all add: delete_ctx_def o removed_def assms(2))
qed

section \<open>Properties\<close>



text \<open>The step model agrees with the sequential function: a thread that removes a pending task
  alone reaches the state \<open>removeTaskContext\<close> returns.\<close>

theorem removal_steps_refine:
  assumes "reachable api task0 android s" and "pending s i = Some v" and "ids t = i"
  shows "\<exists>s'. removeTaskContext i s = Inr s' \<and> interleaved ids s ((\<lambda>u. Enter)(t := Returned), s')"
proof -
  have inv: "proxy_inv s"
    by (rule reachable_inv [OF assms(1)])
  then have free: "\<not> taskId2TaskCtxMutex s"
    by (simp add: proxy_inv_def)
  obtain a m where "owns s i a m (fst v) (snd v)"
    using pending_iff [OF inv, of i "fst v" "snd v"] assms(2) by auto
  from removeTaskContext_owns [OF free this] solo_run [of s i a m _ _ ids t, OF this free assms(3)]
  show ?thesis by blast
qed

theorem removal_steps_refine_witness:
  "\<exists>s'. removeTaskContext 10000 one_pending = Inr s' \<and>
    interleaved (\<lambda>t :: bool. 10000) one_pending ((\<lambda>u. Enter)(True := Returned), s')"
  by (rule removal_steps_refine [OF one_pending]) simp

text \<open>C26: two threads that remove the same task can free its message twice: both look the context up
  before either of them has erased the entry, because the lock covers the erasure only.\<close>

theorem concurrent_removal_double_free:
  assumes "reachable api task0 android s" and "pending s i = Some v"
  shows "\<exists>pcs s'. interleaved (\<lambda>t :: bool. i) s (pcs, s') \<and> pcs True = Faulted DoubleFree"
proof -
  have inv: "proxy_inv s"
    by (rule reachable_inv [OF assms(1)])
  obtain a m where own: "owns s i a m (fst v) (snd v)"
    using pending_iff [OF inv, of i "fst v" "snd v"] assms(2) by auto
  have "\<exists>c. remove_schedule (\<lambda>t. i) [False, False, False, True, True, True, False, True] (\<lambda>t. Enter, s) = Some c \<and>
      fst c True = Faulted DoubleFree"
    using own by (simp add: owns_def map_index_def delete_msg_def)
  then show ?thesis
    using remove_schedule_interleaved [OF begin_all] by fastforce
qed

theorem concurrent_removal_double_free_witness:
  "\<exists>pcs s'. interleaved (\<lambda>t :: bool. 10000) one_pending (pcs, s') \<and> pcs True = Faulted DoubleFree"
  by (rule concurrent_removal_double_free [OF one_pending])

end
