(* ===== verification/IdRace.thy ===== *)
theory IdRace imports TaskHistory TaskLocking begin

text \<open>
  \<open>ImMessage::newMessageId\<close> is \<open>return messageId++\<close> on a plain static variable: a read and a write.
  \<open>sendMessage\<close> runs on the user's threads, \<open>OnPush\<close> on Mars's thread, and both construct an
  \<open>ImMessage\<close> without a lock. Here threads make these two calls concurrently, and every access to
  something the threads share is a step of its own: the counter, the heap, the mutex, the table (the
  steps of \<open>TaskLocking\<close>), the push listener and Mars. The other entry points have no steps here; the
  lookups and removals that run beside a send are the subject of \<open>TaskLocking\<close> and \<open>TaskRace\<close>.
\<close>

section \<open>Threads\<close>

text \<open>The calls that construct an \<open>ImMessage\<close> with a new id.\<close>

fun takes_id :: "'b action \<Rightarrow> bool" where
  "takes_id (Send body cb) = True"
| "takes_id (Push c t b) = True"
| "takes_id a = False"

datatype call_pc =
    Ready
  | Id_read u32
  | Id_taken u32
  | Msg_made addr
  | Storing u32 map_pc
  | Starting u32

text \<open>A thread: where it is in the first of the calls it still has to make.\<close>

type_synonym 'b thread = "call_pc \<times> 'b action list"

text \<open>\<open>OnPush\<close> after its message has been constructed.\<close>

definition deliver_push :: "im_message \<Rightarrow> app_state \<Rightarrow> app_state result" where
  "deliver_push pushMessage s =
     (case getPushListener s of
        None \<Rightarrow> Inr s
      | Some l \<Rightarrow>
          bnd (isValid pushMessage) (\<lambda>valid.
          if valid then bnd (getData pushMessage) (\<lambda>d. Inr (emit (OnPushMessage l d) s)) else Inr s))"

fun call_step ::
    "'b autobuffer_api \<Rightarrow> task \<Rightarrow> 'b thread \<Rightarrow> app_state \<Rightarrow> ('b thread \<times> app_state) option" where
  "call_step api task0 (Ready, a # as) s =
     (if takes_id a then Some ((Id_read (messageId s), a # as), s) else None)"
| "call_step api task0 (Id_read i, a # as) s =
     Some ((Id_taken i, a # as), s\<lparr>messageId := snd (newMessageId i)\<rparr>)"
| "call_step api task0 (Id_taken i, Push c t b # as) s =
     (case bnd (ImMessage_new (ab_mem api b) (of_nat (ab_length api b)) i)
             (\<lambda>(pushMessage, mid'). deliver_push pushMessage s) of
        Inl e \<Rightarrow> None
      | Inr s' \<Rightarrow> Some ((Ready, as), s'))"
| "call_step api task0 (Id_taken i, Send body cb # as) s =
     (case ImMessage_new body (of_nat (length body)) i of
        Inl e \<Rightarrow> None
      | Inr (im, mid') \<Rightarrow> let (m, s') = new_msg im s in Some ((Msg_made m, Send body cb # as), s'))"
| "call_step api task0 (Msg_made m, Send body cb # as) s =
     (case bnd (the_obj (msg_heap s) (Some m)) getMessageId of
        Inl e \<Rightarrow> None
      | Inr i \<Rightarrow>
          let (c, s') = new_ctx (TaskContext_new\<lparr>tc_respCallback := cb, tc_msg := Some m,
                tc_size := of_nat (length body) + of_nat sizeof_MessageFormat\<rparr>) s
          in Some ((Storing i (Store_lock i (Some c)), Send body cb # as), s'))"
| "call_step api task0 (Storing i pc, Send body cb # as) s =
     (case map_step pc s of
        None \<Rightarrow> None
      | Some (pc', s') \<Rightarrow>
          Some ((case pc' of Stopped p \<Rightarrow> Starting i | _ \<Rightarrow> Storing i pc', Send body cb # as), s'))"
| "call_step api task0 (Starting i, Send body cb # as) s =
     Some ((Ready, as), emit (StartTask (started_task task0 i)) s)"
| "call_step api task0 th s = None"

inductive concurrent ::
    "'b autobuffer_api \<Rightarrow> task \<Rightarrow> ('t \<Rightarrow> 'b action list) \<Rightarrow> app_state \<Rightarrow>
     ('t \<Rightarrow> 'b thread) \<times> app_state \<Rightarrow> bool"
  for api task0 progs s0 where
  start: "concurrent api task0 progs s0 (\<lambda>t. (Ready, progs t), s0)"
| move: "concurrent api task0 progs s0 (ths, s) \<Longrightarrow>
    call_step api task0 (ths t) s = Some (th, s') \<Longrightarrow>
    concurrent api task0 progs s0 (ths(t := th), s')"

primrec call_schedule ::
    "'b autobuffer_api \<Rightarrow> task \<Rightarrow> 't list \<Rightarrow> ('t \<Rightarrow> 'b thread) \<times> app_state \<Rightarrow>
     (('t \<Rightarrow> 'b thread) \<times> app_state) option" where
  "call_schedule api task0 [] c = Some c"
| "call_schedule api task0 (t # ts) c =
     (case call_step api task0 (fst c t) (snd c) of
        None \<Rightarrow> None
      | Some (th, s) \<Rightarrow> call_schedule api task0 ts ((fst c)(t := th), s))"

lemma call_schedule_concurrent:
  "concurrent api task0 progs s0 c \<Longrightarrow> call_schedule api task0 ts c = Some c' \<Longrightarrow>
     concurrent api task0 progs s0 c'"
proof (induction ts arbitrary: c)
  case (Cons t ts)
  obtain ths s where c: "c = (ths, s)" by (cases c)
  from Cons.prems(2) obtain th s' where m: "call_step api task0 (ths t) s = Some (th, s')"
    "call_schedule api task0 ts (ths(t := th), s') = Some c'"
    by (auto simp: c split: option.splits)
  from Cons.IH [OF concurrent.move [OF Cons.prems(1) [unfolded c] m(1)] m(2)] show ?case .
qed simp

lemma call_schedule_append:
  "call_schedule api task0 (ts @ us) c =
     (case call_schedule api task0 ts c of None \<Rightarrow> None
      | Some c' \<Rightarrow> call_schedule api task0 us c')"
  by (induction ts arbitrary: c) (auto split: option.split)

section \<open>A thread that is not disturbed\<close>

primrec thread_run ::
    "'b autobuffer_api \<Rightarrow> task \<Rightarrow> nat \<Rightarrow> 'b thread \<times> app_state \<Rightarrow> ('b thread \<times> app_state) option" where
  "thread_run api task0 0 c = Some c"
| "thread_run api task0 (Suc n) c =
     (case call_step api task0 (fst c) (snd c) of None \<Rightarrow> None | Some c' \<Rightarrow> thread_run api task0 n c')"

lemma thread_run_schedule:
  "thread_run api task0 n (ths t, s) = Some (th, s') \<Longrightarrow>
     call_schedule api task0 (replicate n t) (ths, s) = Some (ths(t := th), s')"
proof (induction n arbitrary: ths s)
  case (Suc n)
  then obtain th1 s1 where "call_step api task0 (ths t) s = Some (th1, s1)"
    "thread_run api task0 n (th1, s1) = Some (th, s')"
    by (auto split: option.splits)
  moreover from this have "call_schedule api task0 (replicate n t) (ths(t := th1), s1) = Some (ths(t := th), s')"
    using Suc.IH [of "ths(t := th1)" s1] by (simp only: fun_upd_same fun_upd_upd)
  ultimately show ?case by (simp del: fun_upd_apply)
qed (auto simp: fun_eq_iff)

text \<open>Ten steps are a whole \<open>sendMessage\<close>, three are a whole \<open>OnPush\<close>.\<close>

lemma send_run:
  assumes "\<not> taskId2TaskCtxMutex s" and "body_fits body"
  shows "thread_run api task0 10 ((Ready, Send body cb # as), s) =
    Some ((Ready, as), stored task0 body cb s)"
proof -
  have sz: "unat (of_nat (length body) :: u32) < 2 ^ 31" "unat (of_nat (length body) :: u32) \<le> length body"
    using assms(2) body_fits_unat [OF assms(2)] by (simp_all add: body_fits_def)
  have "ImMessage_new body (of_nat (length body)) i = Inr (of_bytes (frame i body), i + 1)" for i
    using ImMessage_new_ok [OF sz, of i] body_fits_unat [OF assms(2)] by simp
  then show ?thesis
    using assms(1) getMessageId_frame [of "messageId s" body]
    by (simp add: numeral_eq_Suc new_msg_def new_ctx_def map_index_def mutex_lock_def mutex_unlock_def
        stored_def emit_def TaskContext_new_def newMessageId_def Let_def)
qed

lemma push_run:
  assumes "OnPush api c t b (s\<lparr>messageId := i\<rparr>) = Inr s'"
  shows "thread_run api task0 2 ((Id_read i, Push c t b # as), s) = Some ((Ready, as), s')"
proof -
  obtain m x where m: "ImMessage_new (ab_mem api b) (of_nat (ab_length api b)) i = Inr (m, x)"
    using assms by (auto simp: OnPush_def bnd_eq_Inr)
  with assms ImMessage_new_id [OF m] show ?thesis
    by (simp add: OnPush_def numeral_eq_Suc deliver_push_def newMessageId_def Let_def)
qed

lemma messageId_self [simp]: "s\<lparr>messageId := messageId s\<rparr> = s"
  by simp

section \<open>A push in between\<close>

text \<open>Without a fresh id the stored entry still replaces what was under its id.\<close>

lemma pending_stored_any:
  assumes "table_ok s" and "addrs_fresh s" and "body_fits body"
  shows "pending (stored task0 body cb s) = (pending s)(messageId s \<mapsto> (body, cb))"
proof
  fix j
  show "pending (stored task0 body cb s) j = ((pending s)(messageId s \<mapsto> (body, cb))) j"
  proof (cases "j = messageId s")
    case True
    with getData_frame [OF assms(3), of j "[]"] show ?thesis
      by (simp add: pending_def getTaskConext_def stored_sel)
  next
    case False
    show ?thesis
    proof (cases "taskId2TaskCtx s j")
      case None
      with False show ?thesis
        by (simp add: pending_absent stored_sel)
    next
      case (Some p)
      with assms(1) obtain a m bd cc where o: "owns s j a m bd cc"
        unfolding table_ok_def by blast
      with assms(2) have "a < next_addr s" "m < next_addr s"
        by (auto simp: addrs_fresh_def owns_def)
      with o False have "owns (stored task0 body cb s) j a m bd cc"
        by (simp add: owns_def stored_sel)
      with o False show ?thesis
        by (simp add: pending_owns)
    qed
  qed
qed

lemma addrs_fresh_stored: "addrs_fresh s \<Longrightarrow> addrs_fresh (stored task0 body cb s)"
  by (auto simp: addrs_fresh_def stored_sel less_Suc_eq)


text \<open>The state after \<open>OnPush\<close> with an id read earlier.\<close>

lemma late_push:
  assumes "autobuffer_ok api" and "ab_length api pb < 2 ^ 31 - 12"
  obtains s' where "OnPush api c t pb (s\<lparr>messageId := i\<rparr>) = Inr s'"
    and "messageId s' = i + 1" and "pending s' = pending s" and "taskId2TaskCtx s' = taskId2TaskCtx s"
    and "ctx_heap s' = ctx_heap s" and "next_addr s' = next_addr s"
    and "taskId2TaskCtxMutex s' = taskId2TaskCtxMutex s" and "table_ok s' = table_ok s"
    and "addrs_fresh s' = addrs_fresh s" and "\<And>l. told l s' = told l s"
proof
  let ?s' = "case g_pushListener s of None \<Rightarrow> s\<lparr>messageId := i + 1\<rparr>
    | Some l \<Rightarrow> emit (OnPushMessage l (ab_content api pb)) (s\<lparr>messageId := i + 1\<rparr>)"
  show "OnPush api c t pb (s\<lparr>messageId := i\<rparr>) = Inr ?s'"
    by (simp add: OnPush_result [OF assms] split: option.split)
qed (simp_all add: table_ok_def addrs_fresh_def emit_def told_def split: option.split)

lemma reserved_room: "unat (kSignallingKeeperTaskID :: u32) < 2 ^ 32 - 1"
  by (simp add: kSignallingKeeperTaskID_def)

text \<open>Two messages, a push that had read its id before the first, and a third message: first the
  schedule, then the state it leads to, in which \<open>s3\<close> is the state after the push.\<close>

definition push_between :: "bool list" where
  "push_between = [False] @ replicate 10 True @ replicate 10 True @ replicate 2 False @ replicate 10 True"

lemma revived_schedule:
  assumes fits: "body_fits bA" "body_fits bB" "body_fits bC"
    and free: "\<not> taskId2TaskCtxMutex s" "\<not> taskId2TaskCtxMutex s3"
    and push: "OnPush api c t pb (stored task0 bB lb (stored task0 bA la s)\<lparr>messageId := messageId s\<rparr>) = Inr s3"
  shows "call_schedule api task0 push_between
      (\<lambda>u. (Ready, case_bool [Send bA la, Send bB lb, Send bC lc] [Push c t pb] u), s) =
        Some (\<lambda>u. (Ready, []), stored task0 bC lc s3)"
proof -
  let ?s1 = "stored task0 bA la s"
  let ?s2 = "stored task0 bB lb ?s1"
  let ?ths = "\<lambda>u. (Ready, case_bool [Send bA la, Send bB lb, Send bC lc] [Push c t pb] u)"
  let ?t0 = "?ths(False := (Id_read (messageId s), [Push c t pb]))"
  let ?t1 = "?t0(True := (Ready, [Send bB lb, Send bC lc]))"
  let ?t2 = "?t1(True := (Ready, [Send bC lc]))"
  let ?t3 = "?t2(False := (Ready, []))"
  have m1: "\<not> taskId2TaskCtxMutex ?s1"
    using free(1) by (simp add: stored_sel)
  have "call_schedule api task0 [False] (?ths, s) = Some (?t0, s)"
    by simp
  moreover have "call_schedule api task0 (replicate 10 True) (?t0, s) = Some (?t1, ?s1)"
    by (rule thread_run_schedule) (simp add: send_run [OF free(1) fits(1)])
  moreover have "call_schedule api task0 (replicate 10 True) (?t1, ?s1) = Some (?t2, ?s2)"
    by (rule thread_run_schedule) (simp add: send_run [OF m1 fits(2)])
  moreover have "call_schedule api task0 (replicate 2 False) (?t2, ?s2) = Some (?t3, s3)"
    by (rule thread_run_schedule) (simp add: push_run [OF push])
  moreover have "call_schedule api task0 (replicate 10 True) (?t3, s3) =
      Some (?t3(True := (Ready, [])), stored task0 bC lc s3)"
    by (rule thread_run_schedule) (simp add: send_run [OF free(2) fits(3)])
  moreover have "?t3(True := (Ready, [])) = (\<lambda>u. (Ready, []))"
    by (auto simp: fun_eq_iff split: bool.split)
  ultimately show ?thesis
    unfolding push_between_def by (simp only: call_schedule_append option.case)
qed

lemma entries_old:
  assumes "proxy_inv s" and "taskId2TaskCtx s j = Some (Some a)"
  shows "a < next_addr s"
proof -
  obtain b m bd cc where "owns s j b m bd cc"
    using assms unfolding proxy_inv_def table_ok_def by blast
  with assms show ?thesis
    by (auto simp: proxy_inv_def addrs_fresh_def owns_def)
qed

lemma revived_id:
  assumes inv: "proxy_inv s" and room: "unat (messageId s) + 1 < unat kSignallingKeeperTaskID"
    and api: "autobuffer_ok api" "ab_length api pb < 2 ^ 31 - 12"
    and fits: "body_fits bA" "body_fits bB" "body_fits bC"
  shows "\<exists>s'. call_schedule api task0 push_between
      (\<lambda>u. (Ready, case_bool [Send bA la, Send bB lb, Send bC lc] [Push c t pb] u), s) =
        Some (\<lambda>u. (Ready, []), s') \<and>
    pending s' = (pending s)(messageId s \<mapsto> (bA, la), messageId s + 1 \<mapsto> (bC, lc)) \<and>
    (\<forall>l. told l s' = told l s) \<and> ctx_heap s' (next_addr s + 3) \<noteq> None \<and>
    (\<forall>j. getTaskConext j s' \<noteq> Some (next_addr s + 3))"
proof -
  let ?i = "messageId s"
  define s1 where "s1 = stored task0 bA la s"
  define s2 where "s2 = stored task0 bB lb s1"
  have i1: "messageId s1 = ?i + 1"
    by (simp add: s1_def stored_sel)
  have n: "unat (?i + 1) = unat ?i + 1"
    using unat_id [of 1 ?i] room reserved_room by simp
  have mid: "unat (messageId s) < 2 ^ 32 - 1" "unat (messageId s1) < 2 ^ 32 - 1"
    using room reserved_room n i1 by simp_all
  have inv1: "proxy_inv s1"
    unfolding s1_def by (rule proxy_inv_stored [OF inv fits(1) mid(1)])
  have inv2: "proxy_inv s2"
    unfolding s2_def by (rule proxy_inv_stored [OF inv1 fits(2) mid(2)])
  obtain s3 where push: "OnPush api c t pb (s2\<lparr>messageId := ?i\<rparr>) = Inr s3"
    and s3: "messageId s3 = ?i + 1" "pending s3 = pending s2" "taskId2TaskCtx s3 = taskId2TaskCtx s2"
      "ctx_heap s3 = ctx_heap s2" "next_addr s3 = next_addr s2"
      "taskId2TaskCtxMutex s3 = taskId2TaskCtxMutex s2" "table_ok s3 = table_ok s2"
      "addrs_fresh s3 = addrs_fresh s2" "\<And>l. told l s3 = told l s2"
    using late_push [OF api] by metis
  have ok: "table_ok s3" "addrs_fresh s3"
    using inv2 s3(7,8) by (simp_all add: proxy_inv_def)
  have run: "call_schedule api task0 push_between
      (\<lambda>u. (Ready, case_bool [Send bA la, Send bB lb, Send bC lc] [Push c t pb] u), s) =
        Some (\<lambda>u. (Ready, []), stored task0 bC lc s3)"
    using inv inv2 s3(6)
    by (intro revived_schedule [OF fits _ _ push [unfolded s2_def s1_def]]) (simp_all add: proxy_inv_def)
  let ?s4 = "stored task0 bC lc s3"
  have "pending ?s4 = (pending s)(?i \<mapsto> (bA, la), ?i + 1 \<mapsto> (bC, lc))"
    using pending_stored_any [OF ok fits(3), of task0 lc] pending_stored [OF inv1 fits(2) mid(2), of task0 lb]
      pending_stored [OF inv fits(1) mid(1), of task0 la]
    by (simp add: s2_def [symmetric] s1_def [symmetric] s3 i1 fun_upd_upd)
  moreover have "told l ?s4 = told l s" for l
    by (simp add: told_def stored_sel) (simp add: s3(9) [unfolded told_def] s2_def s1_def stored_sel)
  moreover have "ctx_heap ?s4 (next_addr s + 3) \<noteq> None"
    by (simp add: stored_sel s3 s2_def s1_def numeral_eq_Suc)
  moreover have "getTaskConext j ?s4 \<noteq> Some (next_addr s + 3)" for j
    using entries_old [OF inv, of j "next_addr s + 3"]
    by (auto simp: getTaskConext_def stored_sel s3 s2_def s1_def split: option.split)
  ultimately show ?thesis
    using run by blast
qed

section \<open>Properties\<close>



text \<open>C11: \<open>OnPush\<close> takes ids on Mars's thread while the user's thread sends. A push that read
  the counter before two messages were sent and writes it back after them revives an id. The next
  message gets the id of the second one, which is still pending, and replaces it: the second message
  stays allocated without an entry, and its listener is neither told anything nor in flight.\<close>

theorem push_revives_message_id:
  assumes "reachable api task0 android s" and "unat (messageId s) + 1 < unat kSignallingKeeperTaskID"
    and "autobuffer_ok api" and "ab_length api pb < 2 ^ 31 - 12"
    and "body_fits bA" and "body_fits bB" and "body_fits bC" and "la \<noteq> Some l" and "lc \<noteq> Some l"
  shows "\<exists>s'. concurrent api task0
      (case_bool [Send bA la, Send bB (Some l), Send bC lc] [Push c t pb]) s (\<lambda>u. (Ready, []), s') \<and>
    pending s' = (pending s)(messageId s \<mapsto> (bA, la), messageId s + 1 \<mapsto> (bC, lc)) \<and>
    told l s' = told l s \<and> in_flight l s' \<subseteq> in_flight l s \<and>
    (\<exists>a. ctx_heap s' a \<noteq> None \<and> (\<nexists>j. getTaskConext j s' = Some a))"
proof -
  from revived_id [OF reachable_inv [OF assms(1)] assms(2-7), where lb = "Some l"]
  obtain s' where s': "call_schedule api task0 push_between
      (\<lambda>u. (Ready, case_bool [Send bA la, Send bB (Some l), Send bC lc] [Push c t pb] u), s) =
        Some (\<lambda>u. (Ready, []), s')"
    "pending s' = (pending s)(messageId s \<mapsto> (bA, la), messageId s + 1 \<mapsto> (bC, lc))"
    "told l s' = told l s" "ctx_heap s' (next_addr s + 3) \<noteq> None"
    "\<forall>j. getTaskConext j s' \<noteq> Some (next_addr s + 3)" by blast
  have "in_flight l s' \<subseteq> in_flight l s"
    using s'(2) assms(8,9) by (auto simp: in_flight_def split: if_splits)
  with s' call_schedule_concurrent [OF concurrent.start s'(1)] show ?thesis by blast
qed

theorem push_revives_message_id_witness:
  "\<exists>s'. concurrent list_buffer undefined
      (case_bool [Send [1] (Some 7), Send [2] (Some 8), Send [3] (Some 9)] [Push 0 0 ([4], 0)])
      initial_state (\<lambda>u. (Ready, []), s') \<and>
    pending s' = (pending initial_state)(messageId initial_state \<mapsto> ([1], Some 7),
      messageId initial_state + 1 \<mapsto> ([3], Some 9)) \<and>
    told 8 s' = told 8 initial_state \<and> in_flight 8 s' \<subseteq> in_flight 8 initial_state \<and>
    (\<exists>a. ctx_heap s' a \<noteq> None \<and> (\<nexists>j. getTaskConext j s' = Some a))"
  by (rule push_revives_message_id [OF reachable.start _ list_buffer_ok])
    (simp_all add: initial_state_def messageId_init_def kSignallingKeeperTaskID_def body_fits_def list_buffer_def)

end
