(* ===== verification/Http.thy ===== *)
theory Http imports AutoBuffer CLib begin

text \<open>
  The part of \<open>libs/mars/include/mars/comm/http.h\<close> that the header defines: the enumerations and
  version strings, the body provider over a buffer and the body receivers. The members the header
  only declares (\<open>Builder\<close>, \<open>HeaderFields\<close>, \<open>Parser\<close>) are compiled into the Mars library; what a
  builder is told is kept as the list of calls made on it, and turning it into bytes is a parameter
  of the operations that use it.
\<close>

section \<open>Enumerations\<close>

datatype THttpVersion = kVersion_0_9 | kVersion_1_0 | kVersion_1_1 | kVersion_2_0 | kVersion_Unknow

fun kHttpVersionString :: "THttpVersion \<Rightarrow> string" where
  "kHttpVersionString kVersion_0_9 = ''HTTP/0.9''"
| "kHttpVersionString kVersion_1_0 = ''HTTP/1.0''"
| "kHttpVersionString kVersion_1_1 = ''HTTP/1.1''"
| "kHttpVersionString kVersion_2_0 = ''HTTP/2''"
| "kHttpVersionString kVersion_Unknow = ''version_unknown''"

datatype TCsMode = kRequest | kRespond

datatype THttpMethod =
    kUnknown | kGet | kPost | kOptions | kHead | kPut | kDelete | kTrace | kConnect | kMax

text \<open>Header names and values the library names, and ordinary text.\<close>

datatype http_text =
    KStringUserAgent
  | KStringMicroMessenger
  | KStringContentLength
  | Text string

datatype builder_call =
    Method THttpMethod
  | Version THttpVersion
  | Url string
  | AcceptAll
  | CacheControlNoCache
  | ConnectionClose
  | HeaderFiled http_text http_text

section \<open>BufferBodyProvider\<close>

text \<open>\<open>has_ptr\<close> tells whether \<open>Ptr()\<close> of a buffer is not null. \<open>Data\<close> and \<open>FillData\<close> have the same
  body; the result is the answer, the target and the provider's own buffer.\<close>

definition provider_Data ::
    "'b autobuffer_api \<Rightarrow> ('b \<Rightarrow> bool) \<Rightarrow> 'b \<Rightarrow> 'b \<Rightarrow> bool \<times> 'b \<times> 'b" where
  "provider_Data api has_ptr buffer body =
     (if \<not> has_ptr buffer then (False, body, buffer)
      else (True, ab_write api body (ab_content api buffer), ab_reset api buffer))"

definition provider_FillData ::
    "'b autobuffer_api \<Rightarrow> ('b \<Rightarrow> bool) \<Rightarrow> 'b \<Rightarrow> 'b \<Rightarrow> bool \<times> 'b \<times> 'b" where
  "provider_FillData api has_ptr buffer body =
     (if \<not> has_ptr buffer then (False, body, buffer)
      else (True, ab_write api body (ab_content api buffer), ab_reset api buffer))"

definition provider_Length :: "'b autobuffer_api \<Rightarrow> 'b \<Rightarrow> nat" where
  "provider_Length api buffer = ab_length api buffer"

section \<open>Body receivers\<close>

record 'b body_receiver =
  total_length :: "64 word"
  receiver_body :: "'b"

definition BodyReceiver_new :: "'b \<Rightarrow> 'b body_receiver" where
  "BodyReceiver_new buf = \<lparr>total_length = 0, receiver_body = buf\<rparr>"

definition BodyReceiver_AppendData :: "byte list \<Rightarrow> 'b body_receiver \<Rightarrow> 'b body_receiver" where
  "BodyReceiver_AppendData bs r = r\<lparr>total_length := total_length r + of_nat (length bs)\<rparr>"

definition MemoryBodyReceiver_AppendData ::
    "'b autobuffer_api \<Rightarrow> byte list \<Rightarrow> 'b body_receiver \<Rightarrow> 'b body_receiver" where
  "MemoryBodyReceiver_AppendData api bs r =
     (let r = BodyReceiver_AppendData bs r
      in r\<lparr>receiver_body := ab_write api (receiver_body r) bs\<rparr>)"

definition BodyReceiver_EndData :: "'b body_receiver \<Rightarrow> 'b body_receiver" where
  "BodyReceiver_EndData r = r"

definition BodyReceiver_Length :: "'b body_receiver \<Rightarrow> 64 word" where
  "BodyReceiver_Length r = total_length r"

text \<open>The states of the library's parser.\<close>

datatype TRecvStatus =
    kStart
  | kFirstLine
  | kFirstLineError
  | kHeaderFields
  | kHeaderFieldsError
  | kBody
  | kBodyError
  | kEnd

section \<open>Lemmas\<close>

lemma autobuffer_write_pos:
  "autobuffer_ok api \<Longrightarrow> ab_pos api (ab_write api b bs) = ab_pos api b + length bs"
  by (simp add: autobuffer_ok_def)

lemma overwrite_end: "p = length c \<Longrightarrow> overwrite c p bs = c @ bs"
  by (simp add: overwrite_def)

text \<open>Writing at the end of a buffer appends, and leaves the position at the end.\<close>

definition at_end :: "'b autobuffer_api \<Rightarrow> 'b \<Rightarrow> bool" where
  "at_end api b \<longleftrightarrow> ab_pos api b = ab_length api b"

lemma at_end_empty: "autobuffer_ok api \<Longrightarrow> ab_empty api b \<Longrightarrow> at_end api b"
  by (simp add: at_end_def ab_empty_pos) (simp add: ab_empty_def)

lemma ab_write_at_end:
  assumes "autobuffer_ok api" and "at_end api b"
  shows "ab_content api (ab_write api b bs) = ab_content api b @ bs \<and> at_end api (ab_write api b bs)"
proof -
  have c: "ab_content api (ab_write api b bs) = ab_content api b @ bs"
    using assms by (simp add: ab_write_content overwrite_end ab_content_length at_end_def)
  then have "ab_length api (ab_write api b bs) = ab_length api b + length bs"
    using ab_content_length [OF assms(1), of "ab_write api b bs"] ab_content_length [OF assms(1), of b]
    by simp
  with c assms show ?thesis by (simp add: at_end_def autobuffer_write_pos)
qed

text \<open>A provider that was asked twice hands out its bytes once.\<close>

lemma provider_Data_twice:
  assumes "autobuffer_ok api" and "at_end api body"
    and "provider_Data api has_ptr buffer body = (True, body1, buffer1)"
    and "provider_Data api has_ptr buffer1 body1 = (again, body2, buffer2)"
  shows "ab_content api body2 = ab_content api body @ ab_content api buffer"
proof -
  have 1: "body1 = ab_write api body (ab_content api buffer)" "buffer1 = ab_reset api buffer"
    using assms(3) by (auto simp: provider_Data_def split: if_splits)
  have "ab_content api buffer1 = []"
    using assms(1) 1(2) by (simp add: autobuffer_ok_def)
  with assms(4) have "body2 = body1 \<or> body2 = ab_write api body1 []"
    by (auto simp: provider_Data_def split: if_splits)
  with 1 ab_write_at_end [OF assms(1,2)] ab_write_at_end [OF assms(1), of body1 "[]"] show ?thesis
    by auto
qed

lemma receiver_appends:
  assumes "autobuffer_ok api" and "at_end api (receiver_body r)"
  shows "ab_content api (receiver_body (fold (MemoryBodyReceiver_AppendData api) chunks r)) =
      ab_content api (receiver_body r) @ concat chunks \<and>
    total_length (fold (MemoryBodyReceiver_AppendData api) chunks r) =
      total_length r + of_nat (length (concat chunks))"
  using assms(2)
proof (induction chunks arbitrary: r)
  case (Cons c chunks)
  let ?r = "MemoryBodyReceiver_AppendData api c r"
  have "receiver_body ?r = ab_write api (receiver_body r) c" "total_length ?r = total_length r + of_nat (length c)"
    by (simp_all add: MemoryBodyReceiver_AppendData_def BodyReceiver_AppendData_def Let_def)
  with ab_write_at_end [OF assms(1) Cons.prems, of c] Cons.IH [of ?r] show ?case by simp
qed simp

section \<open>Properties\<close>

text \<open>A memory receiver holds the concatenation of the chunks it was given, whatever their
  number and sizes, and \<open>Length()\<close> is their total length modulo \<open>2^64\<close>.\<close>

theorem body_receiver_collects:
  assumes "autobuffer_ok api" and "ab_empty api buf"
  shows "ab_content api
      (receiver_body (fold (MemoryBodyReceiver_AppendData api) chunks (BodyReceiver_new buf))) =
      concat chunks \<and>
    total_length (fold (MemoryBodyReceiver_AppendData api) chunks (BodyReceiver_new buf)) =
      of_nat (length (concat chunks))"
  using receiver_appends [OF assms(1), of "BodyReceiver_new buf" chunks] at_end_empty [OF assms]
    ab_empty_content [OF assms(2)]
  by (simp add: BodyReceiver_new_def)

theorem body_receiver_collects_witness:
  "ab_content list_buffer
      (receiver_body (fold (MemoryBodyReceiver_AppendData list_buffer) [[1, 2], [3]]
        (BodyReceiver_new ([], 0)))) = concat [[1, 2], [3]] \<and>
    total_length (fold (MemoryBodyReceiver_AppendData list_buffer) [[1, 2], [3]]
      (BodyReceiver_new ([], 0))) = of_nat (length (concat [[1, 2], [3 :: byte]]))"
  by (rule body_receiver_collects) (simp_all add: list_buffer_ok ab_empty_def)

end
