(* ===== verification/ShortlinkPacker.thy ===== *)
theory ShortlinkPacker imports Http begin

text \<open>
  \<open>src/src/proxy/shortlink_packer.h\<close> and \<open>shortlink_packer.cpp\<close>: a task sent over the short link
  becomes an HTTP request. The calls made on the library's request builder are a list, in order;
  \<open>render\<close> stands for \<open>HeaderToBuffer\<close>, the bytes the library makes of them. The extra headers are the
  entries of the \<open>std::map\<close> in iteration order. The tracker is not used.
\<close>

definition is_post :: "string \<Rightarrow> bool" where
  "is_post url \<longleftrightarrow> CHR ''?'' \<notin> set url"

text \<open>\<open>snprintf(len_str, 32, "%u", (unsigned int)length)\<close>\<close>

definition len_str :: "nat \<Rightarrow> string" where
  "len_str n = take 31 (show_nat (unat (of_nat n :: u32)))"

definition shortlink_calls :: "string \<Rightarrow> (string \<times> string) list \<Rightarrow> nat \<Rightarrow> builder_call list" where
  "shortlink_calls url headers n =
     [Method (if is_post url then kPost else kGet), Version kVersion_1_1, AcceptAll,
      HeaderFiled KStringUserAgent KStringMicroMessenger, CacheControlNoCache, ConnectionClose] @
     map (\<lambda>(k, v). HeaderFiled (Text k) (Text v)) headers @
     [Url url] @
     (if is_post url
      then [HeaderFiled (Text ''Content-Type'') (Text ''application/json''),
            HeaderFiled KStringContentLength (Text (len_str n))]
      else [])"

definition shortlink_pack ::
    "'b autobuffer_api \<Rightarrow> (builder_call list \<Rightarrow> byte list) \<Rightarrow> string \<Rightarrow> (string \<times> string) list \<Rightarrow>
     'b \<Rightarrow> 'b \<Rightarrow> 'b" where
  "shortlink_pack api render url headers body out =
     (let out = ab_write api out (render (shortlink_calls url headers (ab_length api body)))
      in if is_post url then ab_write api out (ab_content api body) else out)"

section \<open>Lemmas\<close>

lemma len_str_exact: "len_str n = show_nat (n mod 2 ^ 32)"
proof -
  have "n mod 2 ^ 32 < 10 ^ Suc 9"
    by (rule less_le_trans [of _ "2 ^ 32"]) simp_all
  then have "length (show_nat (n mod 2 ^ 32)) \<le> 10"
    using show_nat_length [of "n mod 2 ^ 32" 9] by simp
  then show ?thesis
    by (simp add: len_str_def unat_of_nat take_bit_eq_mod)
qed

section \<open>Properties\<close>

text \<open>C29: a URL without a query is sent as a POST of the header block followed by the whole body, a URL
  with a query as a GET without any body. For a POST the last header set is \<open>Content-Length\<close>, and
  it reads back as the length of the body modulo \<open>2^32\<close>: the 32 byte array never cuts it.\<close>

theorem shortlink_pack_request:
  assumes "autobuffer_ok api" and "ab_empty api out"
  shows "ab_content api (shortlink_pack api render url headers body out) =
      render (shortlink_calls url headers (ab_length api body)) @
      (if CHR ''?'' \<in> set url then [] else ab_content api body) \<and>
    (if CHR ''?'' \<in> set url then hd (shortlink_calls url headers n) = Method kGet
      else hd (shortlink_calls url headers n) = Method kPost \<and>
        (\<exists>l. last (shortlink_calls url headers n) = HeaderFiled KStringContentLength (Text l) \<and>
          atoi l = int (n mod 2 ^ 32)))"
proof -
  note w = ab_write_at_end [OF assms(1)]
  have c: "ab_content api (shortlink_pack api render url headers body out) =
      render (shortlink_calls url headers (ab_length api body)) @
      (if CHR ''?'' \<in> set url then [] else ab_content api body)"
    using w [OF at_end_empty [OF assms]] w ab_empty_content [OF assms(2)]
    by (simp add: shortlink_pack_def is_post_def Let_def)
  have "show_nat k = show_int (int k)" for k
    by (simp add: show_int_def)
  then have "atoi (len_str n) = int (n mod 2 ^ 32)"
    by (simp add: len_str_exact atoi_show_int)
  then have "if CHR ''?'' \<in> set url then hd (shortlink_calls url headers n) = Method kGet
      else hd (shortlink_calls url headers n) = Method kPost \<and>
        (\<exists>l. last (shortlink_calls url headers n) = HeaderFiled KStringContentLength (Text l) \<and>
          atoi l = int (n mod 2 ^ 32))"
    by (simp add: shortlink_calls_def is_post_def)
  with c show ?thesis by blast
qed

theorem shortlink_pack_request_witness:
  "ab_content list_buffer (shortlink_pack list_buffer (\<lambda>cs. replicate (length cs) 0) ''/a'' []
      ([1, 2], 0) ([], 0)) =
      (\<lambda>cs. replicate (length cs) 0) (shortlink_calls ''/a'' [] (ab_length list_buffer ([1, 2], 0))) @
      (if CHR ''?'' \<in> set ''/a'' then [] else ab_content list_buffer ([1, 2], 0)) \<and>
    (if CHR ''?'' \<in> set ''/a'' then hd (shortlink_calls ''/a'' [] 2) = Method kGet
      else hd (shortlink_calls ''/a'' [] 2) = Method kPost \<and>
        (\<exists>l. last (shortlink_calls ''/a'' [] 2) = HeaderFiled KStringContentLength (Text l) \<and>
          atoi l = int (2 mod 2 ^ 32)))"
  by (rule shortlink_pack_request) (simp_all add: list_buffer_ok ab_empty_def)

end
