(* ===== verification/TcpClient.thy ===== *)
theory TcpClient imports Endian CLib begin

text \<open>
  \<open>src/demo/TcpEchoServer/TcpClient.h\<close> and \<open>TcpClient.cpp\<close>: a blocking TCP client and its \<open>main\<close>. The
  socket calls are a parameter on an abstract world. A client keeps a descriptor, 0 when it has
  none. Lines of output that do not depend on the run are left out of \<open>main\<close>'s model.
\<close>

record 'w net =
  net_socket :: "'w \<Rightarrow> int \<times> 'w"
  net_connect :: "int \<Rightarrow> u32 \<Rightarrow> byte list \<Rightarrow> 'w \<Rightarrow> int \<times> 'w"
  net_shutdown :: "int \<Rightarrow> 'w \<Rightarrow> 'w"
  net_send :: "int \<Rightarrow> byte list \<Rightarrow> 'w \<Rightarrow> int \<times> 'w"
  net_recv :: "int \<Rightarrow> nat \<Rightarrow> 'w \<Rightarrow> byte list option \<times> 'w"
  net_inet_addr :: "string \<Rightarrow> u32"

record tcp_client =
  cl_host :: string
  cl_port :: u16
  cl_socket_desc :: int
  cl_is_connected :: bool

definition TcpClient_new :: "string \<Rightarrow> u16 \<Rightarrow> tcp_client" where
  "TcpClient_new host port =
     \<lparr>cl_host = host, cl_port = port, cl_socket_desc = 0, cl_is_connected = False\<rparr>"

definition SocketShutdown :: "'w net \<Rightarrow> tcp_client \<Rightarrow> 'w \<Rightarrow> tcp_client \<times> 'w" where
  "SocketShutdown net c w =
     (let w = (if cl_socket_desc c > 0 then net_shutdown net (cl_socket_desc c) w else w)
      in (c\<lparr>cl_socket_desc := 0, cl_is_connected := False\<rparr>, w))"

definition TcpClient_delete :: "'w net \<Rightarrow> tcp_client \<Rightarrow> 'w \<Rightarrow> 'w" where
  "TcpClient_delete net c w = snd (SocketShutdown net c w)"

definition getHost :: "tcp_client \<Rightarrow> string" where
  "getHost c = cl_host c"

definition getPort :: "tcp_client \<Rightarrow> u16" where
  "getPort c = cl_port c"

definition IsConnected :: "tcp_client \<Rightarrow> bool" where
  "IsConnected c = cl_is_connected c"

definition Connect :: "'w net \<Rightarrow> tcp_client \<Rightarrow> 'w \<Rightarrow> bool \<times> tcp_client \<times> 'w" where
  "Connect net c w =
     (let (c, w) = SocketShutdown net c w;
          (fd, w) = net_socket net w;
          c = c\<lparr>cl_socket_desc := fd\<rparr>
      in if fd \<noteq> -1
         then let (r, w) = net_connect net fd (net_inet_addr net (cl_host c)) (be16 (cl_port c)) w;
                  c = c\<lparr>cl_is_connected := (r = 0)\<rparr>
              in (cl_is_connected c, c, w)
         else (cl_is_connected c, c, w))"

text \<open>\<open>send\<close> and \<open>recv\<close> return \<open>ssize_t\<close>; the wrappers return \<open>int\<close>, which the sizes here fit.\<close>

definition Send :: "'w net \<Rightarrow> tcp_client \<Rightarrow> byte list \<Rightarrow> 'w \<Rightarrow> int \<times> 'w" where
  "Send net c buffer w = net_send net (cl_socket_desc c) buffer w"

definition Recv :: "'w net \<Rightarrow> tcp_client \<Rightarrow> nat \<Rightarrow> 'w \<Rightarrow> byte list option \<times> 'w" where
  "Recv net c sz w = net_recv net (cl_socket_desc c) sz w"

definition SendInt :: "'w net \<Rightarrow> tcp_client \<Rightarrow> u32 \<Rightarrow> 'w \<Rightarrow> int \<times> 'w" where
  "SendInt net c v w = (let network_byte_order = be32 v in Send net c network_byte_order w)"

text \<open>\<open>puts\<close> on a block: the bytes before the first zero.\<close>

fun c_string :: "mem \<Rightarrow> byte list result" where
  "c_string [] = Inl OutOfBounds"
| "c_string (None # m) = Inl UninitRead"
| "c_string (Some c # m) = (if c = 0 then Inr [] else bnd (c_string m) (\<lambda>cs. Inr (c # cs)))"

definition bytes_of :: "string \<Rightarrow> byte list" where
  "bytes_of cs = map (\<lambda>c. of_nat (of_char c)) cs"

datatype client_line = ConnectFailed | ConnectOk | SendFailed | DataSend | RecvFailed | Reply "byte list"

text \<open>The last part of \<open>main\<close>: print the reply, received into an uninitialised array.\<close>

definition client_reply :: "byte list option \<Rightarrow> client_line result" where
  "client_reply r =
     (case r of
        None \<Rightarrow> Inr RecvFailed
      | Some bs \<Rightarrow>
          bnd (mem_write (malloc_block 2000) 0 bs) (\<lambda>server_reply.
          bnd (c_string server_reply) (\<lambda>shown. Inr (Reply shown))))"

text \<open>\<open>main\<close> with \<open>argv = [program, host, port, message]\<close>: the lines it prints and the final world.\<close>

definition client_main :: "'w net \<Rightarrow> string list \<Rightarrow> 'w \<Rightarrow> (client_line list \<times> 'w) result" where
  "client_main net argv w =
     (if length argv < 4 then Inl OutOfBounds
      else let c = TcpClient_new (argv ! 1) (word_of_int (atoi (argv ! 2)));
          msg = bytes_of (argv ! 3);
          (ok, c, w) = Connect net c w;
          l1 = (if \<not> ok then ConnectFailed else ConnectOk);
          (r, w) = SendInt net c (of_nat (length msg)) w;
          (failed, w) = (if r < 0 then (True, w)
                         else let (r, w) = Send net c msg w in (r < 0, w));
          l2 = (if failed then SendFailed else DataSend);
          (r, w) = Recv net c 2000 w
      in bnd (client_reply r) (\<lambda>l3. Inr ([l1, l2, l3], TcpClient_delete net c w)))"

section \<open>Lemmas\<close>

lemma c_string_init:
  "c_string (map Some bs @ m) =
     (if 0 \<in> set bs then Inr (takeWhile (\<lambda>c. c \<noteq> 0) bs)
      else bnd (c_string m) (\<lambda>cs. Inr (bs @ cs)))"
proof (induction bs)
  case Nil
  show ?case by (cases "c_string m") auto
next
  case (Cons b bs)
  then show ?case by (cases "c_string m") auto
qed

lemma c_string_uninit: "0 < n \<Longrightarrow> c_string (replicate n None) = Inl UninitRead"
  by (cases n) auto

text \<open>A client's fields are coherent: a connected client has a descriptor.\<close>

definition client_ok :: "tcp_client \<Rightarrow> bool" where
  "client_ok c \<longleftrightarrow> (cl_is_connected c \<longrightarrow> cl_socket_desc c \<noteq> -1)"

lemma client_ok_new: "client_ok (TcpClient_new h p)"
  by (simp add: client_ok_def TcpClient_new_def)

lemma client_ok_shutdown: "client_ok (fst (SocketShutdown net c w))"
  by (simp add: client_ok_def SocketShutdown_def Let_def)

lemma client_ok_connect: "client_ok (fst (snd (Connect net c w)))"
  by (simp add: client_ok_def Connect_def SocketShutdown_def Let_def split: prod.split)

text \<open>A world that records the calls.\<close>

datatype net_call = CSocket | CConnect int u32 "byte list" | CShutdown int | CSend int "byte list" | CRecv int nat

definition log_net :: "int \<Rightarrow> byte list option \<Rightarrow> net_call list net" where
  "log_net fd reply =
     \<lparr>net_socket = (\<lambda>w. (fd, w @ [CSocket])),
      net_connect = (\<lambda>fd a p w. (0, w @ [CConnect fd a p])),
      net_shutdown = (\<lambda>fd w. w @ [CShutdown fd]),
      net_send = (\<lambda>fd bs w. (int (length bs), w @ [CSend fd bs])),
      net_recv = (\<lambda>fd n w. (map_option (take n) reply, w @ [CRecv fd n])),
      net_inet_addr = (\<lambda>h. 0x0100007f)\<rparr>"

section \<open>Properties\<close>

text \<open>\<open>Connect\<close> first shuts down the socket it holds, then reports a connection exactly when the
  new socket exists and \<open>connect\<close> returned 0; the address is the client's host and its port in
  network byte order, and \<open>IsConnected\<close> agrees with the answer.\<close>

theorem Connect_outcome:
  "let w0 = (if cl_socket_desc c > 0 then net_shutdown net (cl_socket_desc c) w else w);
       (fd, w1) = net_socket net w0;
       (r, w2) = net_connect net fd (net_inet_addr net (cl_host c)) (be16 (cl_port c)) w1;
       (ok, c', w') = Connect net c w
   in ok = (fd \<noteq> -1 \<and> r = 0) \<and> IsConnected c' = ok \<and> client_ok c' \<and>
      c' = c\<lparr>cl_socket_desc := fd, cl_is_connected := ok\<rparr> \<and> w' = (if fd = -1 then w1 else w2)"
  by (auto simp: Connect_def SocketShutdown_def IsConnected_def client_ok_def Let_def
      split: prod.splits)

text \<open>C31: \<open>main\<close> prints the reply without a terminator of its own: a reply of fewer than 2000 bytes
  that contains no zero makes \<open>puts\<close> read the uninitialised rest of the buffer, one of exactly 2000
  bytes makes it read past the end. Only a reply that contains a zero is printed, up to it.\<close>

theorem client_main_reply:
  assumes "length argv \<ge> 4" and "\<And>fd w. fst (net_recv net fd 2000 w) = Some bs"
    and "length bs \<le> 2000"
  shows "if 0 \<in> set bs
    then \<exists>l1 l2 w'. client_main net argv w =
      Inr ([l1, l2, Reply (takeWhile (\<lambda>c. c \<noteq> 0) bs)], w')
    else client_main net argv w = Inl (if length bs < 2000 then UninitRead else OutOfBounds)"
proof -
  have wr: "mem_write (malloc_block 2000) 0 bs = Inr (map Some bs @ replicate (2000 - length bs) None)"
    using assms(3) by (simp add: mem_write_def malloc_block_def)
  have "c_string (replicate (2000 - length bs) None) =
      Inl (if length bs < 2000 then UninitRead else OutOfBounds)"
    using assms(3) by (simp add: c_string_uninit)
  with wr have r: "client_reply (Some bs) =
      (if 0 \<in> set bs then Inr (Reply (takeWhile (\<lambda>c. c \<noteq> 0) bs))
       else Inl (if length bs < 2000 then UninitRead else OutOfBounds))"
    by (simp add: client_reply_def c_string_init)
  obtain l1 l2 c w1 where "client_main net argv w =
      bnd (client_reply (fst (Recv net c 2000 w1)))
        (\<lambda>l3. Inr ([l1, l2, l3], TcpClient_delete net c (snd (Recv net c 2000 w1))))"
    using assms(1) unfolding client_main_def Let_def split_def by (simp only: not_less [symmetric] if_False)
  moreover have "fst (Recv net c 2000 w1) = Some bs"
    using assms(2) by (simp add: Recv_def)
  ultimately show ?thesis using r by auto
qed

theorem client_main_reply_witness:
  "if (0 :: byte) \<in> set [111, 107]
   then \<exists>l1 l2 w'. client_main (log_net 3 (Some [111, 107])) [''c'', ''127.0.0.1'', ''9001'', ''hi''] [] =
     Inr ([l1, l2, Reply (takeWhile (\<lambda>c. c \<noteq> 0) [111, 107])], w')
   else client_main (log_net 3 (Some [111, 107])) [''c'', ''127.0.0.1'', ''9001'', ''hi''] [] =
     Inl (if length [111, 107 :: byte] < 2000 then UninitRead else OutOfBounds)"
  by (rule client_main_reply) (simp_all add: log_net_def)

end
