(* ===== verification/EchoServer.thy ===== *)
theory EchoServer imports Endian Singleton CLib begin

unbundle bit_operations_syntax

text \<open>
  \<open>src/demo/TcpEchoServer/TcpEchoServer.h\<close> and \<open>TcpEchoServer.cpp\<close>: the echo server of the demo, an
  event loop over \<open>epoll\<close>. The system calls are a parameter, a record of functions on an abstract
  world; \<open>os_ok\<close> states the documented behaviour the loop relies on. \<open>os_interest\<close> is the set of events
  the process asked its epoll instance for, which the manual pages describe and no call returns.
  The infinite loop \<open>run\<close> is modelled round by round. A failing constructor of \<open>ServerHandler\<close> ends
  the process.
\<close>

section \<open>System calls\<close>

datatype epoll_op = EPOLL_CTL_ADD | EPOLL_CTL_MOD

definition EPOLLIN :: u32 where
  "EPOLLIN = 0x001"

definition EPOLLOUT :: u32 where
  "EPOLLOUT = 0x004"

definition EPOLLERR :: u32 where
  "EPOLLERR = 0x008"

definition EPOLLHUP :: u32 where
  "EPOLLHUP = 0x010"

definition O_NONBLOCK :: u32 where
  "O_NONBLOCK = 0x800"

lemmas epoll_flags = EPOLLIN_def EPOLLOUT_def EPOLLERR_def EPOLLHUP_def

text \<open>\<open>recv\<close> and \<open>epoll_wait\<close> return \<open>None\<close> for the result \<open>-1\<close>.\<close>

record 'w os =
  os_socket :: "'w \<Rightarrow> int \<times> 'w"
  os_bind :: "int \<Rightarrow> byte list \<Rightarrow> 'w \<Rightarrow> int \<times> 'w"
  os_listen :: "int \<Rightarrow> int \<Rightarrow> 'w \<Rightarrow> int \<times> 'w"
  os_getfl :: "int \<Rightarrow> 'w \<Rightarrow> u32 \<times> 'w"
  os_setfl :: "int \<Rightarrow> u32 \<Rightarrow> 'w \<Rightarrow> int \<times> 'w"
  os_accept :: "int \<Rightarrow> 'w \<Rightarrow> int \<times> 'w"
  os_recv :: "int \<Rightarrow> nat \<Rightarrow> 'w \<Rightarrow> byte list option \<times> 'w"
  os_send :: "int \<Rightarrow> byte list \<Rightarrow> 'w \<Rightarrow> int \<times> 'w"
  os_epoll_create1 :: "'w \<Rightarrow> int \<times> 'w"
  os_epoll_ctl :: "int \<Rightarrow> epoll_op \<Rightarrow> int \<Rightarrow> u32 \<Rightarrow> 'w \<Rightarrow> int \<times> 'w"
  os_epoll_wait :: "int \<Rightarrow> nat \<Rightarrow> 'w \<Rightarrow> (int \<times> u32) list option \<times> 'w"
  os_interest :: "'w \<Rightarrow> int \<Rightarrow> u32 option"

definition writable :: "u32 \<Rightarrow> bool" where
  "writable ev \<longleftrightarrow> ev AND EPOLLOUT \<noteq> 0"

definition os_ok :: "'w os \<Rightarrow> bool" where
  "os_ok os \<longleftrightarrow>
     (\<forall>fd n w. os_interest os (snd (os_recv os fd n w)) = os_interest os w \<and>
        (\<forall>bs. fst (os_recv os fd n w) = Some bs \<longrightarrow> length bs \<le> n)) \<and>
     (\<forall>fd bs w. os_interest os (snd (os_send os fd bs w)) = os_interest os w) \<and>
     (\<forall>fd w. os_interest os (snd (os_accept os fd w)) = os_interest os w \<and>
        os_interest os w (fst (os_accept os fd w)) = None) \<and>
     (\<forall>ep op fd ev w. os_interest os (snd (os_epoll_ctl os ep op fd ev w)) =
        (if fst (os_epoll_ctl os ep op fd ev w) < 0 then os_interest os w
         else (os_interest os w)(fd \<mapsto> ev))) \<and>
     (\<forall>ep n w. os_interest os (snd (os_epoll_wait os ep n w)) = os_interest os w \<and>
        (\<forall>evs. fst (os_epoll_wait os ep n w) = Some evs \<longrightarrow>
           length evs \<le> n \<and> distinct (map fst evs) \<and>
           (\<forall>(fd, ev) \<in> set evs. \<exists>m. os_interest os w fd = Some m \<and> (writable ev \<longrightarrow> writable m))))"

text \<open>Whether the peers never fill the receive buffer.\<close>

definition short_reads :: "'w os \<Rightarrow> nat \<Rightarrow> bool" where
  "short_reads os k \<longleftrightarrow> (\<forall>fd n w bs. fst (os_recv os fd n w) = Some bs \<longrightarrow> length bs < k)"

section \<open>State\<close>

text \<open>The constructor of \<open>EchoHandler\<close> leaves \<open>m_received\<close> and \<open>m_buffer\<close> uninitialised.\<close>

record echo_handler =
  eh_fd :: int
  m_received :: "int option"
  m_buffer :: mem

datatype handler =
    ServerHandler int
  | EchoHandler echo_handler

definition getFd :: "handler \<Rightarrow> int" where
  "getFd h = (case h of ServerHandler fd \<Rightarrow> fd | EchoHandler e \<Rightarrow> eh_fd e)"

record 'w echo_state =
  world :: 'w
  handlers :: "addr \<rightharpoonup> handler"
  next_handler :: addr
  m_instance :: ptr
  m_epollFd :: int
  m_socketHandlers :: "int \<rightharpoonup> addr"

definition MAX_EVENTS :: nat where
  "MAX_EVENTS = 5"

definition buffer_size :: nat where
  "buffer_size = 1000"

section \<open>SocketsListener\<close>

definition SocketsListener_singleInstance :: "'w os \<Rightarrow> 'w echo_state \<Rightarrow> addr \<times> 'w echo_state" where
  "SocketsListener_singleInstance os s =
     (case m_instance s of
        Some a \<Rightarrow> (a, s)
      | None \<Rightarrow>
          (let (ep, w) = os_epoll_create1 os (world s); a = next_handler s
           in (a, s\<lparr>world := w, m_epollFd := ep, m_socketHandlers := Map.empty,
                m_instance := Some a, next_handler := a + 1\<rparr>)))"

interpretation listener: singleton_get m_instance "SocketsListener_singleInstance os" for os
  by unfold_locales
    (auto simp: SocketsListener_singleInstance_def Let_def split: option.split prod.split)

definition addSocketHandler ::
    "'w os \<Rightarrow> int \<Rightarrow> u32 \<Rightarrow> addr \<Rightarrow> 'w echo_state \<Rightarrow> 'w echo_state" where
  "addSocketHandler os fd events handler s =
     (let s = s\<lparr>m_socketHandlers := (m_socketHandlers s)(fd \<mapsto> handler)\<rparr>;
          (rst, w) = os_epoll_ctl os (m_epollFd s) EPOLL_CTL_ADD fd events (world s)
      in s\<lparr>world := w\<rparr>)"

definition removeSocket :: "int \<Rightarrow> 'w echo_state \<Rightarrow> 'w echo_state" where
  "removeSocket fd s = s\<lparr>m_socketHandlers := (m_socketHandlers s)(fd := None)\<rparr>"

definition updateSocket :: "'w os \<Rightarrow> int \<Rightarrow> u32 \<Rightarrow> 'w echo_state \<Rightarrow> 'w echo_state" where
  "updateSocket os fd events s =
     (let (rst, w) = os_epoll_ctl os (m_epollFd s) EPOLL_CTL_MOD fd events (world s)
      in s\<lparr>world := w\<rparr>)"

section \<open>Handlers\<close>

definition new_handler :: "handler \<Rightarrow> 'w echo_state \<Rightarrow> addr \<times> 'w echo_state" where
  "new_handler h s = (next_handler s,
     s\<lparr>handlers := (handlers s)(next_handler s \<mapsto> h), next_handler := next_handler s + 1\<rparr>)"

definition EchoHandler_new :: "int \<Rightarrow> echo_handler" where
  "EchoHandler_new fd = \<lparr>eh_fd = fd, m_received = None, m_buffer = malloc_block buffer_size\<rparr>"

definition put_echo :: "addr \<Rightarrow> echo_handler \<Rightarrow> 'w echo_state \<Rightarrow> 'w echo_state" where
  "put_echo a h s = s\<lparr>handlers := (handlers s)(a \<mapsto> EchoHandler h)\<rparr>"

text \<open>The constructor of \<open>ServerHandler\<close>: \<open>Inl\<close> is \<open>exit\<close> with its code; the address it is given is not
  used, the server listens on every interface.\<close>

definition ServerHandler_new :: "'w os \<Rightarrow> string \<Rightarrow> int \<Rightarrow> 'w \<Rightarrow> int + (int \<times> 'w)" where
  "ServerHandler_new os ip port w =
     (let (fd, w) = os_socket os w
      in if fd < 0 then Inl 1
         else let (r, w) = os_bind os fd (be16 (word_of_int port)) w
              in if r < 0 then Inl 1
                 else let (r, w) = os_listen os fd 100 w
                      in if r < 0 then Inl 1
                         else let (flags, w) = os_getfl os fd w;
                                  (r, w) = os_setfl os fd (flags OR O_NONBLOCK) w
                              in Inr (fd, w))"

definition ServerHandler_handle :: "'w os \<Rightarrow> int \<Rightarrow> 'w echo_state \<Rightarrow> 'w echo_state" where
  "ServerHandler_handle os fd s =
     (let (client, w) = os_accept os fd (world s); s = s\<lparr>world := w\<rparr>
      in if client < 0 then s
         else let (h, s) = new_handler (EchoHandler (EchoHandler_new client)) s;
                  (l, s) = SocketsListener_singleInstance os s
              in addSocketHandler os client EPOLLIN h s)"

text \<open>The two halves of \<open>EchoHandler::handle\<close>.\<close>

definition echo_out :: "'w os \<Rightarrow> addr \<Rightarrow> echo_handler \<Rightarrow> 'w echo_state \<Rightarrow> (echo_handler \<times> 'w echo_state) result" where
  "echo_out os a h s =
     (case m_received h of
        None \<Rightarrow> Inl UninitRead
      | Some n \<Rightarrow>
          bnd (if n > 0
               then bnd (mem_read (m_buffer h) 0 (nat n)) (\<lambda>bs.
                    let (sent, w) = os_send os (eh_fd h) bs (world s) in Inr (s\<lparr>world := w\<rparr>))
               else Inr s) (\<lambda>s.
          let h = h\<lparr>m_received := Some 0\<rparr>;
              s = put_echo a h s;
              (l, s) = SocketsListener_singleInstance os s
          in Inr (h, updateSocket os (eh_fd h) EPOLLIN s)))"

definition echo_in :: "'w os \<Rightarrow> addr \<Rightarrow> echo_handler \<Rightarrow> 'w echo_state \<Rightarrow> 'w echo_state result" where
  "echo_in os a h s =
     (let (r, w) = os_recv os (eh_fd h) (length (m_buffer h)) (world s);
          s = s\<lparr>world := w\<rparr>
      in bnd (case r of
           None \<Rightarrow> Inr (h\<lparr>m_received := Some (-1)\<rparr>)
         | Some bs \<Rightarrow>
             bnd (mem_write (m_buffer h) 0 bs) (\<lambda>buf.
             let h = h\<lparr>m_received := Some (int (length bs)), m_buffer := buf\<rparr>
             in if length bs > 0
                then bnd (mem_write buf (length bs) [0]) (\<lambda>buf. Inr (h\<lparr>m_buffer := buf\<rparr>))
                else Inr h)) (\<lambda>h.
         let s = put_echo a h s;
             (l, s) = SocketsListener_singleInstance os s
         in if the (m_received h) > 0 then Inr (updateSocket os (eh_fd h) EPOLLOUT s)
            else Inr (removeSocket (eh_fd h) s)))"

definition EchoHandler_handle ::
    "'w os \<Rightarrow> addr \<Rightarrow> echo_handler \<Rightarrow> u32 \<Rightarrow> 'w echo_state \<Rightarrow> 'w echo_state result" where
  "EchoHandler_handle os a h ev s =
     (if ev AND EPOLLHUP \<noteq> 0 then
        let (l, s) = SocketsListener_singleInstance os s in Inr (removeSocket (eh_fd h) s)
      else if ev AND EPOLLERR \<noteq> 0 then Inr s
      else bnd (if ev AND EPOLLOUT \<noteq> 0 then echo_out os a h s else Inr (h, s)) (\<lambda>(h, s).
           if ev AND EPOLLIN \<noteq> 0 then echo_in os a h s else Inr s))"

definition handle :: "'w os \<Rightarrow> addr \<Rightarrow> u32 \<Rightarrow> 'w echo_state \<Rightarrow> 'w echo_state result" where
  "handle os a ev s =
     (case handlers s a of
        None \<Rightarrow> Inl UseAfterFree
      | Some (ServerHandler fd) \<Rightarrow> Inr (ServerHandler_handle os fd s)
      | Some (EchoHandler h) \<Rightarrow> EchoHandler_handle os a h ev s)"

section \<open>The loop\<close>

definition dispatch :: "'w os \<Rightarrow> int \<times> u32 \<Rightarrow> 'w echo_state \<Rightarrow> 'w echo_state result" where
  "dispatch os e s =
     (case m_socketHandlers s (fst e) of None \<Rightarrow> Inr s | Some h \<Rightarrow> handle os h (snd e) s)"

primrec run_events :: "('e \<Rightarrow> 's \<Rightarrow> 's result) \<Rightarrow> 'e list \<Rightarrow> 's \<Rightarrow> 's result" where
  "run_events f [] s = Inr s"
| "run_events f (e # es) s = bnd (f e s) (run_events f es)"

definition run_round :: "'w os \<Rightarrow> 'w echo_state \<Rightarrow> 'w echo_state result" where
  "run_round os s =
     (let (events, w) = os_epoll_wait os (m_epollFd s) MAX_EVENTS (world s);
          s = s\<lparr>world := w\<rparr>
      in case events of None \<Rightarrow> Inr s | Some evs \<Rightarrow> run_events (dispatch os) evs s)"

primrec run :: "'w os \<Rightarrow> nat \<Rightarrow> 'w echo_state \<Rightarrow> 'w echo_state result" where
  "run os 0 s = Inr s"
| "run os (Suc n) s = bnd (run_round os s) (run os n)"

text \<open>\<open>main\<close> up to the call of \<open>run\<close>: the process ends with a code, or the listener holds the server
  socket. \<open>argc\<close> is the length of \<open>argv\<close>.\<close>

definition echo_initial :: "'w \<Rightarrow> 'w echo_state" where
  "echo_initial w = \<lparr>world = w, handlers = Map.empty, next_handler = 1, m_instance = None,
     m_epollFd = 0, m_socketHandlers = Map.empty\<rparr>"

definition echo_main :: "'w os \<Rightarrow> string list \<Rightarrow> 'w \<Rightarrow> int + 'w echo_state" where
  "echo_main os argv w =
     (if length argv \<noteq> 2 then Inl (-1)
      else let port = atoi (argv ! 1)
           in case ServerHandler_new os ''39.106.56.27'' port w of
                Inl code \<Rightarrow> Inl code
              | Inr (fd, w) \<Rightarrow>
                  (let (server, s) = new_handler (ServerHandler fd) (echo_initial w);
                       (listener, s) = SocketsListener_singleInstance os s
                   in Inr (addSocketHandler os fd EPOLLIN server s)))"

section \<open>The loop invariant\<close>

text \<open>
  A handler that may be called for writing has received something, or nothing is left to send:
  its buffer holds as many written cells as \<open>m_received\<close> says.
\<close>

definition armed :: "(int \<Rightarrow> u32 option) \<Rightarrow> handler \<Rightarrow> bool" where
  "armed I h =
     (case h of
        ServerHandler fd \<Rightarrow> True
      | EchoHandler e \<Rightarrow>
          length (m_buffer e) = buffer_size \<and>
          (case I (eh_fd e) of
             None \<Rightarrow> True
           | Some m \<Rightarrow> writable m \<longrightarrow>
               (\<exists>n. m_received e = Some n \<and> nat n \<le> buffer_size \<and>
                    None \<notin> set (take (nat n) (m_buffer e)))))"

definition echo_inv :: "'w os \<Rightarrow> 'w echo_state \<Rightarrow> bool" where
  "echo_inv os s \<longleftrightarrow>
     m_instance s \<noteq> None \<and>
     (\<forall>a \<in> dom (handlers s). a < next_handler s) \<and>
     (\<forall>fd a. m_socketHandlers s fd = Some a \<longrightarrow>
        (\<exists>h. handlers s a = Some h \<and> getFd h = fd \<and> armed (os_interest os (world s)) h))"

definition ready :: "'w os \<Rightarrow> 'w echo_state \<Rightarrow> int \<times> u32 \<Rightarrow> bool" where
  "ready os s e \<longleftrightarrow>
     (\<exists>m. os_interest os (world s) (fst e) = Some m \<and> (writable (snd e) \<longrightarrow> writable m))"

text \<open>The contract of one step of an event loop, and what it gives for a batch of events.\<close>

locale event_loop =
  fixes inv :: "'s \<Rightarrow> bool" and due :: "'s \<Rightarrow> 'e \<Rightarrow> bool" and key :: "'e \<Rightarrow> 'k"
    and step :: "'e \<Rightarrow> 's \<Rightarrow> 's result"
  assumes step_ok: "inv s \<Longrightarrow> due s e \<Longrightarrow>
    \<exists>s'. step e s = Inr s' \<and> inv s' \<and> (\<forall>e'. key e' \<noteq> key e \<longrightarrow> due s e' \<longrightarrow> due s' e')"
begin

lemma batch_ok:
  "inv s \<Longrightarrow> distinct (map key es) \<Longrightarrow> \<forall>e \<in> set es. due s e \<Longrightarrow>
     \<exists>s'. run_events step es s = Inr s' \<and> inv s'"
proof (induction es arbitrary: s)
  case (Cons e es)
  from step_ok [of s e] Cons.prems obtain s1 where s1: "step e s = Inr s1" "inv s1"
    "\<And>e'. key e' \<noteq> key e \<Longrightarrow> due s e' \<Longrightarrow> due s1 e'" by auto
  have "\<forall>e' \<in> set es. due s1 e'"
    using Cons.prems(2,3) s1(3) by (metis distinct.simps(2) image_eqI list.set_intros(2) list.set_map list.simps(9))
  with Cons.IH [OF s1(2)] Cons.prems(2) s1(1) show ?case by auto
qed simp

end

text \<open>What the system calls do to the registered events.\<close>

lemma os_interest_simps:
  assumes "os_ok os"
  shows "os_interest os (snd (os_recv os fd n w)) = os_interest os w"
    and "os_interest os (snd (os_send os fd bs w)) = os_interest os w"
    and "os_interest os (snd (os_accept os fd w)) = os_interest os w"
    and "os_interest os w (fst (os_accept os fd w)) = None"
    and "os_interest os (snd (os_epoll_wait os ep k w)) = os_interest os w"
    and "os_interest os (snd (os_epoll_ctl os ep op fd ev w)) =
      (if fst (os_epoll_ctl os ep op fd ev w) < 0 then os_interest os w
       else (os_interest os w)(fd \<mapsto> ev))"
  using assms by (simp_all add: os_ok_def)

lemma os_recv_length: "os_ok os \<Longrightarrow> os_recv os fd n w = (Some bs, w') \<Longrightarrow> length bs \<le> n"
  unfolding os_ok_def by (metis fst_conv)

lemma singleInstance_existing:
  "m_instance s = Some a \<Longrightarrow> SocketsListener_singleInstance os s = (a, s)"
  by (rule listener.get_existing)

lemma not_writable_EPOLLIN [simp]: "\<not> writable EPOLLIN"
  by (simp add: writable_def epoll_flags)

lemma writable_EPOLLOUT [simp]: "writable EPOLLOUT"
  by (simp add: writable_def epoll_flags)

lemma armed_cong: "I (getFd h) = J (getFd h) \<Longrightarrow> armed I h = armed J h"
  by (cases h) (simp_all add: armed_def getFd_def)

text \<open>One handler and the events of its descriptor may change.\<close>

lemma echo_inv_update:
  assumes "echo_inv os s" and "handlers s a = Some (EchoHandler h)"
    and "m_socketHandlers s (eh_fd h) = Some a"
    and "\<And>fd. fd \<noteq> eh_fd h \<Longrightarrow> os_interest os w fd = os_interest os (world s) fd"
    and "eh_fd h' = eh_fd h" and "armed (os_interest os w) (EchoHandler h')"
  shows "echo_inv os (put_echo a h' s\<lparr>world := w\<rparr>)"
proof -
  have "\<exists>h2. handlers (put_echo a h' s) b = Some h2 \<and> getFd h2 = fd \<and> armed (os_interest os w) h2"
    if t: "m_socketHandlers s fd = Some b" for fd b
  proof (cases "b = a")
    case True
    with t assms(1,2) have "fd = eh_fd h"
      by (force simp: echo_inv_def getFd_def)
    with True assms(5,6) show ?thesis
      by (simp add: put_echo_def getFd_def)
  next
    case False
    with t assms(1) obtain h2 where h2: "handlers s b = Some h2" "getFd h2 = fd"
      "armed (os_interest os (world s)) h2" unfolding echo_inv_def by blast
    have "fd \<noteq> eh_fd h"
      using False t assms(3) by auto
    with h2 False show ?thesis
      using armed_cong [of "os_interest os w" h2 "os_interest os (world s)"] assms(4)
      by (simp add: put_echo_def)
  qed
  with assms(1,2) show ?thesis
    by (auto simp: echo_inv_def put_echo_def)
qed

lemma echo_inv_remove: "echo_inv os s \<Longrightarrow> echo_inv os (removeSocket fd s)"
  by (simp add: echo_inv_def removeSocket_def)

lemma put_echo_sel [simp]:
  "handlers (put_echo a h s) = (handlers s)(a \<mapsto> EchoHandler h)"
  "world (put_echo a h s) = world s"
  "m_instance (put_echo a h s) = m_instance s"
  "m_socketHandlers (put_echo a h s) = m_socketHandlers s"
  "next_handler (put_echo a h s) = next_handler s"
  "m_epollFd (put_echo a h s) = m_epollFd s"
  by (simp_all add: put_echo_def)

text \<open>The first half leaves the handler drained, and other descriptors alone.\<close>

definition only_fd :: "'w os \<Rightarrow> int \<Rightarrow> 'w echo_state \<Rightarrow> 'w echo_state \<Rightarrow> bool" where
  "only_fd os fd s s' \<longleftrightarrow>
     (\<forall>fd'. fd' \<noteq> fd \<longrightarrow> os_interest os (world s') fd' = os_interest os (world s) fd')"

lemma armed_drained:
  "length (m_buffer h) = buffer_size \<Longrightarrow> n \<le> 0 \<Longrightarrow>
     armed I (EchoHandler (h\<lparr>m_received := Some n\<rparr>))"
  by (simp add: armed_def split: option.split)

lemma echo_inv_handler:
  assumes "echo_inv os s" and "m_socketHandlers s fd = Some a"
  obtains h where "handlers s a = Some h" "getFd h = fd" "armed (os_interest os (world s)) h"
  using assms unfolding echo_inv_def by blast

text \<open>What the two halves of the handler compute when they do not fault.\<close>

lemma echo_out_eq:
  assumes "m_instance s = Some l" and "m_received h = Some n"
    and "nat n \<le> length (m_buffer h)" and "None \<notin> set (take (nat n) (m_buffer h))"
  shows "echo_out os a h s = Inr (h\<lparr>m_received := Some 0\<rparr>,
    put_echo a (h\<lparr>m_received := Some 0\<rparr>) s\<lparr>world :=
      snd (os_epoll_ctl os (m_epollFd s) EPOLL_CTL_MOD (eh_fd h) EPOLLIN
        (if n > 0 then snd (os_send os (eh_fd h) (map the (take (nat n) (m_buffer h))) (world s))
         else world s))\<rparr>)"
  using assms
  by (simp add: echo_out_def mem_read_def singleInstance_existing updateSocket_def Let_def
      put_echo_def split: prod.split)

lemma echo_in_end_eq:
  assumes "m_instance s = Some l" and "os_recv os (eh_fd h) (length (m_buffer h)) (world s) = (r, w)"
    and "r = None \<or> r = Some []"
  shows "echo_in os a h s = Inr (removeSocket (eh_fd h)
    (put_echo a (h\<lparr>m_received := Some (if r = None then -1 else 0)\<rparr>) s\<lparr>world := w\<rparr>))"
  using assms
  by (auto simp: echo_in_def Let_def singleInstance_existing put_echo_def removeSocket_def mem_write_def)

definition echo_filled :: "byte list \<Rightarrow> echo_handler \<Rightarrow> echo_handler" where
  "echo_filled bs h = h\<lparr>m_received := Some (int (length bs)),
     m_buffer := map Some bs @ Some 0 # drop (Suc (length bs)) (m_buffer h)\<rparr>"

lemma echo_in_data_eq:
  assumes "m_instance s = Some l"
    and "os_recv os (eh_fd h) (length (m_buffer h)) (world s) = (Some bs, w)"
    and "bs \<noteq> []" and "length bs < length (m_buffer h)"
  shows "echo_in os a h s = Inr (put_echo a (echo_filled bs h) s\<lparr>world :=
    snd (os_epoll_ctl os (m_epollFd s) EPOLL_CTL_MOD (eh_fd h) EPOLLOUT w)\<rparr>)"
  using assms
  by (simp add: echo_in_def Let_def singleInstance_existing put_echo_def updateSocket_def
      mem_write_def echo_filled_def split: prod.split)

lemma echo_out_ok:
  assumes "os_ok os" and "echo_inv os s" and "handlers s a = Some (EchoHandler h)"
    and "m_socketHandlers s (eh_fd h) = Some a"
    and "os_interest os (world s) (eh_fd h) = Some m" and "writable m"
  shows "\<exists>h' s'. echo_out os a h s = Inr (h', s') \<and> echo_inv os s' \<and> only_fd os (eh_fd h) s s' \<and>
    handlers s' a = Some (EchoHandler h') \<and> eh_fd h' = eh_fd h \<and>
    length (m_buffer h') = buffer_size \<and> m_socketHandlers s' = m_socketHandlers s"
proof -
  obtain l where l: "m_instance s = Some l"
    using assms(2) by (auto simp: echo_inv_def)
  have "armed (os_interest os (world s)) (EchoHandler h)"
    using echo_inv_handler [OF assms(2,4)] assms(3) by force
  then obtain n where n: "m_received h = Some n" "nat n \<le> buffer_size"
    "None \<notin> set (take (nat n) (m_buffer h))" and len: "length (m_buffer h) = buffer_size"
    using assms(5,6) by (auto simp: armed_def)
  define w1 where "w1 = (if n > 0
    then snd (os_send os (eh_fd h) (map the (take (nat n) (m_buffer h))) (world s)) else world s)"
  define w2 where "w2 = snd (os_epoll_ctl os (m_epollFd s) EPOLL_CTL_MOD (eh_fd h) EPOLLIN w1)"
  have "echo_out os a h s = Inr (h\<lparr>m_received := Some 0\<rparr>,
      put_echo a (h\<lparr>m_received := Some 0\<rparr>) s\<lparr>world := w2\<rparr>)"
    using echo_out_eq [OF l n(1), of os a] n len by (simp add: w1_def w2_def)
  moreover have I: "os_interest os w2 fd = os_interest os (world s) fd" if "fd \<noteq> eh_fd h" for fd
    using that by (simp add: w1_def w2_def os_interest_simps [OF assms(1)])
  moreover have "echo_inv os (put_echo a (h\<lparr>m_received := Some 0\<rparr>) s\<lparr>world := w2\<rparr>)"
    using I len by (intro echo_inv_update [OF assms(2,3,4)] armed_drained) simp_all
  ultimately show ?thesis
    using len by (auto simp: only_fd_def)
qed

text \<open>The second half, when the buffer is not filled up.\<close>

lemma armed_filled:
  assumes "length (m_buffer h) = buffer_size" and "length bs < buffer_size"
  shows "armed I (EchoHandler (echo_filled bs h))"
  using assms by (auto simp: armed_def echo_filled_def split: option.split)

lemma echo_filled_fd [simp]: "eh_fd (echo_filled bs h) = eh_fd h"
  by (simp add: echo_filled_def)

lemma echo_in_ok:
  assumes "os_ok os" and "short_reads os buffer_size" and "echo_inv os s"
    and "handlers s a = Some (EchoHandler h)" and "m_socketHandlers s (eh_fd h) = Some a"
    and "length (m_buffer h) = buffer_size"
  shows "\<exists>s'. echo_in os a h s = Inr s' \<and> echo_inv os s' \<and> only_fd os (eh_fd h) s s'"
proof -
  obtain l where l: "m_instance s = Some l"
    using assms(3) by (auto simp: echo_inv_def)
  obtain r w1 where rw: "os_recv os (eh_fd h) buffer_size (world s) = (r, w1)"
    by (cases "os_recv os (eh_fd h) buffer_size (world s)")
  have w1: "os_interest os w1 = os_interest os (world s)"
    using os_interest_simps(1) [OF assms(1), of "eh_fd h" buffer_size "world s"] rw by simp
  show ?thesis
  proof (cases "r = None \<or> r = Some []")
    case True
    define n where "n = (if r = None then -1 else 0 :: int)"
    have "echo_in os a h s =
        Inr (removeSocket (eh_fd h) (put_echo a (h\<lparr>m_received := Some n\<rparr>) s\<lparr>world := w1\<rparr>))"
      using echo_in_end_eq [OF l, of os h r w1 a] True rw assms(6) by (simp add: n_def)
    moreover have "echo_inv os (put_echo a (h\<lparr>m_received := Some n\<rparr>) s\<lparr>world := w1\<rparr>)"
      using w1 assms(6) by (intro echo_inv_update [OF assms(3,4,5)] armed_drained) (simp_all add: n_def)
    ultimately show ?thesis
      using w1 echo_inv_remove by (fastforce simp: only_fd_def removeSocket_def)
  next
    case False
    then obtain bs where bs: "r = Some bs" "bs \<noteq> []" by (cases r) auto
    have short: "length bs < buffer_size"
      using assms(2) rw bs(1) unfolding short_reads_def by (metis fst_conv)
    define w2 where "w2 = snd (os_epoll_ctl os (m_epollFd s) EPOLL_CTL_MOD (eh_fd h) EPOLLOUT w1)"
    have "echo_in os a h s = Inr (put_echo a (echo_filled bs h) s\<lparr>world := w2\<rparr>)"
      using echo_in_data_eq [OF l, of os h bs w1 a] rw bs short assms(6) by (simp add: w2_def)
    moreover have I: "os_interest os w2 fd = os_interest os (world s) fd" if "fd \<noteq> eh_fd h" for fd
      using that by (simp add: w2_def w1 os_interest_simps [OF assms(1)])
    moreover have "echo_inv os (put_echo a (echo_filled bs h) s\<lparr>world := w2\<rparr>)"
      using I short assms(6) by (intro echo_inv_update [OF assms(3,4,5)] armed_filled) simp_all
    ultimately show ?thesis by (auto simp: only_fd_def)
  qed
qed

lemma only_fd_trans: "only_fd os fd s s1 \<Longrightarrow> only_fd os fd s1 s2 \<Longrightarrow> only_fd os fd s s2"
  by (simp add: only_fd_def)

lemma EchoHandler_handle_ok:
  assumes "os_ok os" and "short_reads os buffer_size" and "echo_inv os s"
    and "handlers s a = Some (EchoHandler h)" and "m_socketHandlers s (eh_fd h) = Some a"
    and "ready os s (eh_fd h, ev)"
  shows "\<exists>s'. EchoHandler_handle os a h ev s = Inr s' \<and> echo_inv os s' \<and> only_fd os (eh_fd h) s s'"
proof -
  obtain l where l: "m_instance s = Some l"
    using assms(3) by (auto simp: echo_inv_def)
  have len: "length (m_buffer h) = buffer_size"
    using echo_inv_handler [OF assms(3,5)] assms(4) by (force simp: armed_def)
  have "\<exists>h' s'. (if ev AND EPOLLOUT \<noteq> 0 then echo_out os a h s else Inr (h, s)) = Inr (h', s') \<and>
      echo_inv os s' \<and> only_fd os (eh_fd h) s s' \<and> handlers s' a = Some (EchoHandler h') \<and>
      eh_fd h' = eh_fd h \<and> length (m_buffer h') = buffer_size \<and> m_socketHandlers s' = m_socketHandlers s"
  proof (cases "writable ev")
    case True
    with assms(6) obtain m where m: "os_interest os (world s) (eh_fd h) = Some m" "writable m"
      by (auto simp: ready_def)
    from echo_out_ok [OF assms(1,3,4,5) m] True show ?thesis
      by (simp add: writable_def)
  next
    case False
    with len assms(3,4) show ?thesis
      by (simp add: writable_def only_fd_def)
  qed
  then obtain h' s' where s': "(if ev AND EPOLLOUT \<noteq> 0 then echo_out os a h s else Inr (h, s)) = Inr (h', s')"
    "echo_inv os s'" "only_fd os (eh_fd h) s s'" "handlers s' a = Some (EchoHandler h')"
    "eh_fd h' = eh_fd h" "length (m_buffer h') = buffer_size" "m_socketHandlers s' = m_socketHandlers s"
    by blast
  obtain s2 where "echo_in os a h' s' = Inr s2" "echo_inv os s2" "only_fd os (eh_fd h) s' s2"
    using echo_in_ok [OF assms(1,2) s'(2,4) _ s'(6)] s'(5,7) assms(5) by auto
  with s' l assms(3) only_fd_trans [OF s'(3)] echo_inv_remove [OF assms(3)] show ?thesis
    unfolding EchoHandler_handle_def
    by (auto simp: singleInstance_existing only_fd_def removeSocket_def)
qed

lemma ServerHandler_handle_eq:
  assumes "m_instance s = Some l" and "os_accept os fd (world s) = (c, w)"
  shows "ServerHandler_handle os fd s = (if c < 0 then s\<lparr>world := w\<rparr>
    else s\<lparr>handlers := (handlers s)(next_handler s \<mapsto> EchoHandler (EchoHandler_new c)),
      next_handler := next_handler s + 1, m_socketHandlers := (m_socketHandlers s)(c \<mapsto> next_handler s),
      world := snd (os_epoll_ctl os (m_epollFd s) EPOLL_CTL_ADD c EPOLLIN w)\<rparr>)"
  using assms
  by (simp add: ServerHandler_handle_def new_handler_def singleInstance_existing addSocketHandler_def
      Let_def split: prod.split)

lemma ServerHandler_handle_ok:
  assumes "os_ok os" and "echo_inv os s"
  shows "echo_inv os (ServerHandler_handle os fd s)"
    and "ready os s e \<Longrightarrow> ready os (ServerHandler_handle os fd s) e"
proof -
  obtain l where l: "m_instance s = Some l"
    using assms(2) by (auto simp: echo_inv_def)
  obtain c w1 where cw: "os_accept os fd (world s) = (c, w1)"
    by (cases "os_accept os fd (world s)")
  have w1: "os_interest os w1 = os_interest os (world s)" "os_interest os (world s) c = None"
    using os_interest_simps(3) [OF assms(1), of fd "world s"]
      os_interest_simps(4) [OF assms(1), of "world s" fd] cw by simp_all
  define w2 where "w2 = snd (os_epoll_ctl os (m_epollFd s) EPOLL_CTL_ADD c EPOLLIN w1)"
  have I: "os_interest os w2 = os_interest os (world s) \<or>
      os_interest os w2 = (os_interest os (world s))(c \<mapsto> EPOLLIN)"
    by (simp add: w2_def w1 os_interest_simps [OF assms(1)])
  let ?t = "s\<lparr>handlers := (handlers s)(next_handler s \<mapsto> EchoHandler (EchoHandler_new c)),
    next_handler := next_handler s + 1, m_socketHandlers := (m_socketHandlers s)(c \<mapsto> next_handler s),
    world := w2\<rparr>"
  have eq: "ServerHandler_handle os fd s = (if c < 0 then s\<lparr>world := w1\<rparr> else ?t)"
    using ServerHandler_handle_eq [OF l cw] by (simp add: w2_def)
  have new: "armed (os_interest os w2) (EchoHandler (EchoHandler_new c))"
    using I w1(2) by (auto simp: armed_def EchoHandler_new_def)
  have old: "armed (os_interest os w2) h"
    if "armed (os_interest os (world s)) h" "getFd h \<noteq> c" for h
    using that I armed_cong [of "os_interest os w2" h "os_interest os (world s)"] by auto
  have fresh: "b \<noteq> next_handler s" if "handlers s b = Some h" for b h
    using assms(2) that by (auto simp: echo_inv_def)
  have "\<exists>h. handlers ?t b = Some h \<and> getFd h = fd' \<and> armed (os_interest os (world ?t)) h"
    if "m_socketHandlers ?t fd' = Some b" for fd' b
  proof (cases "fd' = c")
    case True
    with that new show ?thesis
      by (simp add: getFd_def EchoHandler_new_def)
  next
    case False
    with that have "m_socketHandlers s fd' = Some b" by simp
    from echo_inv_handler [OF assms(2) this] obtain h where "handlers s b = Some h" "getFd h = fd'"
      "armed (os_interest os (world s)) h" .
    with fresh old False show ?thesis by auto
  qed
  then have "echo_inv os ?t"
    using assms(2) l by (auto simp: echo_inv_def less_Suc_eq)
  moreover have "echo_inv os (s\<lparr>world := w1\<rparr>)"
    using assms(2) w1(1) by (simp add: echo_inv_def)
  ultimately show "echo_inv os (ServerHandler_handle os fd s)"
    using eq by simp
  show "ready os (ServerHandler_handle os fd s) e" if "ready os s e"
    using that I w1 unfolding eq by (auto simp: ready_def)
qed

lemma dispatch_ok:
  assumes "os_ok os" and "short_reads os buffer_size" and "echo_inv os s" and "ready os s e"
  shows "\<exists>s'. dispatch os e s = Inr s' \<and> echo_inv os s' \<and>
    (\<forall>e'. fst e' \<noteq> fst e \<longrightarrow> ready os s e' \<longrightarrow> ready os s' e')"
proof (cases "m_socketHandlers s (fst e)")
  case None
  with assms(3) show ?thesis by (simp add: dispatch_def)
next
  case (Some a)
  obtain h where h: "handlers s a = Some h" "getFd h = fst e"
    using echo_inv_handler [OF assms(3) Some] by blast
  show ?thesis
  proof (cases h)
    case (ServerHandler fd)
    with Some h ServerHandler_handle_ok(1) [OF assms(1,3), of fd]
      ServerHandler_handle_ok(2) [OF assms(1,3), of _ fd] show ?thesis
      by (simp add: dispatch_def handle_def)
  next
    case (EchoHandler eh)
    with h have fd: "eh_fd eh = fst e"
      by (simp add: getFd_def)
    have "m_socketHandlers s (eh_fd eh) = Some a" "ready os s (eh_fd eh, snd e)"
      using Some fd assms(4) by simp_all
    from EchoHandler_handle_ok [OF assms(1,2,3) h(1) [unfolded EchoHandler] this]
    show ?thesis
      using Some h EchoHandler fd by (auto simp: dispatch_def handle_def only_fd_def ready_def)
  qed
qed

text \<open>The contract of the event loop holds for the server on every system that keeps \<open>os_ok\<close>; a
  system that breaks the hypotheses makes the loop's invariant false.\<close>

interpretation echo_loop: event_loop
  "\<lambda>s. os_ok os \<and> short_reads os buffer_size \<and> echo_inv os s" "ready os" fst "dispatch os" for os
  by unfold_locales (use dispatch_ok in blast)

lemma os_wait_events:
  assumes "os_ok os" and "os_epoll_wait os ep n w = (Some evs, w')"
  shows "distinct (map fst evs) \<and>
    (\<forall>e \<in> set evs. \<exists>m. os_interest os w (fst e) = Some m \<and> (writable (snd e) \<longrightarrow> writable m))"
proof -
  from assms(1) have "\<forall>ep n w. os_interest os (snd (os_epoll_wait os ep n w)) = os_interest os w \<and>
        (\<forall>evs. fst (os_epoll_wait os ep n w) = Some evs \<longrightarrow>
           length evs \<le> n \<and> distinct (map fst evs) \<and>
           (\<forall>(fd, ev) \<in> set evs. \<exists>m. os_interest os w fd = Some m \<and> (writable ev \<longrightarrow> writable m)))"
    unfolding os_ok_def by (elim conjE)
  from spec [OF spec [OF spec [OF this, of ep], of n], of w] assms(2) show ?thesis
    by (auto simp: split_def)
qed

lemma run_round_ok:
  assumes "os_ok os" and "short_reads os buffer_size" and "echo_inv os s"
  shows "\<exists>s'. run_round os s = Inr s' \<and> echo_inv os s'"
proof -
  obtain r w where rw: "os_epoll_wait os (m_epollFd s) MAX_EVENTS (world s) = (r, w)"
    by (cases "os_epoll_wait os (m_epollFd s) MAX_EVENTS (world s)")
  have w: "os_interest os w = os_interest os (world s)"
    using os_interest_simps(5) [OF assms(1), of "m_epollFd s" MAX_EVENTS "world s"] rw by simp
  then have inv: "echo_inv os (s\<lparr>world := w\<rparr>)"
    using assms(3) by (simp add: echo_inv_def)
  show ?thesis
  proof (cases r)
    case None
    with rw inv show ?thesis by (simp add: run_round_def)
  next
    case (Some evs)
    from os_wait_events [OF assms(1) rw [unfolded Some]]
    have "distinct (map fst evs)" "\<forall>e \<in> set evs. ready os s e"
      by (auto simp: ready_def)
    with w have "\<forall>e \<in> set evs. ready os (s\<lparr>world := w\<rparr>) e"
      by (simp add: ready_def)
    with echo_loop.batch_ok [of os "s\<lparr>world := w\<rparr>" evs] inv assms \<open>distinct (map fst evs)\<close> Some rw
    show ?thesis by (auto simp: run_round_def)
  qed
qed

lemma echo_main_inv:
  assumes "echo_main os argv w = Inr s"
  shows "echo_inv os s"
proof -
  obtain fd w1 where "ServerHandler_new os ''39.106.56.27'' (atoi (argv ! 1)) w = Inr (fd, w1)"
    using assms by (auto simp: echo_main_def split: if_splits sum.splits)
  with assms show ?thesis
    by (auto simp: echo_main_def new_handler_def echo_initial_def SocketsListener_singleInstance_def
        addSocketHandler_def echo_inv_def getFd_def armed_def Let_def split: if_splits prod.splits)
qed

section \<open>A system\<close>

text \<open>
  A world for concrete runs: the registered events, the incoming data per call of \<open>recv\<close>, the
  batches \<open>epoll_wait\<close> will report, and what was sent. The hypotheses hold in it: a batch is cut to
  the registered descriptors, a read to the size asked for.
\<close>

record sim =
  sim_reg :: "int \<Rightarrow> u32 option"
  sim_in :: "byte list list"
  sim_out :: "(int \<times> byte list) list"

definition sim_os :: "nat \<Rightarrow> sim os" where
  "sim_os k =
     \<lparr>os_socket = (\<lambda>w. (3, w)), os_bind = (\<lambda>fd a w. (0, w)), os_listen = (\<lambda>fd n w. (0, w)),
      os_getfl = (\<lambda>fd w. (2, w)), os_setfl = (\<lambda>fd f w. (0, w)),
      os_accept = (\<lambda>fd w. (if sim_reg w 7 = None then 7 else -1, w)),
      os_recv = (\<lambda>fd n w. case sim_in w of
          [] \<Rightarrow> (None, w) | bs # r \<Rightarrow> (Some (take (min n k) bs), w\<lparr>sim_in := r\<rparr>)),
      os_send = (\<lambda>fd bs w. (int (length bs), w\<lparr>sim_out := sim_out w @ [(fd, bs)]\<rparr>)),
      os_epoll_create1 = (\<lambda>w. (4, w)),
      os_epoll_ctl = (\<lambda>ep op fd ev w.
          if fd < 0 then (-1, w) else (0, w\<lparr>sim_reg := (sim_reg w)(fd \<mapsto> ev)\<rparr>)),
      os_epoll_wait = (\<lambda>ep n w. (Some (take n (map (\<lambda>fd. (fd, the (sim_reg w fd)))
          (filter (\<lambda>fd. sim_reg w fd \<noteq> None) [3, 7]))), w)),
      os_interest = (\<lambda>w fd. if fd < 0 then None else sim_reg w fd)\<rparr>"

lemma sim_os_ok: "os_ok (sim_os k)"
  by (auto simp: os_ok_def sim_os_def fun_eq_iff take_Cons' split: list.split option.split)

lemma sim_os_short: "k < n \<Longrightarrow> short_reads (sim_os k) n"
  by (auto simp: short_reads_def sim_os_def split: list.splits)


lemma run_ok:
  "os_ok os \<Longrightarrow> short_reads os buffer_size \<Longrightarrow> echo_inv os s \<Longrightarrow>
     \<exists>s'. run os n s = Inr s' \<and> echo_inv os s'"
proof (induction n arbitrary: s)
  case (Suc n)
  from run_round_ok [OF Suc.prems] Suc.IH [OF Suc.prems(1,2)] show ?case by fastforce
qed simp

lemma EPOLL_tests [simp]:
  "EPOLLIN AND EPOLLHUP = 0" "EPOLLIN AND EPOLLERR = 0" "EPOLLIN AND EPOLLOUT = 0"
  "EPOLLIN \<noteq> 0" "EPOLLOUT AND EPOLLHUP = 0" "EPOLLOUT AND EPOLLERR = 0"
  "EPOLLOUT AND EPOLLIN = 0" "EPOLLOUT \<noteq> 0"
  by (simp_all add: epoll_flags)

text \<open>A chunk received and sent back.\<close>

lemma echo_both:
  assumes "m_instance s = Some l" and "length (m_buffer h) = buffer_size"
    and "os_recv os (eh_fd h) buffer_size (world s) = (Some bs, w1)"
    and "0 < length bs" and "length bs < buffer_size"
  shows "\<exists>s1 h1 s2. EchoHandler_handle os a h EPOLLIN s = Inr s1 \<and>
    handlers s1 a = Some (EchoHandler h1) \<and>
    EchoHandler_handle os a h1 EPOLLOUT (s1\<lparr>world := w2\<rparr>) = Inr s2 \<and>
    world s2 = snd (os_epoll_ctl os (m_epollFd s) EPOLL_CTL_MOD (eh_fd h) EPOLLIN
      (snd (os_send os (eh_fd h) bs w2))) \<and>
    handlers s2 a = Some (EchoHandler (h1\<lparr>m_received := Some 0\<rparr>))"
proof -
  define h1 where "h1 = echo_filled bs h"
  define w3 where "w3 = snd (os_epoll_ctl os (m_epollFd s) EPOLL_CTL_MOD (eh_fd h) EPOLLOUT w1)"
  have "EchoHandler_handle os a h EPOLLIN s = Inr (put_echo a h1 s\<lparr>world := w3\<rparr>)"
    using echo_in_data_eq [OF assms(1), of os h bs w1 a] assms(2-)
    by (simp add: EchoHandler_handle_def h1_def w3_def)
  moreover have "EchoHandler_handle os a h1 EPOLLOUT (put_echo a h1 s\<lparr>world := w2\<rparr>) =
      Inr (put_echo a (h1\<lparr>m_received := Some 0\<rparr>) (put_echo a h1 s)\<lparr>world :=
        snd (os_epoll_ctl os (m_epollFd s) EPOLL_CTL_MOD (eh_fd h) EPOLLIN
          (snd (os_send os (eh_fd h) bs w2)))\<rparr>)"
    using echo_out_eq [of "put_echo a h1 s\<lparr>world := w2\<rparr>" l h1 "int (length bs)" os a] assms(1,2,4,5)
    by (auto simp: EchoHandler_handle_def h1_def echo_filled_def comp_def put_echo_def)
  ultimately show ?thesis by simp
qed

section \<open>Properties\<close>

text \<open>C27: as long as no \<open>recv\<close> fills the 1000 bytes buffer, the server started by \<open>main\<close> runs any
  number of rounds without a fault: it never sends bytes it has not received, never reads the
  uninitialised \<open>m_received\<close>, never calls a handler that does not exist, whatever the order of
  connections, events and failing system calls.\<close>

theorem echo_server_never_faults:
  assumes "os_ok os" and "short_reads os buffer_size" and "echo_main os argv w = Inr s"
  shows "\<exists>s'. run os n s = Inr s' \<and> echo_inv os s'"
  using run_ok [OF assms(1,2) echo_main_inv [OF assms(3)]] .

theorem echo_server_never_faults_witness:
  "\<exists>s s'. echo_main (sim_os 10) [''server'', ''9001''] \<lparr>sim_reg = Map.empty, sim_in = [[1, 2]], sim_out = []\<rparr> = Inr s \<and>
    run (sim_os 10) 3 s = Inr s' \<and> echo_inv (sim_os 10) s'"
proof -
  obtain s where s: "echo_main (sim_os 10) [''server'', ''9001'']
      \<lparr>sim_reg = Map.empty, sim_in = [[1, 2]], sim_out = []\<rparr> = Inr s"
    by (simp add: echo_main_def ServerHandler_new_def sim_os_def Let_def split_def)
  from echo_server_never_faults [OF sim_os_ok _ s, of 3] s show ?thesis
    by (auto simp: sim_os_short buffer_size_def)
qed

text \<open>A peer that sends 1000 bytes at once makes the handler write the terminating zero behind the
  end of its buffer.\<close>

theorem echo_full_read_overflows:
  assumes "length (m_buffer h) = buffer_size"
    and "os_recv os (eh_fd h) buffer_size (world s) = (Some bs, w1)" and "length bs = buffer_size"
  shows "EchoHandler_handle os a h EPOLLIN s = Inl OutOfBounds"
  using assms
  by (simp add: EchoHandler_handle_def echo_in_def Let_def mem_write_def buffer_size_def)

theorem echo_full_read_overflows_witness:
  "EchoHandler_handle (sim_os 1000) 1 (EchoHandler_new 7) EPOLLIN
     (echo_initial \<lparr>sim_reg = Map.empty, sim_in = [replicate 1000 65], sim_out = []\<rparr>) = Inl OutOfBounds"
  by (rule echo_full_read_overflows [where bs = "replicate 1000 65"])
    (simp_all add: EchoHandler_new_def sim_os_def echo_initial_def buffer_size_def)

text \<open>The bytes received on a connection are the bytes sent back when it becomes writable. The
  result of \<open>send\<close> only decides a log line: after a short or failed send the rest is dropped, the
  handler counts as drained and waits for input again.\<close>

theorem echo_sends_what_it_received:
  assumes "m_instance s = Some l" and "length (m_buffer h) = buffer_size"
    and "os_recv os (eh_fd h) buffer_size (world s) = (Some bs, w1)"
    and "0 < length bs" and "length bs < buffer_size"
  shows "\<exists>s1 h1 s2. EchoHandler_handle os a h EPOLLIN s = Inr s1 \<and>
    handlers s1 a = Some (EchoHandler h1) \<and>
    EchoHandler_handle os a h1 EPOLLOUT (s1\<lparr>world := w2\<rparr>) = Inr s2 \<and>
    world s2 = snd (os_epoll_ctl os (m_epollFd s) EPOLL_CTL_MOD (eh_fd h) EPOLLIN
      (snd (os_send os (eh_fd h) bs w2))) \<and>
    handlers s2 a = Some (EchoHandler (h1\<lparr>m_received := Some 0\<rparr>))"
  by (rule echo_both [OF assms])

theorem echo_sends_what_it_received_witness:
  "\<exists>s1 h1 s2. EchoHandler_handle (sim_os 10) 1 (EchoHandler_new 7) EPOLLIN
      ((echo_initial \<lparr>sim_reg = Map.empty, sim_in = [[1, 2, 3]], sim_out = []\<rparr>)\<lparr>m_instance := Some 9\<rparr>) = Inr s1 \<and>
    handlers s1 1 = Some (EchoHandler h1) \<and>
    EchoHandler_handle (sim_os 10) 1 h1 EPOLLOUT
      (s1\<lparr>world := \<lparr>sim_reg = Map.empty, sim_in = [], sim_out = []\<rparr>\<rparr>) = Inr s2 \<and>
    world s2 = snd (os_epoll_ctl (sim_os 10)
      (m_epollFd ((echo_initial \<lparr>sim_reg = Map.empty, sim_in = [[1, 2, 3]], sim_out = []\<rparr>)\<lparr>m_instance := Some 9\<rparr>))
      EPOLL_CTL_MOD (eh_fd (EchoHandler_new 7)) EPOLLIN
      (snd (os_send (sim_os 10) (eh_fd (EchoHandler_new 7)) [1, 2, 3]
        \<lparr>sim_reg = Map.empty, sim_in = [], sim_out = []\<rparr>))) \<and>
    handlers s2 1 = Some (EchoHandler (h1\<lparr>m_received := Some 0\<rparr>))"
  by (rule echo_sends_what_it_received)
    (simp_all add: EchoHandler_new_def sim_os_def echo_initial_def buffer_size_def)

end
