(* ===== verification/EchoFlow.thy ===== *)
theory EchoFlow imports EchoServer begin

text \<open>
  The echo server as a relay: what it has sent on a connection, followed by what waits in the
  handler's buffer, is what it has received, in every run and on every open connection at once.
  \<open>rd\<close> and \<open>wr\<close> observe the bytes the system has delivered and taken per descriptor; \<open>relay_ok\<close>
  states how the calls change them, and excludes the failures for which the code drops data
  (a short \<open>send\<close>, a failed \<open>epoll_ctl\<close>).
\<close>

section \<open>The system\<close>

definition readable :: "u32 \<Rightarrow> bool" where
  "readable ev \<longleftrightarrow> ev AND EPOLLIN \<noteq> 0"

lemma readable_flags [simp]: "readable EPOLLIN" "\<not> readable EPOLLOUT"
  by (simp_all add: readable_def)

lemma EPOLL_neq: "EPOLLIN \<noteq> EPOLLOUT" "EPOLLOUT \<noteq> EPOLLIN"
  by (simp_all add: epoll_flags)

type_synonym 'w traffic = "'w \<Rightarrow> int \<Rightarrow> byte list"

definition relay_ok :: "'w os \<Rightarrow> 'w traffic \<Rightarrow> 'w traffic \<Rightarrow> bool" where
  "relay_ok os rd wr \<longleftrightarrow>
     (\<forall>fd n w. wr (snd (os_recv os fd n w)) = wr w \<and>
        rd (snd (os_recv os fd n w)) = (case fst (os_recv os fd n w) of
            None \<Rightarrow> rd w | Some bs \<Rightarrow> (rd w)(fd := rd w fd @ bs))) \<and>
     (\<forall>fd bs w. rd (snd (os_send os fd bs w)) = rd w \<and>
        wr (snd (os_send os fd bs w)) = (wr w)(fd := wr w fd @ bs)) \<and>
     (\<forall>fd w. let (c, w') = os_accept os fd w in
        rd w' = (if c < 0 then rd w else (rd w)(c := [])) \<and>
        wr w' = (if c < 0 then wr w else (wr w)(c := []))) \<and>
     (\<forall>ep op fd ev w. let (r, w') = os_epoll_ctl os ep op fd ev w in
        rd w' = rd w \<and> wr w' = wr w \<and>
        (0 \<le> fd \<longrightarrow> (op = EPOLL_CTL_ADD \<longleftrightarrow> os_interest os w fd = None) \<longrightarrow> 0 \<le> r)) \<and>
     (\<forall>ep n w. let (r, w') = os_epoll_wait os ep n w in
        rd w' = rd w \<and> wr w' = wr w \<and>
        (\<forall>evs. r = Some evs \<longrightarrow> (\<forall>(fd, ev) \<in> set evs.
           \<forall>m. os_interest os w fd = Some m \<longrightarrow> readable ev \<longrightarrow> readable m)))"

lemma relay_simps:
  assumes "relay_ok os rd wr"
  shows "wr (snd (os_recv os fd n w)) = wr w"
    and "rd (snd (os_recv os fd n w)) = (case fst (os_recv os fd n w) of
      None \<Rightarrow> rd w | Some bs \<Rightarrow> (rd w)(fd := rd w fd @ bs))"
    and "rd (snd (os_send os fd bs w)) = rd w"
    and "wr (snd (os_send os fd bs w)) = (wr w)(fd := wr w fd @ bs)"
    and "rd (snd (os_accept os fd w)) =
      (if fst (os_accept os fd w) < 0 then rd w else (rd w)(fst (os_accept os fd w) := []))"
    and "wr (snd (os_accept os fd w)) =
      (if fst (os_accept os fd w) < 0 then wr w else (wr w)(fst (os_accept os fd w) := []))"
    and "rd (snd (os_epoll_ctl os ep op fd ev w)) = rd w"
    and "wr (snd (os_epoll_ctl os ep op fd ev w)) = wr w"
    and "rd (snd (os_epoll_wait os ep n w)) = rd w"
    and "wr (snd (os_epoll_wait os ep n w)) = wr w"
    and "0 \<le> fd \<longrightarrow> (op = EPOLL_CTL_ADD \<longleftrightarrow> os_interest os w fd = None) \<longrightarrow>
      0 \<le> fst (os_epoll_ctl os ep op fd ev w)"
  using assms by (simp_all add: relay_ok_def split_def Let_def)

lemma relay_ctl:
  assumes "os_ok os" and "relay_ok os rd wr" and "0 \<le> fd"
    and "op = EPOLL_CTL_ADD \<longleftrightarrow> os_interest os w fd = None"
  shows "os_interest os (snd (os_epoll_ctl os ep op fd ev w)) = (os_interest os w)(fd \<mapsto> ev)"
  using relay_simps(11) [OF assms(2), of fd op w ep ev] os_interest_simps(6) [OF assms(1), of ep op fd ev w]
    assms(3,4) by simp

lemma relay_wait:
  assumes "relay_ok os rd wr" and "os_epoll_wait os ep n w = (Some evs, w')"
    and "(fd, ev) \<in> set evs" and "os_interest os w fd = Some m" and "readable ev"
  shows "readable m"
proof -
  from assms(1) have "\<forall>ep n w evs. fst (os_epoll_wait os ep n w) = Some evs \<longrightarrow> (\<forall>(fd, ev) \<in> set evs.
      \<forall>m. os_interest os w fd = Some m \<longrightarrow> readable ev \<longrightarrow> readable m)"
    by (simp add: relay_ok_def split_def Let_def)
  from spec [OF spec [OF spec [OF this, of ep], of n], of w] assms(2-) show ?thesis
    by fastforce
qed

section \<open>The invariant\<close>

text \<open>The bytes the handler still has to send.\<close>

definition waiting :: "'w os \<Rightarrow> 'w \<Rightarrow> echo_handler \<Rightarrow> byte list" where
  "waiting os w h =
     (if os_interest os w (eh_fd h) = Some EPOLLOUT
      then map the (take (nat (the (m_received h))) (m_buffer h)) else [])"

definition relays :: "'w os \<Rightarrow> 'w traffic \<Rightarrow> 'w traffic \<Rightarrow> 'w \<Rightarrow> handler \<Rightarrow> bool" where
  "relays os rd wr w h =
     (case h of
        ServerHandler fd \<Rightarrow> True
      | EchoHandler e \<Rightarrow> 0 \<le> eh_fd e \<and>
          os_interest os w (eh_fd e) \<in> {Some EPOLLIN, Some EPOLLOUT} \<and>
          rd w (eh_fd e) = wr w (eh_fd e) @ waiting os w e)"

definition flow_inv :: "'w os \<Rightarrow> 'w traffic \<Rightarrow> 'w traffic \<Rightarrow> 'w echo_state \<Rightarrow> bool" where
  "flow_inv os rd wr s \<longleftrightarrow> echo_inv os s \<and>
     (\<forall>fd a h. m_socketHandlers s fd = Some a \<longrightarrow> handlers s a = Some h \<longrightarrow>
        relays os rd wr (world s) h)"

definition due :: "'w os \<Rightarrow> 'w echo_state \<Rightarrow> int \<times> u32 \<Rightarrow> bool" where
  "due os s e \<longleftrightarrow> ready os s e \<and>
     (\<forall>m. os_interest os (world s) (fst e) = Some m \<longrightarrow> readable (snd e) \<longrightarrow> readable m)"

text \<open>Two worlds that agree on a descriptor.\<close>

definition same_fd :: "'w os \<Rightarrow> 'w traffic \<Rightarrow> 'w traffic \<Rightarrow> int \<Rightarrow> 'w \<Rightarrow> 'w \<Rightarrow> bool" where
  "same_fd os rd wr fd w w' \<longleftrightarrow>
     os_interest os w' fd = os_interest os w fd \<and> rd w' fd = rd w fd \<and> wr w' fd = wr w fd"

lemma relays_cong: "same_fd os rd wr (getFd h) w w' \<Longrightarrow> relays os rd wr w h \<Longrightarrow> relays os rd wr w' h"
  by (cases h) (auto simp: same_fd_def relays_def waiting_def getFd_def)

lemma due_cong: "same_fd os rd wr (fst e) (world s) (world s') \<Longrightarrow> due os s e \<Longrightarrow> due os s' e"
  by (simp add: same_fd_def due_def ready_def)

text \<open>A step that touches one connection keeps the invariant when the handler it leaves relays.\<close>

lemma flow_inv_update:
  assumes "flow_inv os rd wr s" and "m_socketHandlers s (eh_fd h) = Some a"
    and "handlers s a = Some (EchoHandler h)" and "eh_fd h' = eh_fd h"
    and "\<And>fd. fd \<noteq> eh_fd h \<Longrightarrow> same_fd os rd wr fd (world s) w"
    and "echo_inv os (put_echo a h' s\<lparr>world := w\<rparr>)" and "relays os rd wr w (EchoHandler h')"
  shows "flow_inv os rd wr (put_echo a h' s\<lparr>world := w\<rparr>)"
proof -
  have "relays os rd wr w h2"
    if t: "m_socketHandlers s fd = Some b" and h2: "((handlers s)(a \<mapsto> EchoHandler h')) b = Some h2" for fd b h2
  proof (cases "b = a")
    case True
    with h2 assms(7) show ?thesis by simp
  next
    case False
    then have "fd \<noteq> eh_fd h"
      using t assms(2) by auto
    moreover have "getFd h2 = fd" "relays os rd wr (world s) h2"
      using echo_inv_handler [of os s fd b] assms(1) t h2 False by (auto simp: flow_inv_def)
    ultimately show ?thesis
      using relays_cong assms(5) by metis
  qed
  with assms(6) show ?thesis
    by (auto simp: flow_inv_def)
qed

text \<open>The steps of the handler.\<close>

definition others :: "'w os \<Rightarrow> 'w traffic \<Rightarrow> 'w traffic \<Rightarrow> int \<Rightarrow> 'w \<Rightarrow> 'w \<Rightarrow> bool" where
  "others os rd wr fd w w' \<longleftrightarrow> (\<forall>fd'. fd' \<noteq> fd \<longrightarrow> same_fd os rd wr fd' w w')"

lemma flow_inv_handler:
  assumes "flow_inv os rd wr s" and "m_socketHandlers s (eh_fd h) = Some a"
    and "handlers s a = Some (EchoHandler h)"
  shows "relays os rd wr (world s) (EchoHandler h)" and "length (m_buffer h) = buffer_size"
  using assms echo_inv_handler [of os s "eh_fd h" a] by (force simp: flow_inv_def armed_def)+

lemma flow_inv_remove: "flow_inv os rd wr s \<Longrightarrow> flow_inv os rd wr (removeSocket fd s)"
  by (auto simp: flow_inv_def removeSocket_def echo_inv_def)

lemma echo_out_flow:
  assumes "os_ok os" and "relay_ok os rd wr" and "flow_inv os rd wr s"
    and "handlers s a = Some (EchoHandler h)" and "m_socketHandlers s (eh_fd h) = Some a"
    and "os_interest os (world s) (eh_fd h) = Some EPOLLOUT"
  shows "\<exists>h' s'. echo_out os a h s = Inr (h', s') \<and> flow_inv os rd wr s' \<and>
    others os rd wr (eh_fd h) (world s) (world s') \<and> rd (world s') = rd (world s) \<and>
    os_interest os (world s') (eh_fd h) = Some EPOLLIN \<and>
    m_socketHandlers s' = m_socketHandlers s \<and> handlers s' a = Some (EchoHandler h')"
proof -
  have inv: "echo_inv os s"
    using assms(3) by (simp add: flow_inv_def)
  then obtain l where l: "m_instance s = Some l"
    by (auto simp: echo_inv_def)
  have "armed (os_interest os (world s)) (EchoHandler h)"
    using echo_inv_handler [OF inv assms(5)] assms(4) by force
  then obtain n where n: "m_received h = Some n" "nat n \<le> buffer_size"
    "None \<notin> set (take (nat n) (m_buffer h))" and len: "length (m_buffer h) = buffer_size"
    using assms(6) by (auto simp: armed_def)
  define bs where "bs = map the (take (nat n) (m_buffer h))"
  define w1 where "w1 = (if n > 0 then snd (os_send os (eh_fd h) bs (world s)) else world s)"
  define w2 where "w2 = snd (os_epoll_ctl os (m_epollFd s) EPOLL_CTL_MOD (eh_fd h) EPOLLIN w1)"
  define h' where "h' = h\<lparr>m_received := Some 0\<rparr>"
  note R = flow_inv_handler [OF assms(3,5,4)]
  have eq: "echo_out os a h s = Inr (h', put_echo a h' s\<lparr>world := w2\<rparr>)"
    using echo_out_eq [OF l n(1), of os a] n len by (simp add: h'_def w2_def w1_def bs_def)
  have rd: "rd w2 = rd (world s)"
    by (simp add: w2_def w1_def relay_simps [OF assms(2)])
  have wr: "wr w2 = (wr (world s))(eh_fd h := wr (world s) (eh_fd h) @ bs)"
    by (auto simp: w2_def w1_def relay_simps [OF assms(2)] bs_def)
  have "os_interest os w1 = os_interest os (world s)"
    by (simp add: w1_def os_interest_simps [OF assms(1)])
  then have I: "os_interest os w2 = (os_interest os (world s))(eh_fd h \<mapsto> EPOLLIN)"
    using relay_ctl [OF assms(1,2), of "eh_fd h" EPOLL_CTL_MOD w1] R(1) assms(6)
    by (simp add: w2_def relays_def)
  have "waiting os (world s) h = bs" "waiting os w2 h' = []"
    using n(1) assms(6) I EPOLL_neq by (simp_all add: waiting_def bs_def h'_def)
  then have "relays os rd wr w2 (EchoHandler h')"
    using R(1) rd wr I by (simp add: relays_def h'_def)
  moreover have "echo_inv os (put_echo a h' s\<lparr>world := w2\<rparr>)"
    using echo_inv_update [OF inv assms(4,5), of w2 h'] I len armed_drained [of h 0]
    by (simp add: h'_def)
  moreover have "same_fd os rd wr fd (world s) w2" if "fd \<noteq> eh_fd h" for fd
    using that rd wr I by (simp add: same_fd_def)
  ultimately show ?thesis
    using flow_inv_update [OF assms(3,5,4), of h' w2] eq rd I by (simp add: h'_def others_def)
qed

lemma echo_in_flow:
  assumes "os_ok os" and "relay_ok os rd wr" and "short_reads os buffer_size" and "flow_inv os rd wr s"
    and "handlers s a = Some (EchoHandler h)" and "m_socketHandlers s (eh_fd h) = Some a"
    and "os_interest os (world s) (eh_fd h) = Some EPOLLIN"
  shows "\<exists>s'. echo_in os a h s = Inr s' \<and> flow_inv os rd wr s' \<and>
    others os rd wr (eh_fd h) (world s) (world s')"
proof -
  have inv: "echo_inv os s"
    using assms(4) by (simp add: flow_inv_def)
  then obtain l where l: "m_instance s = Some l"
    by (auto simp: echo_inv_def)
  obtain r w1 where rw: "os_recv os (eh_fd h) buffer_size (world s) = (r, w1)"
    by (cases "os_recv os (eh_fd h) buffer_size (world s)")
  note R = flow_inv_handler [OF assms(4,6,5)]
  have w1: "os_interest os w1 = os_interest os (world s)" "wr w1 = wr (world s)"
    "rd w1 = (rd (world s))(eh_fd h := rd (world s) (eh_fd h) @ (case r of None \<Rightarrow> [] | Some bs \<Rightarrow> bs))"
    using os_interest_simps(1) [OF assms(1), of "eh_fd h" buffer_size "world s"]
      relay_simps(1,2) [OF assms(2), of "eh_fd h" buffer_size "world s"] rw
    by (simp_all add: option.case_eq_if)
  show ?thesis
  proof (cases "r = None \<or> r = Some []")
    case True
    define h' where "h' = h\<lparr>m_received := Some (if r = None then -1 else 0)\<rparr>"
    have same: "same_fd os rd wr fd (world s) w1" for fd
      using True w1 by (auto simp: same_fd_def)
    have "relays os rd wr (world s) (EchoHandler h')"
      using R(1) assms(7) EPOLL_neq by (simp add: relays_def h'_def waiting_def)
    then have "relays os rd wr w1 (EchoHandler h')"
      by (rule relays_cong [OF same])
    moreover have "echo_inv os (put_echo a h' s\<lparr>world := w1\<rparr>)"
      using echo_inv_update [OF inv assms(5,6), of w1 h'] w1 R(2) armed_drained [of h]
      by (simp add: h'_def)
    ultimately have "flow_inv os rd wr (put_echo a h' s\<lparr>world := w1\<rparr>)"
      using flow_inv_update [OF assms(4,6,5), of h' w1] same by (simp add: h'_def)
    then show ?thesis
      using echo_in_end_eq [OF l, of os h r w1 a] True rw R(2) same
        flow_inv_remove [of os rd wr "put_echo a h' s\<lparr>world := w1\<rparr>" "eh_fd h"]
      by (simp add: h'_def others_def removeSocket_def)
  next
    case False
    then obtain bs where bs: "r = Some bs" "bs \<noteq> []" by (cases r) auto
    have short: "length bs < buffer_size"
      using assms(3) rw bs(1) unfolding short_reads_def by (metis fst_conv)
    define w2 where "w2 = snd (os_epoll_ctl os (m_epollFd s) EPOLL_CTL_MOD (eh_fd h) EPOLLOUT w1)"
    have eq: "echo_in os a h s = Inr (put_echo a (echo_filled bs h) s\<lparr>world := w2\<rparr>)"
      using echo_in_data_eq [OF l, of os h bs w1 a] rw bs short R(2) by (simp add: w2_def)
    have I: "os_interest os w2 = (os_interest os (world s))(eh_fd h \<mapsto> EPOLLOUT)"
      using relay_ctl [OF assms(1,2), of "eh_fd h" EPOLL_CTL_MOD w1] R(1) assms(7) w1(1)
      by (simp add: w2_def relays_def)
    have tr: "rd w2 = (rd (world s))(eh_fd h := rd (world s) (eh_fd h) @ bs)" "wr w2 = wr (world s)"
      using w1 bs by (simp_all add: w2_def relay_simps [OF assms(2)])
    have "waiting os w2 (echo_filled bs h) = bs" "waiting os (world s) h = []"
      using I assms(7) EPOLL_neq by (simp_all add: waiting_def echo_filled_def comp_def)
    then have "relays os rd wr w2 (EchoHandler (echo_filled bs h))"
      using R(1) I tr by (simp add: relays_def)
    moreover have "echo_inv os (put_echo a (echo_filled bs h) s\<lparr>world := w2\<rparr>)"
      using echo_inv_update [OF inv assms(5,6), of w2] I armed_filled [OF R(2) short] by simp
    moreover have "same_fd os rd wr fd (world s) w2" if "fd \<noteq> eh_fd h" for fd
      using that I tr by (simp add: same_fd_def)
    ultimately show ?thesis
      using flow_inv_update [OF assms(4,6,5), of "echo_filled bs h" w2] eq by (simp add: others_def)
  qed
qed

lemma EchoHandler_handle_flow:
  assumes "os_ok os" and "relay_ok os rd wr" and "short_reads os buffer_size" and "flow_inv os rd wr s"
    and "handlers s a = Some (EchoHandler h)" and "m_socketHandlers s (eh_fd h) = Some a"
    and "due os s (eh_fd h, ev)"
  shows "\<exists>s'. EchoHandler_handle os a h ev s = Inr s' \<and> flow_inv os rd wr s' \<and>
    others os rd wr (eh_fd h) (world s) (world s')"
proof -
  obtain l where l: "m_instance s = Some l"
    using assms(4) by (auto simp: flow_inv_def echo_inv_def)
  have id: "others os rd wr (eh_fd h) (world s) (world s)"
    by (simp add: others_def same_fd_def)
  have rm: "flow_inv os rd wr (removeSocket (eh_fd h) s)" "world (removeSocket (eh_fd h) s) = world s"
    using flow_inv_remove [OF assms(4)] by (simp_all add: removeSocket_def)
  consider "os_interest os (world s) (eh_fd h) = Some EPOLLIN"
    | "os_interest os (world s) (eh_fd h) = Some EPOLLOUT"
    using flow_inv_handler(1) [OF assms(4,6,5)] by (auto simp: relays_def)
  then show ?thesis
  proof cases
    case 1
    with assms(7) have "ev AND EPOLLOUT = 0"
      by (simp add: due_def ready_def writable_def)
    with echo_in_flow [OF assms(1-6) 1] assms(4) id rm l show ?thesis
      by (simp add: EchoHandler_handle_def singleInstance_existing)
  next
    case 2
    with assms(7) have "ev AND EPOLLIN = 0"
      by (simp add: due_def readable_def [symmetric]) (simp add: readable_def)
    with echo_out_flow [OF assms(1,2,4,5,6) 2] assms(4) id rm l show ?thesis
      by (auto simp: EchoHandler_handle_def singleInstance_existing)
  qed
qed

text \<open>A new connection starts idle, with nothing received and nothing sent.\<close>

lemma ServerHandler_handle_flow:
  assumes "os_ok os" and "relay_ok os rd wr" and "flow_inv os rd wr s"
  shows "flow_inv os rd wr (ServerHandler_handle os fd s)"
    and "due os s e \<Longrightarrow> due os (ServerHandler_handle os fd s) e"
proof -
  have inv: "echo_inv os s"
    using assms(3) by (simp add: flow_inv_def)
  then obtain l where l: "m_instance s = Some l"
    by (auto simp: echo_inv_def)
  obtain c w1 where cw: "os_accept os fd (world s) = (c, w1)"
    by (cases "os_accept os fd (world s)")
  define w2 where "w2 = snd (os_epoll_ctl os (m_epollFd s) EPOLL_CTL_ADD c EPOLLIN w1)"
  let ?w = "world (ServerHandler_handle os fd s)"
  note eq = ServerHandler_handle_eq [OF l cw, folded w2_def]
  have new: "os_interest os (world s) c = None"
    using os_interest_simps(4) [OF assms(1), of "world s" fd] cw by simp
  have w1: "os_interest os w1 = os_interest os (world s)"
    "rd w1 = (if c < 0 then rd (world s) else (rd (world s))(c := []))"
    "wr w1 = (if c < 0 then wr (world s) else (wr (world s))(c := []))"
    using os_interest_simps(3) [OF assms(1), of fd "world s"] relay_simps(5,6) [OF assms(2), of fd "world s"] cw
    by simp_all
  have w2: "os_interest os w2 = (os_interest os (world s))(c \<mapsto> EPOLLIN)"
    "rd w2 = (rd (world s))(c := [])" "wr w2 = (wr (world s))(c := [])" if "0 \<le> c"
    using that w1 new relay_ctl [OF assms(1,2), of c EPOLL_CTL_ADD w1]
    by (simp_all add: w2_def relay_simps [OF assms(2)])
  have same: "same_fd os rd wr fd' (world s) ?w" if "c < 0 \<or> fd' \<noteq> c" for fd'
    using that w1 w2 by (auto simp: eq same_fd_def)
  show "due os (ServerHandler_handle os fd s) e" if "due os s e"
  proof (cases "c < 0 \<or> fst e \<noteq> c")
    case True
    with due_cong [OF same] that show ?thesis by blast
  next
    case False
    with that new show ?thesis by (auto simp: due_def ready_def)
  qed
  have "relays os rd wr ?w h"
    if t: "m_socketHandlers (ServerHandler_handle os fd s) fd' = Some b"
      "handlers (ServerHandler_handle os fd s) b = Some h" for fd' b h
  proof (cases "0 \<le> c \<and> fd' = c")
    case True
    with t have h: "h = EchoHandler (EchoHandler_new c)"
      by (simp add: eq)
    show ?thesis
      using True w2 EPOLL_neq by (simp add: h eq relays_def EchoHandler_new_def waiting_def)
  next
    case False
    then have old: "m_socketHandlers s fd' = Some b"
      using t(1) by (auto simp: eq split: if_splits)
    obtain h0 where h0: "handlers s b = Some h0" "getFd h0 = fd'"
      using echo_inv_handler [OF inv old] by blast
    moreover have "b \<noteq> next_handler s"
      using h0(1) inv by (auto simp: echo_inv_def)
    ultimately have h: "h = h0"
      using t(2) by (auto simp: eq split: if_splits)
    have "relays os rd wr (world s) h0"
      using assms(3) old h0(1) by (auto simp: flow_inv_def)
    moreover have "same_fd os rd wr (getFd h0) (world s) ?w"
      using False h0(2) by (intro same) auto
    ultimately show ?thesis
      unfolding h by (rule relays_cong [rotated])
  qed
  with ServerHandler_handle_ok(1) [OF assms(1) inv] show "flow_inv os rd wr (ServerHandler_handle os fd s)"
    by (auto simp: flow_inv_def)
qed

lemma dispatch_flow:
  assumes "os_ok os" and "relay_ok os rd wr" and "short_reads os buffer_size" and "flow_inv os rd wr s"
    and "due os s e"
  shows "\<exists>s'. dispatch os e s = Inr s' \<and> flow_inv os rd wr s' \<and>
    (\<forall>e'. fst e' \<noteq> fst e \<longrightarrow> due os s e' \<longrightarrow> due os s' e')"
proof (cases "m_socketHandlers s (fst e)")
  case None
  with assms(4) show ?thesis by (simp add: dispatch_def)
next
  case (Some a)
  obtain h where h: "handlers s a = Some h" "getFd h = fst e"
    using echo_inv_handler [OF _ Some] assms(4) unfolding flow_inv_def by metis
  show ?thesis
  proof (cases h)
    case (ServerHandler fd)
    with Some h(1) ServerHandler_handle_flow [OF assms(1,2,4)] show ?thesis
      by (simp add: dispatch_def handle_def)
  next
    case (EchoHandler eh)
    with h have fd: "eh_fd eh = fst e"
      by (simp add: getFd_def)
    have "m_socketHandlers s (eh_fd eh) = Some a" "due os s (eh_fd eh, snd e)"
      using Some fd assms(5) by simp_all
    from EchoHandler_handle_flow [OF assms(1-4) h(1) [unfolded EchoHandler] this]
    obtain s' where s': "EchoHandler_handle os a eh (snd e) s = Inr s'" "flow_inv os rd wr s'"
      "others os rd wr (eh_fd eh) (world s) (world s')" by blast
    moreover have "due os s' e'" if "fst e' \<noteq> fst e" "due os s e'" for e'
      using s'(3) that fd by (intro due_cong [where rd = rd and wr = wr, OF _ that(2)]) (simp add: others_def)
    ultimately show ?thesis
      using Some h(1) EchoHandler by (simp add: dispatch_def handle_def)
  qed
qed

text \<open>The event loop's contract holds for the stronger invariant too.\<close>

interpretation relay_loop: event_loop
  "\<lambda>s. os_ok os \<and> relay_ok os rd wr \<and> short_reads os buffer_size \<and> flow_inv os rd wr s"
  "due os" fst "dispatch os" for os rd wr
  by unfold_locales (use dispatch_flow in blast)

section \<open>Every run\<close>

lemma wait_flow:
  assumes "os_ok os" and "relay_ok os rd wr" and "flow_inv os rd wr s"
    and "os_epoll_wait os (m_epollFd s) MAX_EVENTS (world s) = (r, w)"
  shows "same_fd os rd wr fd (world s) w" and "flow_inv os rd wr (s\<lparr>world := w\<rparr>)"
proof -
  have same: "same_fd os rd wr fd (world s) w" for fd
    using os_interest_simps(5) [OF assms(1), of "m_epollFd s" MAX_EVENTS "world s"]
      relay_simps(9,10) [OF assms(2), of "m_epollFd s" MAX_EVENTS "world s"] assms(4)
    by (simp add: same_fd_def)
  then show "same_fd os rd wr fd (world s) w" .
  have "os_interest os w = os_interest os (world s)"
    using same by (simp add: same_fd_def fun_eq_iff)
  then show "flow_inv os rd wr (s\<lparr>world := w\<rparr>)"
    using assms(3) relays_cong [OF same] by (fastforce simp: flow_inv_def echo_inv_def)
qed

lemma wait_due:
  assumes "os_ok os" and "relay_ok os rd wr" and "flow_inv os rd wr s"
    and "os_epoll_wait os (m_epollFd s) MAX_EVENTS (world s) = (Some evs, w)" and "e \<in> set evs"
  shows "due os (s\<lparr>world := w\<rparr>) e"
proof (rule due_cong)
  show "same_fd os rd wr (fst e) (world s) (world (s\<lparr>world := w\<rparr>))"
    using wait_flow(1) [OF assms(1-4)] by simp
  have "readable m" if "os_interest os (world s) (fst e) = Some m" "readable (snd e)" for m
    using relay_wait [OF assms(2,4), of "fst e" "snd e" m] that assms(5) by simp
  then show "due os s e"
    using os_wait_events [OF assms(1,4)] assms(5) by (auto simp: due_def ready_def)
qed

lemma run_round_flow:
  assumes "os_ok os" and "relay_ok os rd wr" and "short_reads os buffer_size" and "flow_inv os rd wr s"
  shows "\<exists>s'. run_round os s = Inr s' \<and> flow_inv os rd wr s'"
proof -
  obtain r w where rw: "os_epoll_wait os (m_epollFd s) MAX_EVENTS (world s) = (r, w)"
    by (cases "os_epoll_wait os (m_epollFd s) MAX_EVENTS (world s)")
  note inv = wait_flow(2) [OF assms(1,2,4) rw]
  show ?thesis
  proof (cases r)
    case None
    with rw inv show ?thesis by (simp add: run_round_def)
  next
    case (Some evs)
    note due = wait_due [OF assms(1,2,4) rw [unfolded Some]]
    with relay_loop.batch_ok [of os rd wr "s\<lparr>world := w\<rparr>" evs] inv assms Some rw
      os_wait_events [OF assms(1) rw [unfolded Some]]
    show ?thesis by (auto simp: run_round_def)
  qed
qed

lemma run_flow:
  "os_ok os \<Longrightarrow> relay_ok os rd wr \<Longrightarrow> short_reads os buffer_size \<Longrightarrow> flow_inv os rd wr s \<Longrightarrow>
     \<exists>s'. run os n s = Inr s' \<and> flow_inv os rd wr s'"
proof (induction n arbitrary: s)
  case (Suc n)
  from run_round_flow [OF Suc.prems] Suc.IH [OF Suc.prems(1-3)] show ?case by fastforce
qed simp

lemma echo_main_flow:
  assumes "echo_main os argv w = Inr s"
  shows "flow_inv os rd wr s"
proof -
  have "\<exists>fd'. h = ServerHandler fd'" if "handlers s a = Some h" for a h
    using assms that
    by (auto simp: echo_main_def new_handler_def echo_initial_def SocketsListener_singleInstance_def
        addSocketHandler_def Let_def split: if_splits prod.splits sum.splits)
  with echo_main_inv [OF assms] show ?thesis
    by (fastforce simp: flow_inv_def relays_def)
qed

section \<open>A watched system\<close>

text \<open>Any system with counters of what went through each descriptor.\<close>

record 'w watched =
  inner :: 'w
  got :: "int \<Rightarrow> byte list"
  put :: "int \<Rightarrow> byte list"

definition lift_call :: "('w \<Rightarrow> 'r \<times> 'w) \<Rightarrow> 'w watched \<Rightarrow> 'r \<times> 'w watched" where
  "lift_call f v = (let (r, w) = f (inner v) in (r, v\<lparr>inner := w\<rparr>))"

definition watch :: "'w os \<Rightarrow> 'w watched os" where
  "watch os =
     \<lparr>os_socket = lift_call (os_socket os), os_bind = (\<lambda>fd a. lift_call (os_bind os fd a)),
      os_listen = (\<lambda>fd n. lift_call (os_listen os fd n)), os_getfl = (\<lambda>fd. lift_call (os_getfl os fd)),
      os_setfl = (\<lambda>fd f. lift_call (os_setfl os fd f)),
      os_accept = (\<lambda>fd v. let (c, v) = lift_call (os_accept os fd) v
        in (c, if c < 0 then v else v\<lparr>got := (got v)(c := []), put := (put v)(c := [])\<rparr>)),
      os_recv = (\<lambda>fd n v. let (r, v) = lift_call (os_recv os fd n) v
        in (r, case r of None \<Rightarrow> v | Some bs \<Rightarrow> v\<lparr>got := (got v)(fd := got v fd @ bs)\<rparr>)),
      os_send = (\<lambda>fd bs v. let (r, v) = lift_call (os_send os fd bs) v
        in (r, v\<lparr>put := (put v)(fd := put v fd @ bs)\<rparr>)),
      os_epoll_create1 = lift_call (os_epoll_create1 os),
      os_epoll_ctl = (\<lambda>ep op fd ev. lift_call (os_epoll_ctl os ep op fd ev)),
      os_epoll_wait = (\<lambda>ep n. lift_call (os_epoll_wait os ep n)),
      os_interest = (\<lambda>v. os_interest os (inner v))\<rparr>"

lemmas watch_defs = watch_def lift_call_def Let_def split_def

lemma watch_ok:
  assumes "os_ok os"
  shows "os_ok (watch os)"
  using assms by (simp add: os_ok_def watch_defs split: option.split)

lemma watch_short: "short_reads os k \<Longrightarrow> short_reads (watch os) k"
  by (simp add: short_reads_def watch_defs)

lemma watch_sim_relay: "relay_ok (watch (sim_os k)) got put"
  by (auto simp: relay_ok_def watch_defs sim_os_def readable_def take_Cons' split: option.splits list.splits)

text \<open>A client that sends two bytes: accepted in the first round, read in the second, answered in the
  third.\<close>

definition relay_world :: "sim watched" where
  "relay_world = \<lparr>inner = \<lparr>sim_reg = Map.empty, sim_in = [[1, 2]], sim_out = []\<rparr>,
     got = \<lambda>fd. [], put = \<lambda>fd. []\<rparr>"

lemma relay_world_run:
  "case echo_main (watch (sim_os 10)) [''server'', ''9001''] relay_world of
     Inl code \<Rightarrow> False
   | Inr s \<Rightarrow> (case run (watch (sim_os 10)) 3 s of
       Inl e \<Rightarrow> False
     | Inr s' \<Rightarrow> m_socketHandlers s' 7 \<noteq> None \<and> put (world s') 7 = [1, 2])"
  by code_simp

section \<open>Properties\<close>

text \<open>C13: on a system that takes what it is given, and as long as no \<open>recv\<close> fills the buffer, in
  every run of the server and at every moment every connection is served: what was received on it is
  what was sent back on it, in order and without gaps, followed by what waits in its buffer while its
  events are those of a sender. Connections never mix.\<close>

theorem echo_relays_every_stream:
  assumes "os_ok os" and "relay_ok os rd wr" and "short_reads os buffer_size"
    and "echo_main os argv w = Inr s"
  shows "\<exists>s'. run os n s = Inr s' \<and>
    (\<forall>fd a h. m_socketHandlers s' fd = Some a \<longrightarrow> handlers s' a = Some (EchoHandler h) \<longrightarrow>
       rd (world s') fd = wr (world s') fd @ waiting os (world s') h)"
proof -
  obtain s' where s': "run os n s = Inr s'" "flow_inv os rd wr s'"
    using run_flow [OF assms(1-3) echo_main_flow [OF assms(4)]] by blast
  have "rd (world s') fd = wr (world s') fd @ waiting os (world s') h"
    if "m_socketHandlers s' fd = Some a" "handlers s' a = Some (EchoHandler h)" for fd a h
  proof -
    have "eh_fd h = fd"
      using echo_inv_handler [OF _ that(1)] s'(2) that(2) unfolding flow_inv_def getFd_def by fastforce
    with s'(2) that show ?thesis
      by (force simp: flow_inv_def relays_def)
  qed
  with s'(1) show ?thesis by blast
qed

theorem echo_relays_every_stream_witness:
  "\<exists>s s'. echo_main (watch (sim_os 10)) [''server'', ''9001''] relay_world = Inr s \<and>
    run (watch (sim_os 10)) 3 s = Inr s' \<and>
    (\<forall>fd a h. m_socketHandlers s' fd = Some a \<longrightarrow> handlers s' a = Some (EchoHandler h) \<longrightarrow>
       got (world s') fd = put (world s') fd @ waiting (watch (sim_os 10)) (world s') h) \<and>
    m_socketHandlers s' 7 \<noteq> None \<and> put (world s') 7 = [1, 2]"
proof -
  obtain s s1 where s: "echo_main (watch (sim_os 10)) [''server'', ''9001''] relay_world = Inr s"
    and s1: "run (watch (sim_os 10)) 3 s = Inr s1" "m_socketHandlers s1 7 \<noteq> None" "put (world s1) 7 = [1, 2]"
    using relay_world_run by (auto split: sum.splits)
  from echo_relays_every_stream [OF watch_ok [OF sim_os_ok] watch_sim_relay watch_short [OF sim_os_short] s, of 3] s s1
  show ?thesis by (auto simp: buffer_size_def)
qed

end
