(* ===== verification/EchoSession.thy ===== *)
theory EchoSession imports TcpClient EchoFlow begin

text \<open>
  The demo client against the demo server. The client puts the length of its message before it, in
  network byte order, and prints what comes back as a C string; the server returns the bytes it
  gets. \<open>echo_peer\<close> states what the client sees of a connection to the server: calls succeed, and a
  read returns a non-empty beginning of what was sent. \<open>free\<close> holds of a world in which the server
  waits for the client, \<open>linked\<close> of one in which it serves the connection; \<open>sent_on\<close> observes the bytes
  sent on a descriptor.
\<close>

definition echo_peer ::
    "('w \<Rightarrow> bool) \<Rightarrow> ('w \<Rightarrow> bool) \<Rightarrow> 'w net \<Rightarrow> ('w \<Rightarrow> int \<Rightarrow> byte list) \<Rightarrow> bool" where
  "echo_peer free linked net sent_on \<longleftrightarrow>
     (\<forall>w. free w \<longrightarrow> 0 \<le> fst (net_socket net w) \<and> free (snd (net_socket net w))) \<and>
     (\<forall>fd a p w. free w \<longrightarrow> fst (net_connect net fd a p w) = 0 \<and> linked (snd (net_connect net fd a p w)) \<and>
        sent_on (snd (net_connect net fd a p w)) fd = []) \<and>
     (\<forall>fd bs w. 0 \<le> fd \<longrightarrow> linked w \<longrightarrow> fst (net_send net fd bs w) = int (length bs) \<and>
        linked (snd (net_send net fd bs w)) \<and>
        sent_on (snd (net_send net fd bs w)) fd = sent_on w fd @ bs) \<and>
     (\<forall>fd n w. 0 \<le> fd \<longrightarrow> 0 < n \<longrightarrow> linked w \<longrightarrow> sent_on w fd \<noteq> [] \<longrightarrow>
        (\<exists>bs r. fst (net_recv net fd n w) = Some bs \<and> bs \<noteq> [] \<and> sent_on w fd = bs @ r \<and> length bs \<le> n))"

lemma echo_peer_simps:
  assumes "echo_peer free linked net sent_on"
  shows "free w \<Longrightarrow> 0 \<le> fst (net_socket net w)"
    and "free w \<Longrightarrow> free (snd (net_socket net w))"
    and "free w \<Longrightarrow> fst (net_connect net fd a p w) = 0"
    and "free w \<Longrightarrow> linked (snd (net_connect net fd a p w))"
    and "free w \<Longrightarrow> sent_on (snd (net_connect net fd a p w)) fd = []"
    and "0 \<le> fd \<Longrightarrow> linked w \<Longrightarrow> fst (net_send net fd bs w) = int (length bs)"
    and "0 \<le> fd \<Longrightarrow> linked w \<Longrightarrow> linked (snd (net_send net fd bs w))"
    and "0 \<le> fd \<Longrightarrow> linked w \<Longrightarrow> sent_on (snd (net_send net fd bs w)) fd = sent_on w fd @ bs"
  using assms by (simp_all add: echo_peer_def)

lemma echo_peer_recv:
  assumes "echo_peer free linked net sent_on" and "0 \<le> fd" and "0 < n" and "linked w"
    and "sent_on w fd = b # r"
  shows "\<exists>bs. fst (net_recv net fd n w) = Some (b # bs) \<and> length (b # bs) \<le> n"
proof -
  obtain bs r' where "fst (net_recv net fd n w) = Some bs" "bs \<noteq> []" "sent_on w fd = bs @ r'" "length bs \<le> n"
    using assms unfolding echo_peer_def by (metis list.distinct(1))
  with assms(5) show ?thesis by (cases bs) auto
qed

text \<open>The first byte of the length of a message of less than 16 megabytes.\<close>

lemma be32_small:
  assumes "n < 2 ^ 24"
  shows "\<exists>bs. be32 (of_nat n) = 0 # bs"
proof -
  have "unat (of_nat n :: u32) = n"
    using assms by (simp add: unat_of_nat)
  with assms have "unat (drop_bit 24 (of_nat n :: u32)) = 0"
    by (simp only: unat_drop_bit_eq) (simp add: drop_bit_eq_div)
  then have "drop_bit 24 (of_nat n :: u32) = 0"
    by (simp only: unat_eq_0)
  then show ?thesis
    by (simp add: be32_def le32_def)
qed

text \<open>What the client has sent when it reads, and on which descriptor.\<close>

lemma client_exchange:
  assumes "echo_peer free linked net sent_on" and "4 \<le> length argv" and "free w0"
  shows "\<exists>c w. 0 \<le> cl_socket_desc c \<and> linked w \<and>
    sent_on w (cl_socket_desc c) = be32 (of_nat (length (argv ! 3))) @ bytes_of (argv ! 3) \<and>
    client_main net argv w0 = bnd (client_reply (fst (Recv net c 2000 w)))
      (\<lambda>l3. Inr ([ConnectOk, DataSend, l3], TcpClient_delete net c (snd (Recv net c 2000 w))))"
proof -
  note P = echo_peer_simps [OF assms(1)]
  let ?c0 = "TcpClient_new (argv ! 1) (word_of_int (atoi (argv ! 2)))"
  let ?n = "be32 (of_nat (length (argv ! 3)))"
  obtain fd w1 where fd: "net_socket net w0 = (fd, w1)" "0 \<le> fd" "free w1"
    using P(1,2) [OF assms(3)] by (cases "net_socket net w0") simp
  define w2 where "w2 = snd (net_connect net fd (net_inet_addr net (argv ! 1)) (be16 (cl_port ?c0)) w1)"
  define c where "c = ?c0\<lparr>cl_socket_desc := fd, cl_is_connected := True\<rparr>"
  define w3 where "w3 = snd (net_send net fd ?n w2)"
  define w4 where "w4 = snd (net_send net fd (bytes_of (argv ! 3)) w3)"
  have up: "linked w2" "linked w3" "linked w4"
    using P(4) [OF fd(3)] P(7) [OF fd(2)] by (simp_all add: w2_def w3_def w4_def)
  have con: "Connect net ?c0 w0 = (True, c, w2)"
    using fd P(3) [OF fd(3)]
    by (simp add: Connect_def SocketShutdown_def TcpClient_new_def c_def w2_def split_def)
  have snt: "SendInt net c (of_nat (length (argv ! 3))) w2 = (int (length ?n), w3)"
    "Send net c (bytes_of (argv ! 3)) w3 = (int (length (bytes_of (argv ! 3))), w4)"
    using P(6) [OF fd(2)] up by (simp_all add: SendInt_def Send_def c_def w3_def w4_def prod_eq_iff)
  have "client_main net argv w0 = bnd (client_reply (fst (Recv net c 2000 w4)))
      (\<lambda>l3. Inr ([ConnectOk, DataSend, l3], TcpClient_delete net c (snd (Recv net c 2000 w4))))"
    using assms(2) con snt by (simp add: client_main_def bytes_of_def split_def Let_def)
  moreover have "sent_on w2 fd = []"
    using P(5) [OF fd(3)] by (simp add: w2_def)
  then have "sent_on w4 fd = ?n @ bytes_of (argv ! 3)"
    using P(8) [OF fd(2)] up by (simp add: w4_def w3_def)
  ultimately show ?thesis
    using fd(2) up by (intro exI [of _ c] exI [of _ w4]) (simp add: c_def)
qed

text \<open>What it shows of the reply.\<close>

lemma client_line_of_echo:
  assumes "echo_peer free linked net sent_on" and "0 \<le> cl_socket_desc c" and "linked w"
    and "sent_on w (cl_socket_desc c) = be32 (of_nat (length msg)) @ bytes_of msg"
    and "length msg < 2 ^ 24"
  shows "client_reply (fst (Recv net c 2000 w)) = Inr (Reply [])"
proof -
  obtain bs where "be32 (of_nat (length msg)) = 0 # bs"
    using be32_small [OF assms(5)] by blast
  with assms(4) echo_peer_recv [OF assms(1,2) _ assms(3), of 2000 0] obtain r where
    "fst (Recv net c 2000 w) = Some (0 # r)" "length (0 # r) \<le> 2000"
    by (auto simp: Recv_def)
  then show ?thesis
    by (simp add: client_reply_def mem_write_def malloc_block_def)
qed

text \<open>A connection that returns everything at once.\<close>

definition loopback :: "byte list net" where
  "loopback =
     \<lparr>net_socket = (\<lambda>w. (3, w)), net_connect = (\<lambda>fd a p w. (0, [])), net_shutdown = (\<lambda>fd w. w),
      net_send = (\<lambda>fd bs w. (int (length bs), w @ bs)),
      net_recv = (\<lambda>fd n w. (Some (take n w), drop n w)), net_inet_addr = (\<lambda>h. 0)\<rparr>"

lemma loopback_peer: "echo_peer (\<lambda>w. True) (\<lambda>w. True) loopback (\<lambda>w fd. w)"
  by (auto simp: echo_peer_def loopback_def) (metis append_take_drop_id)

section \<open>Properties\<close>

text \<open>C32: over a connection whose calls succeed, and on which the first \<open>recv\<close> returns a non-empty beginning
  of what was sent, the demo client prints an empty line for every message of less than 16 megabytes:
  what it sent begins with the length, whose first byte is zero, and \<open>puts\<close> stops there. The message
  itself is never shown.\<close>

theorem client_prints_empty_echo:
  assumes "echo_peer free linked net sent_on" and "free w0" and "4 \<le> length argv"
    and "length (argv ! 3) < 2 ^ 24"
  shows "\<exists>w. client_main net argv w0 = Inr ([ConnectOk, DataSend, Reply []], w)"
proof -
  obtain c w where c: "0 \<le> cl_socket_desc c" "linked w"
    "sent_on w (cl_socket_desc c) = be32 (of_nat (length (argv ! 3))) @ bytes_of (argv ! 3)"
    "client_main net argv w0 = bnd (client_reply (fst (Recv net c 2000 w)))
      (\<lambda>l3. Inr ([ConnectOk, DataSend, l3], TcpClient_delete net c (snd (Recv net c 2000 w))))"
    using client_exchange [OF assms(1,3,2)] by blast
  from client_line_of_echo [OF assms(1) c(1,2,3) assms(4)] c(4) show ?thesis by simp
qed

theorem client_prints_empty_echo_witness:
  "\<exists>w. client_main loopback [''c'', ''127.0.0.1'', ''9001'', ''hi''] [] =
    Inr ([ConnectOk, DataSend, Reply []], w)"
  by (rule client_prints_empty_echo [OF loopback_peer]) simp_all

end
