(* ===== verification/EchoSteps.thy ===== *)
theory EchoSteps imports EchoServer begin

text \<open>
  What holds from the state before a step of the echo server to the state after it. A relation that
  the primitive operations of \<open>EchoHandler::handle\<close> keep (a call of the system on the handler's
  descriptor, an update of the handler, \<open>removeSocket\<close>) is kept by the whole handler, by the loop's
  dispatch and by every run. The contract of one handler is a locale, that of the loop a second one
  that asks it of every handler.
\<close>

section \<open>One handler\<close>

locale echo_step =
  fixes os :: "'w os" and a :: addr and fd :: int
    and R :: "'w echo_state \<Rightarrow> 'w echo_state \<Rightarrow> bool"
  assumes R_refl: "R s s"
    and R_trans: "R s t \<Longrightarrow> R t u \<Longrightarrow> R s u"
    and R_instance: "R s t \<Longrightarrow> m_instance s \<noteq> None \<Longrightarrow> m_instance t \<noteq> None"
    and R_put: "R s (put_echo a h s)"
    and R_remove: "R s (removeSocket fd s)"
    and R_ctl: "R s (s\<lparr>world := snd (os_epoll_ctl os ep EPOLL_CTL_MOD fd ev (world s))\<rparr>)"
    and R_send: "R s (s\<lparr>world := snd (os_send os fd bs (world s))\<rparr>)"
    and R_recv: "R s (s\<lparr>world := snd (os_recv os fd n (world s))\<rparr>)"
begin

lemma R_update: "R s (updateSocket os fd ev s)"
  using R_ctl by (simp add: updateSocket_def split_def Let_def)

lemma echo_out_R:
  assumes "m_instance s \<noteq> None" and "eh_fd h = fd" and "echo_out os a h s = Inr (h', s')"
  shows "R s s'" and "eh_fd h' = fd"
proof -
  obtain l where l: "m_instance s = Some l"
    using assms(1) by blast
  show fd: "eh_fd h' = fd"
    using assms(2,3) by (auto simp: echo_out_def Let_def bnd_eq_Inr split_def split: option.splits)
  let ?after = "\<lambda>t. updateSocket os fd EPOLLIN (put_echo a h' t)"
  have "s' = ?after s \<or> (\<exists>bs. s' = ?after (s\<lparr>world := snd (os_send os fd bs (world s))\<rparr>))"
    using assms(2,3) l
    by (auto simp: echo_out_def Let_def bnd_eq_Inr singleInstance_existing split_def
        split: option.splits if_splits)
  then obtain t where t: "t = s \<or> (\<exists>bs. t = s\<lparr>world := snd (os_send os fd bs (world s))\<rparr>)"
    and s': "s' = ?after t"
    by blast
  have "R s t"
    using t R_refl R_send by blast
  with R_put R_update show "R s s'"
    unfolding s' by (blast intro: R_trans)
qed

lemma echo_in_R:
  assumes "m_instance s \<noteq> None" and "eh_fd h = fd" and "echo_in os a h s = Inr s'"
  shows "R s s'"
proof -
  obtain l where l: "m_instance s = Some l"
    using assms(1) by blast
  define t where "t = s\<lparr>world := snd (os_recv os fd (length (m_buffer h)) (world s))\<rparr>"
  have "(\<exists>h'. s' = updateSocket os fd EPOLLOUT (put_echo a h' t)) \<or>
      (\<exists>h'. s' = removeSocket fd (put_echo a h' t))"
    using assms(2,3) l
    by (auto simp: echo_in_def Let_def bnd_eq_Inr singleInstance_existing split_def t_def
        split: option.splits if_splits)
  then obtain h' where
    s': "s' = updateSocket os fd EPOLLOUT (put_echo a h' t) \<or> s' = removeSocket fd (put_echo a h' t)"
    by blast
  have "R s t"
    unfolding t_def by (rule R_recv)
  from R_trans [OF this R_put] s' R_update R_remove show ?thesis
    by (blast intro: R_trans)
qed

lemma EchoHandler_handle_R:
  assumes "m_instance s \<noteq> None" and "eh_fd h = fd" and "EchoHandler_handle os a h ev s = Inr s'"
  shows "R s s'"
proof -
  obtain l where l: "m_instance s = Some l"
    using assms(1) by blast
  from assms(2,3) l consider "s' = s" | "s' = removeSocket fd s"
    | h1 s1 where "h1 = h \<and> s1 = s \<or> echo_out os a h s = Inr (h1, s1)" "s' = s1 \<or> echo_in os a h1 s1 = Inr s'"
    by (auto simp: EchoHandler_handle_def bnd_eq_Inr singleInstance_existing split: if_splits)
  then show ?thesis
  proof cases
    case 3
    have s1: "R s s1" "eh_fd h1 = fd"
      using 3(1) echo_out_R [OF assms(1,2)] R_refl assms(2) by blast+
    with 3(2) echo_in_R [OF R_instance [OF s1(1) assms(1)] s1(2)] show ?thesis
      by (blast intro: R_trans)
  qed (simp_all add: R_refl R_remove)
qed

end

section \<open>The loop\<close>

locale echo_run =
  fixes os :: "'w os" and R :: "'w echo_state \<Rightarrow> 'w echo_state \<Rightarrow> bool"
  assumes handlers_keep: "echo_step os a fd R"
    and R_wait: "R s (s\<lparr>world := snd (os_epoll_wait os ep n (world s))\<rparr>)"
    and R_accept: "m_instance s \<noteq> None \<Longrightarrow> R s (ServerHandler_handle os sfd s)"
begin

lemmas run_refl = echo_step.R_refl [OF handlers_keep]
lemmas run_trans = echo_step.R_trans [OF handlers_keep]
lemmas run_instance = echo_step.R_instance [OF handlers_keep]

lemma dispatch_R:
  assumes "m_instance s \<noteq> None" and "dispatch os e s = Inr s'"
  shows "R s s'"
  using assms(2) R_accept [OF assms(1)] run_refl
    echo_step.EchoHandler_handle_R [OF handlers_keep assms(1) refl]
  by (auto simp: dispatch_def handle_def split: option.splits handler.splits)

lemma run_events_R:
  "m_instance s \<noteq> None \<Longrightarrow> run_events (dispatch os) evs s = Inr s' \<Longrightarrow> R s s'"
proof (induction evs arbitrary: s)
  case (Cons e evs)
  then obtain t where t: "dispatch os e s = Inr t" "run_events (dispatch os) evs t = Inr s'"
    by (auto simp: bnd_eq_Inr)
  note g = dispatch_R [OF Cons.prems(1) t(1)]
  from run_trans [OF g Cons.IH [OF run_instance [OF g Cons.prems(1)] t(2)]] show ?case .
qed (simp add: run_refl)

lemma run_round_R:
  assumes "m_instance s \<noteq> None" and "run_round os s = Inr s'"
  shows "R s s'"
proof -
  let ?t = "s\<lparr>world := snd (os_epoll_wait os (m_epollFd s) MAX_EVENTS (world s))\<rparr>"
  have "R ?t s'"
    using assms run_events_R [of ?t] run_refl
    by (auto simp: run_round_def split_def Let_def split: option.splits)
  with R_wait show ?thesis
    by (blast intro: run_trans)
qed

lemma run_R: "m_instance s \<noteq> None \<Longrightarrow> run os n s = Inr s' \<Longrightarrow> R s s'"
proof (induction n arbitrary: s)
  case (Suc n)
  then obtain t where t: "run_round os s = Inr t" "run os n t = Inr s'"
    by (auto simp: bnd_eq_Inr)
  note g = run_round_R [OF Suc.prems(1) t(1)]
  from run_trans [OF g Suc.IH [OF run_instance [OF g Suc.prems(1)] t(2)]] show ?case .
qed (simp add: run_refl)

end

section \<open>A handler leaves the others alone\<close>

definition local_step :: "addr \<Rightarrow> int \<Rightarrow> 'w echo_state \<Rightarrow> 'w echo_state \<Rightarrow> bool" where
  "local_step a fd s s' \<longleftrightarrow>
     (m_instance s \<noteq> None \<longrightarrow> m_instance s' \<noteq> None) \<and>
     (\<forall>b. b \<noteq> a \<longrightarrow> handlers s' b = handlers s b) \<and>
     (\<forall>fd'. fd' \<noteq> fd \<longrightarrow> m_socketHandlers s' fd' = m_socketHandlers s fd')"

interpretation local_handler: echo_step os a fd "local_step a fd" for os a fd
  by unfold_locales (auto simp: local_step_def removeSocket_def)

end
