(* ===== verification/EchoDrain.thy ===== *)
theory EchoDrain imports EchoFlow EchoSteps "HOL-Library.Sublist" begin

text \<open>
  Progress of the echo server under the hypotheses of \<open>EchoFlow\<close> (\<open>send\<close> takes every byte it is given,
  no read fills the buffer): when the system reports a connection as writable, one round sends
  everything that waits for it. With the streams of \<open>EchoFlow\<close>, which only grow, all that was
  received on the connection up to any earlier moment has then been sent back. The code does not look
  at the result of \<open>send\<close>: what a short \<open>send\<close> leaves over is lost.
\<close>

section \<open>The streams grow\<close>

definition streams_grow :: "'w os \<Rightarrow> 'w traffic \<Rightarrow> 'w traffic \<Rightarrow> 'w echo_state \<Rightarrow> 'w echo_state \<Rightarrow> bool" where
  "streams_grow os rd wr s t \<longleftrightarrow>
     (m_instance s \<noteq> None \<longrightarrow> m_instance t \<noteq> None) \<and>
     (os_ok os \<and> relay_ok os rd wr \<longrightarrow>
        (\<forall>fd. os_interest os (world s) fd \<noteq> None \<longrightarrow> os_interest os (world t) fd \<noteq> None \<and>
           prefix (rd (world s) fd) (rd (world t) fd) \<and> prefix (wr (world s) fd) (wr (world t) fd)))"

lemma streams_grow_world:
  assumes "\<And>fd. os_ok os \<Longrightarrow> relay_ok os rd wr \<Longrightarrow> os_interest os (world s) fd \<noteq> None \<Longrightarrow>
    os_interest os w fd \<noteq> None \<and> prefix (rd (world s) fd) (rd w fd) \<and> prefix (wr (world s) fd) (wr w fd)"
  shows "streams_grow os rd wr s (s\<lparr>world := w\<rparr>)"
  using assms by (simp add: streams_grow_def)

interpretation stream_step: echo_step os a fd "streams_grow os rd wr" for os a fd rd wr
proof unfold_locales
  show "streams_grow os rd wr s u" if "streams_grow os rd wr s t" "streams_grow os rd wr t u" for s t u
    using that unfolding streams_grow_def by (meson prefix_order.trans)
  show "streams_grow os rd wr s (s\<lparr>world := snd (os_epoll_ctl os ep EPOLL_CTL_MOD fd ev (world s))\<rparr>)"
    for s ep ev
    by (rule streams_grow_world) (simp add: os_interest_simps relay_simps)
  show "streams_grow os rd wr s (s\<lparr>world := snd (os_send os fd bs (world s))\<rparr>)" for s bs
    by (rule streams_grow_world) (simp add: os_interest_simps relay_simps)
  show "streams_grow os rd wr s (s\<lparr>world := snd (os_recv os fd n (world s))\<rparr>)" for s n
    by (rule streams_grow_world) (simp add: os_interest_simps relay_simps split: option.split)
qed (auto simp: streams_grow_def removeSocket_def)

interpretation stream_run: echo_run os "streams_grow os rd wr" for os rd wr
proof unfold_locales
  show "streams_grow os rd wr s (s\<lparr>world := snd (os_epoll_wait os ep n (world s))\<rparr>)" for s ep n
    by (rule streams_grow_world) (simp add: os_interest_simps relay_simps)
  show "streams_grow os rd wr s (ServerHandler_handle os sfd s)" if "m_instance s \<noteq> None" for s sfd
  proof -
    obtain l where l: "m_instance s = Some l"
      using \<open>m_instance s \<noteq> None\<close> by blast
    obtain c w where cw: "os_accept os sfd (world s) = (c, w)"
      by (cases "os_accept os sfd (world s)")
    have new: "os_interest os (world s) c = None" "os_interest os w = os_interest os (world s)" if "os_ok os"
      using os_interest_simps(3) [OF that, of sfd "world s"] os_interest_simps(4) [OF that, of "world s" sfd] cw
      by simp_all
    have acc: "rd w = (if c < 0 then rd (world s) else (rd (world s))(c := []))"
      "wr w = (if c < 0 then wr (world s) else (wr (world s))(c := []))" if "relay_ok os rd wr"
      using relay_simps(5,6) [OF that, of sfd "world s"] cw by simp_all
    show ?thesis
      unfolding ServerHandler_handle_eq [OF l cw]
      using new acc l by (auto simp: streams_grow_def os_interest_simps relay_simps)
  qed
qed

section \<open>Events of other connections\<close>

definition aside :: "'w os \<Rightarrow> 'w traffic \<Rightarrow> 'w traffic \<Rightarrow> int \<Rightarrow> addr \<Rightarrow> 'w echo_state \<Rightarrow> 'w echo_state \<Rightarrow> bool" where
  "aside os rd wr fd a s s' \<longleftrightarrow>
     same_fd os rd wr fd (world s) (world s') \<and> m_socketHandlers s' fd = m_socketHandlers s fd \<and>
     handlers s' a = handlers s a"

lemma aside_refl: "aside os rd wr fd a s s"
  by (simp add: aside_def same_fd_def)

lemma aside_trans: "aside os rd wr fd a s t \<Longrightarrow> aside os rd wr fd a t u \<Longrightarrow> aside os rd wr fd a s u"
  by (simp add: aside_def same_fd_def)

lemma accept_aside:
  assumes "os_ok os" and "relay_ok os rd wr" and "echo_inv os s"
    and "handlers s a \<noteq> None" and "os_interest os (world s) fd \<noteq> None"
  shows "aside os rd wr fd a s (ServerHandler_handle os sfd s)"
proof -
  obtain l where l: "m_instance s = Some l"
    using assms(3) by (auto simp: echo_inv_def)
  obtain c w where cw: "os_accept os sfd (world s) = (c, w)"
    by (cases "os_accept os sfd (world s)")
  have "c \<noteq> fd"
    using os_interest_simps(4) [OF assms(1), of "world s" sfd] cw assms(5) by auto
  moreover have "a \<noteq> next_handler s"
    using assms(3,4) by (auto simp: echo_inv_def)
  moreover have "os_interest os w = os_interest os (world s)"
    "rd w = (if c < 0 then rd (world s) else (rd (world s))(c := []))"
    "wr w = (if c < 0 then wr (world s) else (wr (world s))(c := []))"
    using os_interest_simps(3) [OF assms(1), of sfd "world s"] relay_simps(5,6) [OF assms(2), of sfd "world s"] cw
    by simp_all
  ultimately show ?thesis
    unfolding ServerHandler_handle_eq [OF l cw]
    by (auto simp: aside_def same_fd_def os_interest_simps [OF assms(1)] relay_simps [OF assms(2)])
qed

text \<open>An open connection: its descriptor leads to its handler.\<close>

definition connected :: "int \<Rightarrow> addr \<Rightarrow> 'w echo_state \<Rightarrow> bool" where
  "connected fd a s \<longleftrightarrow>
     m_socketHandlers s fd = Some a \<and> (\<exists>h. handlers s a = Some (EchoHandler h))"

lemma connected_aside: "aside os rd wr fd a s t \<Longrightarrow> connected fd a s \<Longrightarrow> connected fd a t"
  by (simp add: aside_def connected_def)

lemma connected_flow:
  assumes "flow_inv os rd wr s" and "connected fd a s"
  obtains h where "handlers s a = Some (EchoHandler h)" "eh_fd h = fd"
    "os_interest os (world s) fd \<in> {Some EPOLLIN, Some EPOLLOUT}"
    "rd (world s) fd = wr (world s) fd @ waiting os (world s) h"
proof -
  obtain h where h: "m_socketHandlers s fd = Some a" "handlers s a = Some (EchoHandler h)"
    using assms(2) by (auto simp: connected_def)
  have "eh_fd h = fd"
    using echo_inv_handler [OF _ h(1)] assms(1) h(2) unfolding flow_inv_def getFd_def by fastforce
  with that h assms(1) show ?thesis
    by (force simp: flow_inv_def relays_def)
qed

lemma dispatch_aside:
  assumes "os_ok os" and "relay_ok os rd wr" and "short_reads os buffer_size" and "flow_inv os rd wr s"
    and "due os s e" and "fst e \<noteq> fd" and "connected fd a s" and "dispatch os e s = Inr s'"
  shows "aside os rd wr fd a s s'"
proof (cases "m_socketHandlers s (fst e)")
  case None
  with assms(8) show ?thesis by (simp add: dispatch_def aside_refl)
next
  case (Some b)
  have inv: "echo_inv os s"
    using assms(4) by (simp add: flow_inv_def)
  obtain ha where ha: "handlers s a = Some (EchoHandler ha)" "eh_fd ha = fd"
    "os_interest os (world s) fd \<noteq> None"
    by (rule connected_flow [OF assms(4,7)]) auto
  obtain hb where hb: "handlers s b = Some hb" "getFd hb = fst e"
    using echo_inv_handler [OF inv Some] by blast
  show ?thesis
  proof (cases hb)
    case (ServerHandler sfd)
    with Some hb(1) assms(8) have "s' = ServerHandler_handle os sfd s"
      by (simp add: dispatch_def handle_def)
    with accept_aside [OF assms(1,2) inv _ ha(3)] ha(1) show ?thesis by simp
  next
    case (EchoHandler eh)
    with hb have fd: "eh_fd eh = fst e"
      by (simp add: getFd_def)
    have b: "b \<noteq> a"
      using ha hb EchoHandler fd assms(6) by auto
    have run: "EchoHandler_handle os b eh (snd e) s = Inr s'"
      using assms(8) Some hb(1) EchoHandler by (simp add: dispatch_def handle_def)
    have "m_socketHandlers s (eh_fd eh) = Some b" "due os s (eh_fd eh, snd e)"
      using Some fd assms(5) by simp_all
    from EchoHandler_handle_flow [OF assms(1-4) hb(1) [unfolded EchoHandler] this] run
    have "others os rd wr (fst e) (world s) (world s')"
      by (auto simp: fd)
    moreover have "local_step b (fst e) s s'"
      using local_handler.EchoHandler_handle_R [OF _ fd run] inv by (simp add: echo_inv_def)
    ultimately show ?thesis
      using assms(6) b by (simp add: aside_def others_def local_step_def)
  qed
qed

lemma batch_aside:
  assumes "os_ok os" and "relay_ok os rd wr" and "short_reads os buffer_size"
  shows "flow_inv os rd wr s \<Longrightarrow> distinct (map fst evs) \<Longrightarrow> \<forall>e \<in> set evs. due os s e \<and> fst e \<noteq> fd \<Longrightarrow>
    connected fd a s \<Longrightarrow>
    \<exists>s'. run_events (dispatch os) evs s = Inr s' \<and> flow_inv os rd wr s' \<and> aside os rd wr fd a s s' \<and>
      (\<forall>e. fst e \<notin> fst ` set evs \<longrightarrow> due os s e \<longrightarrow> due os s' e)"
proof (induction evs arbitrary: s)
  case Nil
  then show ?case by (simp add: aside_refl)
next
  case (Cons e evs)
  then have e: "due os s e" "fst e \<noteq> fd" by simp_all
  from dispatch_flow [OF assms Cons.prems(1) e(1)] obtain t where
    t: "dispatch os e s = Inr t" "flow_inv os rd wr t" "\<And>e'. fst e' \<noteq> fst e \<Longrightarrow> due os s e' \<Longrightarrow> due os t e'"
    by blast
  note aside = dispatch_aside [OF assms Cons.prems(1) e Cons.prems(4) t(1)]
  have "\<forall>e' \<in> set evs. due os t e' \<and> fst e' \<noteq> fd"
    using Cons.prems(2,3) t(3) by (metis distinct.simps(2) image_eqI list.set_intros(2) list.set_map list.simps(9))
  from Cons.IH [OF t(2) _ this connected_aside [OF aside Cons.prems(4)]] Cons.prems(2)
  obtain u where "run_events (dispatch os) evs t = Inr u" "flow_inv os rd wr u" "aside os rd wr fd a t u"
    "\<forall>e. fst e \<notin> fst ` set evs \<longrightarrow> due os t e \<longrightarrow> due os u e"
    by auto
  with t(1,3) aside_trans [OF aside] show ?case by auto
qed

section \<open>The round that answers\<close>

text \<open>A clean report that a connection is writable: no hang-up, no error.\<close>

definition clean_write :: "u32 \<Rightarrow> bool" where
  "clean_write ev \<longleftrightarrow> writable ev \<and> ev AND EPOLLHUP = 0 \<and> ev AND EPOLLERR = 0"

definition drained :: "'w os \<Rightarrow> 'w traffic \<Rightarrow> 'w traffic \<Rightarrow> int \<Rightarrow> 'w echo_state \<Rightarrow> bool" where
  "drained os rd wr fd s \<longleftrightarrow>
     wr (world s) fd = rd (world s) fd \<and> os_interest os (world s) fd = Some EPOLLIN"

lemma drained_aside: "aside os rd wr fd a s t \<Longrightarrow> drained os rd wr fd s \<Longrightarrow> drained os rd wr fd t"
  by (simp add: aside_def same_fd_def drained_def)

lemma dispatch_drains:
  assumes "os_ok os" and "relay_ok os rd wr" and "flow_inv os rd wr s" and "due os s (fd, ev)"
    and "connected fd a s" and "clean_write ev"
  shows "\<exists>s'. dispatch os (fd, ev) s = Inr s' \<and> flow_inv os rd wr s' \<and> connected fd a s' \<and>
    drained os rd wr fd s' \<and> rd (world s') fd = rd (world s) fd \<and> others os rd wr fd (world s) (world s')"
proof -
  obtain h where h: "handlers s a = Some (EchoHandler h)" "eh_fd h = fd"
    "os_interest os (world s) fd \<in> {Some EPOLLIN, Some EPOLLOUT}"
    by (rule connected_flow [OF assms(3,5)])
  have t: "m_socketHandlers s (eh_fd h) = Some a"
    using assms(5) h(2) by (simp add: connected_def)
  have out: "os_interest os (world s) (eh_fd h) = Some EPOLLOUT"
    using h(2,3) assms(4,6) by (auto simp: due_def ready_def clean_write_def)
  then have "ev AND EPOLLIN = 0"
    using assms(4) h(2) by (simp add: due_def readable_def [symmetric]) (simp add: readable_def)
  from echo_out_flow [OF assms(1-3) h(1) t out] obtain h' s' where
    s': "echo_out os a h s = Inr (h', s')" "flow_inv os rd wr s'" "others os rd wr (eh_fd h) (world s) (world s')"
    "rd (world s') = rd (world s)" "os_interest os (world s') (eh_fd h) = Some EPOLLIN"
    "m_socketHandlers s' = m_socketHandlers s" "handlers s' a = Some (EchoHandler h')"
    by blast
  have con: "connected fd a s'"
    using s'(6,7) assms(5) by (simp add: connected_def)
  obtain h2 where "rd (world s') fd = wr (world s') fd @ waiting os (world s') h2" "eh_fd h2 = fd"
    by (rule connected_flow [OF s'(2) con])
  then have "drained os rd wr fd s'"
    using s'(5) h(2) EPOLL_neq by (simp add: drained_def waiting_def)
  moreover have "dispatch os (fd, ev) s = Inr s'"
    using t h(1,2) s'(1) assms(6) \<open>ev AND EPOLLIN = 0\<close>
    by (simp add: dispatch_def handle_def EchoHandler_handle_def clean_write_def writable_def)
  ultimately show ?thesis
    using s' con h(2) by simp
qed

lemma run_events_append:
  "run_events f (xs @ ys) s = bnd (run_events f xs s) (run_events f ys)"
proof (induction xs arbitrary: s)
  case (Cons x xs)
  then show ?case by (cases "f x s") simp_all
qed simp

lemma batch_drains:
  assumes "os_ok os" and "relay_ok os rd wr" and "short_reads os buffer_size" and "flow_inv os rd wr s"
    and "distinct (map fst evs)" and "\<forall>e \<in> set evs. due os s e"
    and "connected fd a s" and "(fd, ev) \<in> set evs" and "clean_write ev"
  shows "\<exists>s'. run_events (dispatch os) evs s = Inr s' \<and> flow_inv os rd wr s' \<and> connected fd a s' \<and>
    drained os rd wr fd s' \<and> rd (world s') fd = rd (world s) fd"
proof -
  obtain xs ys where evs: "evs = xs @ (fd, ev) # ys"
    using assms(8) by (meson split_list)
  have xs: "distinct (map fst xs)" "\<forall>e \<in> set xs. due os s e \<and> fst e \<noteq> fd" "fd \<notin> fst ` set xs"
    and ys: "distinct (map fst ys)" "\<forall>e \<in> set ys. fst e \<notin> fst ` set xs \<and> fst e \<noteq> fd"
    using assms(5,6) unfolding evs by (auto simp: image_iff)
  from batch_aside [OF assms(1-4) xs(1,2) assms(7)] obtain t where
    t: "run_events (dispatch os) xs s = Inr t" "flow_inv os rd wr t" "aside os rd wr fd a s t"
    "\<forall>e. fst e \<notin> fst ` set xs \<longrightarrow> due os s e \<longrightarrow> due os t e"
    by blast
  have due: "due os t (fd, ev)" "\<forall>e \<in> set ys. due os t e"
    using t(4) xs(3) ys(2) assms(6) unfolding evs by auto
  from dispatch_drains [OF assms(1,2) t(2) due(1) connected_aside [OF t(3) assms(7)] assms(9)]
  obtain u where u: "dispatch os (fd, ev) t = Inr u" "flow_inv os rd wr u" "connected fd a u"
    "drained os rd wr fd u" "rd (world u) fd = rd (world t) fd" "others os rd wr fd (world t) (world u)"
    by blast
  have "due os u e" if "e \<in> set ys" for e
    using due_cong [of os rd wr e t u] u(6) that ys(2) due(2) by (simp add: others_def)
  with ys have "\<forall>e \<in> set ys. due os u e \<and> fst e \<noteq> fd"
    by blast
  from batch_aside [OF assms(1-3) u(2) ys(1) this u(3)] obtain v where
    v: "run_events (dispatch os) ys u = Inr v" "flow_inv os rd wr v" "aside os rd wr fd a u v"
    by blast
  have "rd (world v) fd = rd (world s) fd"
    using t(3) u(5) v(3) by (simp add: aside_def same_fd_def)
  with v connected_aside [OF v(3) u(3)] drained_aside [OF v(3) u(4)] t(1) u(1) show ?thesis
    by (simp add: evs run_events_append)
qed

lemma run_round_drains:
  assumes "os_ok os" and "relay_ok os rd wr" and "short_reads os buffer_size" and "flow_inv os rd wr s"
    and "os_epoll_wait os (m_epollFd s) MAX_EVENTS (world s) = (Some evs, w)"
    and "connected fd a s" and "(fd, ev) \<in> set evs" and "clean_write ev"
  shows "\<exists>s'. run_round os s = Inr s' \<and> connected fd a s' \<and> drained os rd wr fd s' \<and>
    rd (world s') fd = rd (world s) fd"
proof -
  let ?s = "s\<lparr>world := w\<rparr>"
  have "connected fd a ?s"
    using assms(6) by (simp add: connected_def)
  moreover have "distinct (map fst evs)"
    using os_wait_events [OF assms(1,5)] by blast
  moreover have "\<forall>e \<in> set evs. due os ?s e"
    using wait_due [OF assms(1,2,4,5)] by blast
  moreover note wait_flow [OF assms(1,2,4,5)]
  ultimately obtain s' where "run_events (dispatch os) evs ?s = Inr s'" "connected fd a s'"
    "drained os rd wr fd s'" "rd (world s') fd = rd (world ?s) fd"
    using batch_drains [OF assms(1-3), of ?s evs fd a ev] assms(7,8) by blast
  with wait_flow(1) [OF assms(1,2,4,5), of fd] assms(5) show ?thesis
    by (simp add: run_round_def same_fd_def)
qed

section \<open>Properties\<close>

lemma relay_world_answers:
  "case echo_main (watch (sim_os 10)) [''server'', ''9001''] relay_world of
     Inl code \<Rightarrow> False
   | Inr s0 \<Rightarrow> (case run (watch (sim_os 10)) 1 s0 of
       Inl e \<Rightarrow> False
     | Inr s \<Rightarrow> os_interest (watch (sim_os 10)) (world s) 7 = Some EPOLLIN \<and>
        (case run (watch (sim_os 10)) 1 s of
          Inl e \<Rightarrow> False
        | Inr t \<Rightarrow> (7, EPOLLOUT) \<in> set (case fst (os_epoll_wait (watch (sim_os 10)) (m_epollFd t) MAX_EVENTS (world t)) of
              None \<Rightarrow> [] | Some evs \<Rightarrow> evs) \<and>
            (case m_socketHandlers t 7 of None \<Rightarrow> False | Some a \<Rightarrow> a = 3) \<and>
            (case handlers t 3 of Some (EchoHandler h) \<Rightarrow> True | _ \<Rightarrow> False)))"
  by code_simp

text \<open>C14: progress, on a system where \<open>send\<close> takes every byte it is given and no \<open>recv\<close> fills the buffer:
  when it reports an open connection as writable, without an error or a hang-up, that round sends all
  that waits for it, whatever else happens in the round: everything received on the connection up to
  any earlier moment of the run has then been sent back on it, and the handler waits for input again.\<close>

theorem echo_answers_when_writable:
  assumes "os_ok os" and "relay_ok os rd wr" and "short_reads os buffer_size"
    and "echo_main os argv w0 = Inr s0" and "run os n s0 = Inr s" and "run os k s = Inr t"
    and "os_interest os (world s) fd \<noteq> None" and "connected fd a t"
    and "os_epoll_wait os (m_epollFd t) MAX_EVENTS (world t) = (Some evs, w)"
    and "(fd, ev) \<in> set evs" and "clean_write ev"
  shows "\<exists>u. run_round os t = Inr u \<and> connected fd a u \<and>
    prefix (rd (world s) fd) (wr (world u) fd) \<and> wr (world u) fd = rd (world u) fd \<and>
    os_interest os (world u) fd = Some EPOLLIN"
proof -
  have flow: "flow_inv os rd wr s" "flow_inv os rd wr t"
    using run_flow [OF assms(1-3) echo_main_flow [OF assms(4)], of n] run_flow [OF assms(1-3), of s k]
      assms(5,6) by auto
  then have "m_instance s \<noteq> None"
    by (simp add: flow_inv_def echo_inv_def)
  from stream_run.run_R [OF this assms(6), of rd wr] assms(1,2,7)
  have "prefix (rd (world s) fd) (rd (world t) fd)"
    by (simp add: streams_grow_def)
  with run_round_drains [OF assms(1-3) flow(2) assms(9,8,10,11)] show ?thesis
    by (auto simp: drained_def)
qed

theorem echo_answers_when_writable_witness:
  "\<exists>s0 s t u a. echo_main (watch (sim_os 10)) [''server'', ''9001''] relay_world = Inr s0 \<and>
    run (watch (sim_os 10)) 1 s0 = Inr s \<and> run (watch (sim_os 10)) 1 s = Inr t \<and>
    run_round (watch (sim_os 10)) t = Inr u \<and> connected 7 a u \<and>
    prefix (got (world s) 7) (put (world u) 7) \<and> put (world u) 7 = got (world u) 7 \<and>
    os_interest (watch (sim_os 10)) (world u) 7 = Some EPOLLIN"
proof -
  let ?os = "watch (sim_os 10)"
  obtain s0 s t evs where r: "echo_main ?os [''server'', ''9001''] relay_world = Inr s0"
    "run ?os 1 s0 = Inr s" "run ?os 1 s = Inr t" "os_interest ?os (world s) 7 \<noteq> None"
    and e: "fst (os_epoll_wait ?os (m_epollFd t) MAX_EVENTS (world t)) = Some evs" "(7, EPOLLOUT) \<in> set evs"
    and c: "connected 7 3 t"
    using relay_world_answers
    by (auto simp: connected_def simp del: run.simps One_nat_def
        split: sum.splits option.splits handler.splits dest: sym)
  have w: "os_epoll_wait ?os (m_epollFd t) MAX_EVENTS (world t) =
      (Some evs, snd (os_epoll_wait ?os (m_epollFd t) MAX_EVENTS (world t)))"
    using e(1) by (metis prod.collapse)
  have "short_reads ?os buffer_size"
    by (rule watch_short, rule sim_os_short) (simp add: buffer_size_def)
  moreover have "clean_write EPOLLOUT"
    by (simp add: clean_write_def epoll_flags writable_def)
  ultimately show ?thesis
    using echo_answers_when_writable [OF watch_ok [OF sim_os_ok] watch_sim_relay _ r(1,2,3,4) c w e(2)] r
    by blast
qed

end
