(* ===== verification/EchoClosed.thy ===== *)
theory EchoClosed imports EchoSteps begin

text \<open>
  What the echo server does with a connection after its peer has closed it:
  \<open>SocketsListener::removeSocket\<close> erases the table entry and nothing else. The descriptor is neither
  closed nor taken out of the epoll set, and the handler is not deleted.
\<close>

section \<open>Abandoned descriptors\<close>

definition abandoned :: "'w os \<Rightarrow> int \<Rightarrow> addr \<Rightarrow> 'w echo_state \<Rightarrow> bool" where
  "abandoned os fd a s \<longleftrightarrow>
     m_instance s \<noteq> None \<and> m_socketHandlers s fd = None \<and> os_interest os (world s) fd \<noteq> None \<and>
     handlers s a \<noteq> None"

text \<open>What a step may change: entries go, events are registered, handlers are created; entries appear
  only for descriptors that were not registered.\<close>

definition grows :: "'w os \<Rightarrow> 'w echo_state \<Rightarrow> 'w echo_state \<Rightarrow> bool" where
  "grows os s s' \<longleftrightarrow>
     (m_instance s \<noteq> None \<longrightarrow> m_instance s' \<noteq> None) \<and>
     (\<forall>fd. os_interest os (world s) fd \<noteq> None \<longrightarrow> os_interest os (world s') fd \<noteq> None) \<and>
     (\<forall>a. handlers s a \<noteq> None \<longrightarrow> handlers s' a \<noteq> None) \<and>
     (\<forall>fd. m_socketHandlers s fd = None \<longrightarrow> os_interest os (world s) fd \<noteq> None \<longrightarrow>
        m_socketHandlers s' fd = None)"

lemma grows_refl: "grows os s s"
  by (simp add: grows_def)

lemma grows_trans:
  assumes "grows os s t" and "grows os t u"
  shows "grows os s u"
  using assms by (simp add: grows_def)

lemma grows_abandoned: "grows os s s' \<Longrightarrow> abandoned os fd a s \<Longrightarrow> abandoned os fd a s'"
  by (simp add: grows_def abandoned_def)

text \<open>The primitive steps.\<close>

lemma grows_ctl:
  assumes "os_ok os"
  shows "grows os s (s\<lparr>world := snd (os_epoll_ctl os ep op fd ev (world s))\<rparr>)"
  by (auto simp: grows_def os_interest_simps(6) [OF assms])

lemma grows_world:
  "os_interest os w = os_interest os (world s) \<Longrightarrow> grows os s (s\<lparr>world := w\<rparr>)"
  by (simp add: grows_def)

lemma grows_put: "grows os s (put_echo a h s)"
  by (auto simp: grows_def)

lemma grows_remove: "grows os s (removeSocket fd s)"
  by (auto simp: grows_def removeSocket_def)

lemma ServerHandler_handle_grows:
  assumes "os_ok os" and "m_instance s \<noteq> None"
  shows "grows os s (ServerHandler_handle os fd s)"
proof -
  obtain l where l: "m_instance s = Some l"
    using assms(2) by blast
  obtain c w where cw: "os_accept os fd (world s) = (c, w)"
    by (cases "os_accept os fd (world s)")
  have w: "os_interest os w = os_interest os (world s)" "os_interest os (world s) c = None"
    using os_interest_simps(3) [OF assms(1), of fd "world s"]
      os_interest_simps(4) [OF assms(1), of "world s" fd] cw by simp_all
  show ?thesis
    unfolding ServerHandler_handle_eq [OF l cw]
    using w l by (auto simp: grows_def os_interest_simps(6) [OF assms(1)])
qed

text \<open>Every handler and every run grows, on a system that keeps its laws.\<close>

definition grows_if :: "'w os \<Rightarrow> 'w echo_state \<Rightarrow> 'w echo_state \<Rightarrow> bool" where
  "grows_if os s t \<longleftrightarrow> (m_instance s \<noteq> None \<longrightarrow> m_instance t \<noteq> None) \<and> (os_ok os \<longrightarrow> grows os s t)"

lemma grows_if_world:
  "(os_ok os \<Longrightarrow> grows os s (s\<lparr>world := w\<rparr>)) \<Longrightarrow> grows_if os s (s\<lparr>world := w\<rparr>)"
  by (simp add: grows_if_def)

interpretation closed_step: echo_step os a fd "grows_if os" for os a fd
proof unfold_locales
  show "grows_if os s u" if "grows_if os s t" "grows_if os t u" for s t u
    using that grows_trans unfolding grows_if_def by blast
  show "grows_if os s (s\<lparr>world := snd (os_epoll_ctl os ep EPOLL_CTL_MOD fd ev (world s))\<rparr>)" for s ep ev
    by (intro grows_if_world grows_ctl)
  show "grows_if os s (s\<lparr>world := snd (os_send os fd bs (world s))\<rparr>)" for s bs
    by (intro grows_if_world grows_world) (simp add: os_interest_simps)
  show "grows_if os s (s\<lparr>world := snd (os_recv os fd n (world s))\<rparr>)" for s n
    by (intro grows_if_world grows_world) (simp add: os_interest_simps)
  show "grows_if os s (removeSocket fd s)" for s
    using grows_remove [of os s fd] by (simp add: grows_if_def removeSocket_def)
qed (auto simp: grows_if_def grows_refl grows_put)

interpretation closed_run: echo_run os "grows_if os" for os
proof unfold_locales
  show "grows_if os s (s\<lparr>world := snd (os_epoll_wait os ep n (world s))\<rparr>)" for s ep n
    by (auto simp: os_interest_simps intro!: grows_if_world grows_world)
  show "grows_if os s (ServerHandler_handle os sfd s)" if "m_instance s \<noteq> None" for s sfd
    using ServerHandler_handle_grows [of os s sfd] that
    by (auto simp: grows_if_def ServerHandler_handle_eq split_def singleInstance_existing
        ServerHandler_handle_def new_handler_def addSocketHandler_def Let_def)
qed

lemma run_grows:
  assumes "os_ok os" and "m_instance s \<noteq> None" and "run os n s = Inr s'"
  shows "grows os s s'"
  using closed_run.run_R [OF assms(2,3)] assms(1) by (simp add: grows_if_def)

section \<open>Properties\<close>

text \<open>C28: when the peer has closed a connection, or reading failed, the handler forgets the descriptor
  for good but does not release it: in every later state it is still registered with epoll and has no
  handler, its events, which a level-triggered epoll reports in every round, are ignored, and the
  handler object still exists. The descriptor is never served again.\<close>

theorem closed_connection_abandoned:
  assumes "os_ok os" and "m_instance s \<noteq> None" and "os_interest os (world s) (eh_fd h) \<noteq> None"
    and "os_recv os (eh_fd h) (length (m_buffer h)) (world s) = (r, w)" and "r = None \<or> r = Some []"
  shows "\<exists>s1. echo_in os a h s = Inr s1 \<and>
    (\<forall>n s2 ev. run os n s1 = Inr s2 \<longrightarrow> abandoned os (eh_fd h) a s2 \<and> dispatch os (eh_fd h, ev) s2 = Inr s2)"
proof -
  obtain l where l: "m_instance s = Some l"
    using assms(2) by blast
  let ?s1 = "removeSocket (eh_fd h)
    (put_echo a (h\<lparr>m_received := Some (if r = None then -1 else 0)\<rparr>) s\<lparr>world := w\<rparr>)"
  have eq: "echo_in os a h s = Inr ?s1"
    by (rule echo_in_end_eq [OF l assms(4,5)])
  have "os_interest os w = os_interest os (world s)"
    using os_interest_simps(1) [OF assms(1), of "eh_fd h" "length (m_buffer h)" "world s"] assms(4) by simp
  with assms(2,3) have ab: "abandoned os (eh_fd h) a ?s1"
    by (simp add: abandoned_def removeSocket_def)
  have "abandoned os (eh_fd h) a s2" if "run os n ?s1 = Inr s2" for n s2
    using grows_abandoned [OF run_grows [OF assms(1) _ that] ab] ab by (simp add: abandoned_def)
  then show ?thesis
    using eq by (auto simp: dispatch_def abandoned_def split: option.split)
qed

theorem closed_connection_abandoned_witness:
  "\<exists>s1. echo_in (sim_os 10) 1 (EchoHandler_new 7)
      ((echo_initial \<lparr>sim_reg = [7 \<mapsto> EPOLLIN], sim_in = [], sim_out = []\<rparr>)\<lparr>m_instance := Some 9\<rparr>) = Inr s1 \<and>
    (\<forall>n s2 ev. run (sim_os 10) n s1 = Inr s2 \<longrightarrow>
      abandoned (sim_os 10) (eh_fd (EchoHandler_new 7)) 1 s2 \<and>
      dispatch (sim_os 10) (eh_fd (EchoHandler_new 7), ev) s2 = Inr s2)"
  by (rule closed_connection_abandoned [OF sim_os_ok, where r = None
        and w = "\<lparr>sim_reg = [7 \<mapsto> EPOLLIN], sim_in = [], sim_out = []\<rparr>"])
    (simp_all add: EchoHandler_new_def sim_os_def echo_initial_def)

end
