(* ===== verification/Demo.thy ===== *)
theory Demo imports MarsPlus CLib begin

text \<open>
  \<open>src/demo/demo.cpp\<close>: the demo client. Its listeners are two objects on the stack of \<open>main\<close>, given
  by their addresses; what they print is a function of the calls they receive. While \<open>main\<close> sleeps,
  Mars may call the wrapper: each sleep takes the list of the actions that happen in it.
\<close>

section \<open>The listeners\<close>

datatype listener_class = PushHandler | ResponseHandler

definition newline :: string where
  "newline = [char_of (10 :: nat)]"

text \<open>What one call prints.\<close>

fun ResponseHandler_print :: "event \<Rightarrow> string" where
  "ResponseHandler_print (OnResponse l message) = ''response received:'' @ c_str message @ '' '' @ newline"
| "ResponseHandler_print (OnError l err errMsg) = ''message send failed:'' @ show_int err @ '' '' @ newline"
| "ResponseHandler_print (OnSuccess l) = ''message send ok '' @ newline"
| "ResponseHandler_print e = []"

fun PushHandler_print :: "event \<Rightarrow> string" where
  "PushHandler_print e = []"

fun receiver :: "event \<Rightarrow> ptr" where
  "receiver (OnResponse l d) = Some l"
| "receiver (OnError l c m) = Some l"
| "receiver (OnSuccess l) = Some l"
| "receiver (OnPushMessage l d) = Some l"
| "receiver e = None"

definition printed :: "(addr \<Rightarrow> listener_class option) \<Rightarrow> event list \<Rightarrow> string" where
  "printed objects es = concat (map (\<lambda>e.
     case Option.bind (receiver e) objects of
       None \<Rightarrow> []
     | Some PushHandler \<Rightarrow> PushHandler_print e
     | Some ResponseHandler \<Rightarrow> ResponseHandler_print e) es)"

section \<open>main\<close>

definition hello :: "byte list" where
  "hello = [104, 101, 108, 108, 111]"

definition demo_main ::
    "'b autobuffer_api \<Rightarrow> task \<Rightarrow> bool \<Rightarrow> addr \<Rightarrow> addr \<Rightarrow> 'b action list \<Rightarrow> 'b action list \<Rightarrow>
     app_state \<Rightarrow> (int \<times> app_state) result" where
  "demo_main api task0 android pushHandler responseHandler first_sleep second_sleep s =
     (let config = MarsConfig_new ''39.106.56.27'' 9001;
          (r, s) = mars_init android config s;
          s = registerPushListener (Some pushHandler) s
      in bnd (run_all (do_action api task0 android) first_sleep s) (\<lambda>s.
         bnd (sendMessage task0 hello (of_nat (length hello)) (Some responseHandler) s) (\<lambda>(r, s).
         bnd (run_all (do_action api task0 android) second_sleep s) (\<lambda>s.
         Inr (0, s)))))"

section \<open>Lemmas\<close>

lemma printed_append: "printed objects (es @ fs) = printed objects es @ printed objects fs"
  by (simp add: printed_def)

lemma printed_task [simp]: "printed objects [StartTask t] = []"
  by (simp add: printed_def)

text \<open>The calls of \<open>init\<close> print nothing and leave the tasks alone.\<close>

lemma mars_init_frame:
  "messageId (snd (mars_init android config s)) = messageId s"
  "pending (snd (mars_init android config s)) = pending s"
  "printed objects (trace (snd (mars_init android config s))) = printed objects (trace s)"
  by (auto simp: mars_init_def StnCallBack_Instance_def AppCallBack_Instance_def emit_def printed_def
      pending_def getTaskConext_def fun_eq_iff Let_def split: option.split)

lemma register_frame [simp]:
  "pending (registerPushListener l s) = pending s"
  "messageId (registerPushListener l s) = messageId s"
  "trace (registerPushListener l s) = trace s"
  "proxy_inv (registerPushListener l s) = proxy_inv s"
  by (simp_all add: registerPushListener_def pending_def getTaskConext_def fun_eq_iff proxy_inv_defs
      cong: option.case_cong)

text \<open>The callbacks, in terms of the pending tasks.\<close>

lemma Req2Buf_pending:
  "proxy_inv s \<Longrightarrow> pending s i = Some (body, cb) \<Longrightarrow>
     Req2Buf api i out s = Inr (True, ab_write api out (frame i body))"
  using pending_iff Req2Buf_owns by metis

lemma Buf2Resp_pending:
  assumes "proxy_inv s" and "pending s i = Some (body, Some l)" and "autobuffer_ok api"
    and "ab_content api inbuf = frame i answer @ rest" and "body_fits answer"
    and "ab_length api inbuf < 2 ^ 31"
  shows "Buf2Resp api i inbuf s = Inr (0, emit (OnResponse l answer) s)"
proof -
  from assms(1,2) obtain a m where "owns s i a m body (Some l)"
    by (auto simp: pending_iff)
  from Buf2Resp_owns [OF assms(3,6) this] show ?thesis
    by (simp add: assms(4) packet_body_frame [OF assms(5)])
qed

text \<open>One answered exchange: the answer, then the end of the task.\<close>

lemma answered_exchange:
  assumes "proxy_inv s" and "body_fits body" and "messageId s < kSignallingKeeperTaskID"
    and "autobuffer_ok api" and "ab_content api inbuf = frame (messageId s) answer @ rest"
    and "body_fits answer" and "ab_length api inbuf < 2 ^ 31"
  shows "\<exists>s1 s2 s3. sendMessage task1 body (of_nat (length body)) (Some l) s = Inr (0, s1) \<and>
    proxy_inv s1 \<and> pending s1 (messageId s) = Some (body, Some l) \<and>
    Buf2Resp api (messageId s) inbuf s1 = Inr (0, s2) \<and>
    OnTaskEnd (messageId s) kEctOK ec s2 = Inr (0, s3) \<and>
    trace s3 = trace s @ [StartTask (started_task task1 (messageId s)), OnResponse l answer, OnSuccess l] \<and>
    pending s3 = pending s \<and> proxy_inv s3"
proof -
  from sendMessage_pending [OF assms(1-3), of task1 "Some l"] obtain s1 where
    s1: "sendMessage task1 body (of_nat (length body)) (Some l) s = Inr (0, s1)" "proxy_inv s1"
      "pending s1 = (pending s)(messageId s \<mapsto> (body, Some l))"
      "trace s1 = trace s @ [StartTask (started_task task1 (messageId s))]"
    by auto
  have p: "pending s1 (messageId s) = Some (body, Some l)"
    by (simp add: s1(3))
  note resp = Buf2Resp_pending [OF s1(2) p assms(4,5,6,7)]
  have inv: "proxy_inv (emit (OnResponse l answer) s1)"
    using s1(2) by simp
  from OnTaskEnd_pending [OF inv, of "messageId s" kEctOK ec] obtain s3 where
    s3: "OnTaskEnd (messageId s) kEctOK ec (emit (OnResponse l answer) s1) = Inr (0, s3)" "proxy_inv s3"
      "pending s3 = (pending s1)(messageId s := None)"
      "trace s3 = trace s1 @ [OnResponse l answer, OnSuccess l]"
    using p by (auto simp: emit_def final_call_def)
  have "pending s (messageId s) = None"
    using assms(1) by (simp add: pending_absent proxy_inv_fresh_id)
  then have "pending s3 = pending s"
    by (simp add: s3(3) s1(3) fun_eq_iff)
  with s1 p resp s3 show ?thesis by auto
qed

section \<open>Properties\<close>

text \<open>When the server answers the demo's message with any well-formed frame under its id and the
  task ends without an error, the demo prints the answer up to its first zero byte and the success
  line, nothing else, and no task stays pending.\<close>

theorem demo_prints_answer:
  assumes "autobuffer_ok api" and "ab_content api inbuf = frame messageId_init answer @ rest"
    and "body_fits answer" and "ab_length api inbuf < 2 ^ 31" and "ph \<noteq> rh"
  shows "\<exists>s. demo_main api task0 android ph rh []
      [Request messageId_init out, Response messageId_init inbuf, TaskEnd messageId_init kEctOK 0]
      initial_state = Inr (0, s) \<and>
    printed [ph \<mapsto> PushHandler, rh \<mapsto> ResponseHandler] (trace s) =
      ''response received:'' @ c_str answer @ '' '' @ newline @ ''message send ok '' @ newline \<and>
    pending s = pending initial_state"
proof -
  let ?s = "registerPushListener (Some ph)
    (snd (mars_init android (MarsConfig_new ''39.106.56.27'' 9001) initial_state))"
  have id: "messageId ?s = messageId_init"
    by (simp add: mars_init_frame initial_state_def)
  have inv: "proxy_inv ?s"
    using mars_init_inv [OF proxy_inv_initial] by simp
  have "body_fits hello" "messageId ?s < kSignallingKeeperTaskID"
    by (simp_all add: body_fits_def hello_def mars_init_frame initial_state_def kSignallingKeeperTaskID_def
        messageId_init_def)
  from answered_exchange [OF inv this assms(1) _ assms(3,4), of rest task0 rh 0] assms(2) id
  obtain s1 s2 s3 where s:
    "sendMessage task0 hello (of_nat (length hello)) (Some rh) ?s = Inr (0, s1)" "proxy_inv s1"
    "pending s1 messageId_init = Some (hello, Some rh)"
    "Buf2Resp api messageId_init inbuf s1 = Inr (0, s2)"
    "OnTaskEnd messageId_init kEctOK 0 s2 = Inr (0, s3)" "pending s3 = pending ?s"
    "trace s3 = trace ?s @ [StartTask (started_task task0 messageId_init), OnResponse rh answer, OnSuccess rh]"
    by auto
  have "demo_main api task0 android ph rh []
      [Request messageId_init out, Response messageId_init inbuf, TaskEnd messageId_init kEctOK 0]
      initial_state = Inr (0, s3)"
    using s Req2Buf_pending [OF s(2,3), of api out]
    by (simp add: demo_main_def case_prod_beta' Let_def)
  moreover have "printed [ph \<mapsto> PushHandler, rh \<mapsto> ResponseHandler] (trace s3) =
      ''response received:'' @ c_str answer @ '' '' @ newline @ ''message send ok '' @ newline"
    using assms(5)
    by (simp add: s(7) printed_append mars_init_frame)
      (simp add: printed_def initial_state_def)
  ultimately show ?thesis
    using s(6) by (auto simp: mars_init_frame)
qed

theorem demo_prints_answer_witness:
  "\<exists>s. demo_main list_buffer undefined False 100 200 []
      [Request messageId_init ([], 0), Response messageId_init (frame messageId_init hello, 0),
       TaskEnd messageId_init kEctOK 0] initial_state = Inr (0, s) \<and>
    printed [100 \<mapsto> PushHandler, 200 \<mapsto> ResponseHandler] (trace s) =
      ''response received:'' @ c_str hello @ '' '' @ newline @ ''message send ok '' @ newline \<and>
    pending s = pending initial_state"
  by (rule demo_prints_answer [where rest = "[]"])
    (simp_all add: list_buffer_ok ab_content_def body_fits_def hello_def)

end
