(* ===== verification/Preproc.thy ===== *)
theory Preproc imports CLib begin

text \<open>
  \<open>libs/mars/include/mars/xlog/preprocessor.h\<close>: arithmetic, logic, repetition, tuples and loops with
  macros, on which the logging macros rest. A macro is a function of its arguments: a numeral is a
  number, other text a list of tokens, a tuple the list of its parts. \<open>None\<close> means that the
  preprocessor finds no macro of the pasted name, or that an argument list does not fit. The macros
  that only force one more expansion (\<open>_I\<close>, \<open>_II\<close>) are merged with the macro they serve.
\<close>

type_synonym token = string

section \<open>Logic\<close>

definition PP_BOOL :: "nat \<Rightarrow> nat option" where
  "PP_BOOL x = (if x = 0 then Some 0 else if x \<le> 16 then Some 1 else None)"

fun PP_BITNOT :: "nat \<Rightarrow> nat option" where
  "PP_BITNOT 0 = Some 1"
| "PP_BITNOT (Suc 0) = Some 0"
| "PP_BITNOT x = None"

definition is_bit :: "nat \<Rightarrow> bool" where
  "is_bit x \<longleftrightarrow> x \<le> 1"

definition PP_BITAND :: "nat \<Rightarrow> nat \<Rightarrow> nat option" where
  "PP_BITAND x y = (if is_bit x \<and> is_bit y then Some (if x = 1 \<and> y = 1 then 1 else 0) else None)"

definition PP_BITOR :: "nat \<Rightarrow> nat \<Rightarrow> nat option" where
  "PP_BITOR x y = (if is_bit x \<and> is_bit y then Some (if x = 0 \<and> y = 0 then 0 else 1) else None)"

definition PP_BITXOR :: "nat \<Rightarrow> nat \<Rightarrow> nat option" where
  "PP_BITXOR x y = (if is_bit x \<and> is_bit y then Some (if x = y then 0 else 1) else None)"

definition PP_NOT :: "nat \<Rightarrow> nat option" where
  "PP_NOT x = Option.bind (PP_BOOL x) PP_BITNOT"

definition PP_AND :: "nat \<Rightarrow> nat \<Rightarrow> nat option" where
  "PP_AND p q = Option.bind (PP_BOOL p) (\<lambda>a. Option.bind (PP_BOOL q) (PP_BITAND a))"

definition PP_OR :: "nat \<Rightarrow> nat \<Rightarrow> nat option" where
  "PP_OR p q = Option.bind (PP_BOOL p) (\<lambda>a. Option.bind (PP_BOOL q) (PP_BITOR a))"

definition PP_XOR :: "nat \<Rightarrow> nat \<Rightarrow> nat option" where
  "PP_XOR p q = Option.bind (PP_BOOL p) (\<lambda>a. Option.bind (PP_BOOL q) (PP_BITXOR a))"

definition PP_IF :: "nat \<Rightarrow> 'a \<Rightarrow> 'a \<Rightarrow> 'a option" where
  "PP_IF cond t f = Option.bind (PP_BOOL cond) (\<lambda>b. if b = 0 then Some f else Some t)"

definition PP_COMMA_IF :: "nat \<Rightarrow> token list option" where
  "PP_COMMA_IF cond = PP_IF cond ['','']  []"

section \<open>Arithmetic\<close>

definition PP_INC :: "nat \<Rightarrow> nat option" where
  "PP_INC x = (if x < 16 then Some (x + 1) else if x = 16 then Some 16 else None)"

definition PP_DEC :: "nat \<Rightarrow> nat option" where
  "PP_DEC x = (if x = 0 then Some 0 else if x \<le> 16 then Some (x - 1) else None)"

section \<open>Repetition\<close>

text \<open>A macro passed to a repetition takes the running number.\<close>

fun PP_ENUM_REPEAT :: "nat \<Rightarrow> (nat \<Rightarrow> token list option) \<Rightarrow> token list option" where
  "PP_ENUM_REPEAT 0 macro = Some []"
| "PP_ENUM_REPEAT (Suc n) macro =
     (if n < 16
      then Option.bind (PP_ENUM_REPEAT n macro) (\<lambda>xs. map_option (\<lambda>ys. xs @ ys) (macro n))
      else None)"

text \<open>From 11 on the definition goes back to \<open>PP_ENUM_BINARY_REPEAT_9\<close>.\<close>

fun PP_ENUM_BINARY_REPEAT :: "nat \<Rightarrow> (nat \<Rightarrow> token list option) \<Rightarrow> token list option" where
  "PP_ENUM_BINARY_REPEAT 0 macro = Some []"
| "PP_ENUM_BINARY_REPEAT (Suc n) macro =
     (if n < 16
      then Option.bind (PP_ENUM_BINARY_REPEAT (if n < 10 then n else 9) macro)
             (\<lambda>xs. map_option (\<lambda>ys. xs @ ys) (macro n))
      else None)"

text \<open>\<open>text##n\<close> pastes the number to the last token.\<close>

definition paste :: "token list \<Rightarrow> nat \<Rightarrow> token list" where
  "paste text n = (if text = [] then [show_nat n] else butlast text @ [last text @ show_nat n])"

definition with_comma :: "nat \<Rightarrow> token list \<Rightarrow> token list option" where
  "with_comma n ts = map_option (\<lambda>c. c @ ts) (PP_COMMA_IF n)"

definition PP_ENUM :: "nat \<Rightarrow> token list \<Rightarrow> token list option" where
  "PP_ENUM count param = PP_ENUM_REPEAT count (\<lambda>n. with_comma n param)"

definition PP_ENUM_PARAMS :: "nat \<Rightarrow> token list \<Rightarrow> token list option" where
  "PP_ENUM_PARAMS count param = PP_ENUM_REPEAT count (\<lambda>n. with_comma n (paste param n))"

definition PP_ENUM_BINARY_PARAMS :: "nat \<Rightarrow> token list \<Rightarrow> token list \<Rightarrow> token list option" where
  "PP_ENUM_BINARY_PARAMS count a b =
     PP_ENUM_BINARY_REPEAT count (\<lambda>n. with_comma n (paste a n @ paste b n))"

definition PP_ENUM_TRAILING :: "nat \<Rightarrow> token list \<Rightarrow> token list option" where
  "PP_ENUM_TRAILING count param = PP_ENUM_REPEAT count (\<lambda>n. Some ('','' # param))"

definition PP_ENUM_TRAILING_PARAMS :: "nat \<Rightarrow> token list \<Rightarrow> token list option" where
  "PP_ENUM_TRAILING_PARAMS count param =
     PP_ENUM_REPEAT count (\<lambda>n. Some ('','' # paste param n))"

definition PP_ENUM_TRAILING_BINARY_PARAMS :: "nat \<Rightarrow> token list \<Rightarrow> token list \<Rightarrow> token list option" where
  "PP_ENUM_TRAILING_BINARY_PARAMS count a b =
     PP_ENUM_BINARY_REPEAT count (\<lambda>n. Some ('','' # paste a n @ paste b n))"

section \<open>Counting arguments\<close>

text \<open>
  \<open>PP_ARG_N\<close> returns its 17th argument; the list may not be empty, for a call without text has one
  empty argument.
\<close>

definition PP_RSEQ_N :: "nat list" where
  "PP_RSEQ_N = [16, 15, 14, 13, 12, 11, 10, 9, 8, 7, 6, 5, 4, 3, 2, 1, 0]"

definition PP_ARG_N :: "token list list \<Rightarrow> token list option" where
  "PP_ARG_N args = (if length args < 17 then None else Some (args ! 16))"

definition PP_NARG :: "token list list \<Rightarrow> token list option" where
  "PP_NARG args = PP_ARG_N (args @ map (\<lambda>n. [show_nat n]) PP_RSEQ_N)"

definition numeral_of :: "token list \<Rightarrow> nat option" where
  "numeral_of ts =
     (case ts of [t] \<Rightarrow> if t \<noteq> [] \<and> list_all is_digit t then Some (read_digits t) else None | _ \<Rightarrow> None)"

definition narg :: "token list list \<Rightarrow> nat option" where
  "narg args = Option.bind (PP_NARG args) numeral_of"

text \<open>
  \<open>PP_NUM_PARAMS_0 x ()\<close> becomes a comma, two empty arguments, exactly when \<open>x\<close> is empty.
\<close>

definition PP_NUM_PARAMS_0_1_TEST :: "token list \<Rightarrow> nat option" where
  "PP_NUM_PARAMS_0_1_TEST x =
     Option.bind (narg (if x = [] then [[], []] else [''PP_NUM_PARAMS_0'' # x @ [''('', '')'']])) (\<lambda>n.
     Option.bind (PP_DEC n) (\<lambda>d. PP_IF d 0 1))"

definition PP_NUM_PARAMS :: "token list list \<Rightarrow> nat option" where
  "PP_NUM_PARAMS args =
     Option.bind (narg args) (\<lambda>n. Option.bind (PP_DEC n) (\<lambda>d.
     Option.bind (PP_NUM_PARAMS_0_1_TEST (hd args)) (PP_IF d n)))"

section \<open>Tuples\<close>

definition PP_TUPLE_REM :: "nat \<Rightarrow> 'a list \<Rightarrow> 'a list option" where
  "PP_TUPLE_REM sz tuple = (if sz \<le> 16 \<and> length tuple = sz then Some tuple else None)"

definition PP_TUPLE_ELEM :: "nat \<Rightarrow> nat \<Rightarrow> 'a list \<Rightarrow> 'a option" where
  "PP_TUPLE_ELEM sz i tuple =
     (if 1 \<le> sz \<and> sz \<le> 16 \<and> i < sz \<and> length tuple = sz then Some (tuple ! i) else None)"

section \<open>Loops\<close>

text \<open>
  \<open>PP_WHILE_k\<close>; a predicate and an operation take the running number and the state. The last one is
  \<open>PP_ERROR\<close>.
\<close>

function PP_WHILE_from ::
    "nat \<Rightarrow> (nat \<Rightarrow> 's \<Rightarrow> nat option) \<Rightarrow> (nat \<Rightarrow> 's \<Rightarrow> 's option) \<Rightarrow> 's \<Rightarrow> 's option" where
  "PP_WHILE_from k pred opr st =
     (if 16 \<le> k then None
      else case Option.bind (pred k st) PP_BOOL of
             None \<Rightarrow> None
           | Some b \<Rightarrow>
               if b = 0 then Some st
               else Option.bind (opr k st) (PP_WHILE_from (Suc k) pred opr))"
  by pat_completeness auto
termination by (relation "measure (\<lambda>(k, _). 16 - k)") auto

declare PP_WHILE_from.simps [simp del]

definition PP_WHILE :: "(nat \<Rightarrow> 's \<Rightarrow> nat option) \<Rightarrow> (nat \<Rightarrow> 's \<Rightarrow> 's option) \<Rightarrow> 's \<Rightarrow> 's option" where
  "PP_WHILE pred opr st = PP_WHILE_from 0 pred opr st"

section \<open>Lemmas\<close>

text \<open>A repetition whose macro always expands is a concatenation.\<close>

lemma enum_repeat_concat:
  "n \<le> 16 \<Longrightarrow> (\<And>k. k < n \<Longrightarrow> macro k = Some (f k)) \<Longrightarrow>
     PP_ENUM_REPEAT n macro = Some (concat (map f [0..<n]))"
  by (induction n) auto

lemma enum_binary_repeat_10:
  "n \<le> 10 \<Longrightarrow> (\<And>k. k < n \<Longrightarrow> macro k = Some (f k)) \<Longrightarrow>
     PP_ENUM_BINARY_REPEAT n macro = Some (concat (map f [0..<n]))"
  by (induction n) auto

lemma enum_repeat_over: "16 < n \<Longrightarrow> PP_ENUM_REPEAT n macro = None"
  by (cases n) auto

lemma comma_if: "n \<le> 16 \<Longrightarrow> PP_COMMA_IF n = Some (if n = 0 then [] else ['',''])"
  by (simp add: PP_COMMA_IF_def PP_IF_def PP_BOOL_def)

lemma rseq_length: "length PP_RSEQ_N = 17"
  by (simp add: PP_RSEQ_N_def)

lemma rseq_nth: "i \<le> 16 \<Longrightarrow> PP_RSEQ_N ! i = 16 - i"
proof -
  have r: "PP_RSEQ_N = rev [0..<17]"
    by (simp add: PP_RSEQ_N_def upt_rec)
  assume "i \<le> 16"
  then show ?thesis by (simp add: r rev_nth)
qed

lemma numeral_show [simp]: "numeral_of [show_nat n] = Some n"
  by (simp add: numeral_of_def show_nat_nonempty read_show_nat show_nat_digits list_all_iff)

lemma narg_few: "length args \<le> 16 \<Longrightarrow> narg args = Some (length args)"
  using rseq_nth [of "16 - length args"]
  by (simp add: narg_def PP_NARG_def PP_ARG_N_def rseq_length nth_append)

lemma narg_many: "16 < length args \<Longrightarrow> PP_NARG args = Some (args ! 16)"
  by (simp add: PP_NARG_def PP_ARG_N_def rseq_length nth_append)

lemma test_0_1: "PP_NUM_PARAMS_0_1_TEST x = Some (if x = [] then 0 else 1)"
  by (simp add: PP_NUM_PARAMS_0_1_TEST_def narg_few PP_DEC_def PP_IF_def PP_BOOL_def)

lemma num_params:
  assumes "args \<noteq> []" and "length args \<le> 16"
  shows "PP_NUM_PARAMS args = Some (if args = [[]] then 0 else length args)"
proof (cases "length args = 1")
  case True
  then obtain x where "args = [x]" by (auto simp: length_Suc_conv)
  then show ?thesis
    by (simp add: PP_NUM_PARAMS_def narg_few test_0_1 PP_DEC_def PP_IF_def PP_BOOL_def)
next
  case False
  with assms have "args \<noteq> [[]]" "length args - 1 \<noteq> 0" by (auto simp: length_greater_0_conv [symmetric] simp del: length_greater_0_conv)
  with assms show ?thesis
    by (simp add: PP_NUM_PARAMS_def narg_few test_0_1 PP_DEC_def PP_IF_def PP_BOOL_def)
qed

text \<open>The states a loop goes through.\<close>

fun loop_state :: "(nat \<Rightarrow> 's \<Rightarrow> 's option) \<Rightarrow> nat \<Rightarrow> nat \<Rightarrow> 's \<Rightarrow> 's option" where
  "loop_state opr k 0 st = Some st"
| "loop_state opr k (Suc n) st = Option.bind (opr k st) (loop_state opr (Suc k) n)"

definition holds :: "nat option \<Rightarrow> bool \<Rightarrow> bool" where
  "holds r b \<longleftrightarrow> (\<exists>v. r = Some v \<and> v \<le> 16 \<and> (v \<noteq> 0) = b)"

lemma bool_holds: "Option.bind r PP_BOOL = Some b \<longleftrightarrow> holds r (b = 1) \<and> b \<le> 1"
  by (cases r) (auto simp: holds_def PP_BOOL_def)

lemma while_from_iff:
  "PP_WHILE_from k pred opr st = Some t \<longleftrightarrow>
     (\<exists>n. k + n < 16 \<and> loop_state opr k n st = Some t \<and> holds (pred (k + n) t) False \<and>
        (\<forall>j < n. \<exists>u. loop_state opr k j st = Some u \<and> holds (pred (k + j) u) True))"
  (is "?L k st \<longleftrightarrow> (\<exists>n. ?P n k st)")
proof (induction k pred opr st rule: PP_WHILE_from.induct)
  case (1 k pred opr st)
  have split: "(\<exists>n. Q n) \<longleftrightarrow> Q 0 \<or> (\<exists>n. Q (Suc n))" for Q :: "nat \<Rightarrow> bool"
    by (metis not0_implies_Suc)
  have all: "(\<forall>j < Suc n. Q j) \<longleftrightarrow> Q 0 \<and> (\<forall>j < n. Q (Suc j))" for Q :: "nat \<Rightarrow> bool" and n
    by (auto simp: less_Suc_eq_0_disj)
  show ?case
  proof (cases "16 \<le> k")
    case True
    then show ?thesis by (simp add: PP_WHILE_from.simps)
  next
    case False
    show ?thesis
    proof (cases "Option.bind (pred k st) PP_BOOL")
      case None
      then have "\<not> holds (pred k st) b" for b
        by (cases "pred k st") (auto simp: holds_def PP_BOOL_def split: if_splits)
      with None False show ?thesis
        by (subst PP_WHILE_from.simps, subst split) (auto simp: all)
    next
      case (Some b)
      then have h: "holds (pred k st) c \<longleftrightarrow> c = (b = 1)" "b \<le> 1" for c
        unfolding bool_holds by (auto simp: holds_def)
      show ?thesis
      proof (cases "b = 0")
        case True
        with Some False h show ?thesis
          by (subst PP_WHILE_from.simps, subst split) (auto simp: all)
      next
        case F: False
        with h(2) have "b = 1" by simp
        have ih: "opr k st = Some u \<Longrightarrow> PP_WHILE_from (Suc k) pred opr u = Some t \<longleftrightarrow>
          (\<exists>n. Suc k + n < 16 \<and> loop_state opr (Suc k) n u = Some t \<and> holds (pred (Suc k + n) t) False \<and>
            (\<forall>j < n. \<exists>w. loop_state opr (Suc k) j u = Some w \<and> holds (pred (Suc k + j) w) True))" for u
          using "1" [OF False Some F] by simp
        show ?thesis
          using Some False F h(1) \<open>b = 1\<close> ih
          by (subst PP_WHILE_from.simps, subst split) (cases "opr k st"; auto simp: all)
      qed
    qed
  qed
qed

section \<open>Properties\<close>

text \<open>\<open>PP_NUM_PARAMS\<close> counts the arguments of a macro call, no text counting as none, up to 16
  arguments. With more, \<open>PP_NARG\<close> is not a number but the 17th argument itself.\<close>

theorem PP_NUM_PARAMS_counts:
  assumes "args \<noteq> []"
  shows "if length args \<le> 16 then PP_NUM_PARAMS args = Some (if args = [[]] then 0 else length args)
    else PP_NARG args = Some (args ! 16)"
  using num_params [OF assms] narg_many by simp

theorem PP_NUM_PARAMS_counts_witness:
  "if length [[''a''], [''b'']] \<le> 16
   then PP_NUM_PARAMS [[''a''], [''b'']] = Some (if [[''a''], [''b'']] = [[]] then 0 else length [[''a''], [''b'']])
   else PP_NARG [[''a''], [''b'']] = Some ([[''a''], [''b'']] ! 16)"
  by (rule PP_NUM_PARAMS_counts) simp

text \<open>The two repetitions agree up to 10. Up to 16 \<open>PP_ENUM_REPEAT\<close> expands its macro for every
  number below the count; \<open>PP_ENUM_BINARY_REPEAT\<close> skips those from 9 up to the last but one.\<close>

theorem PP_ENUM_repeats:
  assumes "n \<le> 16"
  shows "PP_ENUM_REPEAT n (\<lambda>k. Some (f k)) = Some (concat (map f [0..<n])) \<and>
    PP_ENUM_BINARY_REPEAT n (\<lambda>k. Some (f k)) =
      Some (concat (map f (if n \<le> 10 then [0..<n] else [0..<9] @ [n - 1])))"
proof -
  have "PP_ENUM_BINARY_REPEAT n (\<lambda>k. Some (f k)) = Some (concat (map f ([0..<9] @ [n - 1])))"
    if big: "10 < n"
  proof -
    obtain m where m: "n = Suc m" using big by (cases n) auto
    have "PP_ENUM_BINARY_REPEAT 9 (\<lambda>k. Some (f k)) = Some (concat (map f [0..<9]))"
      by (rule enum_binary_repeat_10) simp_all
    with m big assms show ?thesis by simp
  qed
  then show ?thesis
    using assms enum_repeat_concat [of n "\<lambda>k. Some (f k)" f]
      enum_binary_repeat_10 [of n "\<lambda>k. Some (f k)" f] by simp
qed

theorem PP_ENUM_repeats_witness:
  "PP_ENUM_REPEAT 12 (\<lambda>k. Some [show_nat k]) = Some (concat (map (\<lambda>k. [show_nat k]) [0..<12])) \<and>
    PP_ENUM_BINARY_REPEAT 12 (\<lambda>k. Some [show_nat k]) =
      Some (concat (map (\<lambda>k. [show_nat k]) (if 12 \<le> (10 :: nat) then [0..<12] else [0..<9] @ [12 - 1])))"
  by (rule PP_ENUM_repeats) simp

text \<open>\<open>PP_WHILE\<close> is a while loop with at most 15 rounds: it results in \<open>t\<close> exactly when the
  predicate is true in the first \<open>n\<close> states and false in the next one, \<open>t\<close>, for some \<open>n\<close> below 16.\<close>

theorem PP_WHILE_loop:
  "PP_WHILE pred opr st = Some t \<longleftrightarrow>
     (\<exists>n \<in> {..<16}. loop_state opr 0 n st = Some t \<and> holds (pred n t) False \<and>
        list_all (\<lambda>j. \<exists>u. loop_state opr 0 j st = Some u \<and> holds (pred j u) True) [0..<n])"
  by (auto simp: PP_WHILE_def while_from_iff list_all_iff)

end
