(* ===== verification/StringCast.thy ===== *)
theory StringCast imports CLib begin

text \<open>
  \<open>libs/mars/include/mars/comm/string_cast.h\<close>: numbers to text for the logging functions and text
  back to numbers. An integer type is a record of signedness and width; every type the template is
  used with has the width of \<open>int\<close> or more, so no promotion takes place. Arithmetic the source does
  in the type \<open>T\<close> is done on \<open>int\<close> and converted, and a signed result outside \<open>T\<close> is the error
  \<open>SignedOverflow\<close>. \<open>strtoimax\<close> and \<open>strtoumax\<close> are those of \<open>CLib\<close>; \<open>strtod\<close>, whose result depends on the
  format of \<open>double\<close>, is a parameter that returns the value and the number of characters it used.
\<close>

section \<open>string_cast_itoa\<close>

definition num_mapping :: "bool \<Rightarrow> string" where
  "num_mapping upper_case =
     (if upper_case then ''ZYXWVUTSRQPONMLKJIHGFEDCBA9876543210123456789ABCDEFGHIJKLMNOPQRSTUVWXYZ''
      else ''zyxwvutsrqponmlkjihgfedcba9876543210123456789abcdefghijklmnopqrstuvwxyz'')"

lemma c_div_abs: "0 < b \<Longrightarrow> \<bar>c_div a b\<bar> = \<bar>a\<bar> div b"
  by (cases "a = 0") (auto simp: c_div_def abs_mult sgn_if pos_imp_zdiv_nonneg_iff)

lemma c_div_smaller: "2 \<le> b \<Longrightarrow> a \<noteq> 0 \<Longrightarrow> \<bar>c_div a b\<bar> < \<bar>a\<bar>"
  by (simp add: c_div_abs int_div_less_self)

lemma c_div_zero [simp]: "c_div 0 b = 0"
  by (simp add: c_div_def)

text \<open>The first loop: the characters it writes, least significant digit first.\<close>

function itoa_loop :: "int_ty \<Rightarrow> int \<Rightarrow> string \<Rightarrow> int \<Rightarrow> string result" where
  "itoa_loop T base mapping tmp_value =
     (if base < 2 then Inl AssertFail
      else let quotient = c_div tmp_value base
           in if ty_signed T \<and> \<not> in_ty T (35 + tmp_value) then Inl SignedOverflow
              else let i = nat (c_conv T (35 + tmp_value - quotient * base))
                   in if length mapping \<le> i then Inl OutOfBounds
                      else if quotient = 0 then Inr [mapping ! i]
                      else bnd (itoa_loop T base mapping quotient) (\<lambda>cs. Inr (mapping ! i # cs)))"
  by pat_completeness auto

termination
proof (relation "measure (\<lambda>(T, b, m, v). nat \<bar>v\<bar>)", goal_cases)
  case (2 T b m v q i)
  then have "v \<noteq> 0" by auto
  with 2 c_div_smaller [of b v] show ?case by simp
qed simp

declare itoa_loop.simps [simp del]

text \<open>The second loop reverses in place: \<open>l\<close> and \<open>r\<close> are the two pointers.\<close>

function swap_loop :: "nat \<Rightarrow> nat \<Rightarrow> string \<Rightarrow> string" where
  "swap_loop l r s =
     (if l < r then swap_loop (l + 1) (r - 1) (s[r := s ! l, l := s ! r]) else s)"
  by pat_completeness auto
termination by (relation "measure (\<lambda>(l, r, s). r - l)") auto

declare swap_loop.simps [simp del]

text \<open>\<open>cap\<close> is the size of the array behind \<open>result\<close>; the text is what stands before the terminator.\<close>

definition string_cast_itoa :: "int_ty \<Rightarrow> int \<Rightarrow> int \<Rightarrow> bool \<Rightarrow> nat \<Rightarrow> string result" where
  "string_cast_itoa T val base upper_case cap =
     (if \<not> (2 \<le> base \<and> base \<le> 36)
      then if cap < 9 then Inl OutOfBounds else Inr ''itoa err''
      else bnd (itoa_loop T base (num_mapping upper_case) val) (\<lambda>cs.
           let cs = (if val < 0 then cs @ ''-'' else cs)
           in if cap < length cs + 1 then Inl OutOfBounds
              else Inr (swap_loop 0 (length cs - 1) cs)))"

section \<open>string_cast\<close>

definition int_T :: int_ty where
  "int_T = \<lparr>ty_signed = True, ty_width = 32\<rparr>"

definition long_T :: int_ty where
  "long_T = \<lparr>ty_signed = True, ty_width = 64\<rparr>"

definition unsigned_int_T :: int_ty where
  "unsigned_int_T = \<lparr>ty_signed = False, ty_width = 32\<rparr>"

definition unsigned_long_T :: int_ty where
  "unsigned_long_T = \<lparr>ty_signed = False, ty_width = 64\<rparr>"

text \<open>The constructors; \<open>float\<close>, \<open>double\<close> and \<open>long double\<close> take the text \<open>printf\<close> makes of them.\<close>

datatype cast_arg =
    CastChar char
  | CastInt int_ty int int
  | CastFloat string
  | CastBool bool
  | CastPtr int
  | CastStr "string option"

definition value_cache_size :: nat where
  "value_cache_size = 65"

fun string_cast_str :: "cast_arg \<Rightarrow> string option result" where
  "string_cast_str (CastChar c) = Inr (Some (if of_char c = (0 :: nat) then [] else [c]))"
| "string_cast_str (CastInt T v base) =
     bnd (string_cast_itoa T v base True value_cache_size) (\<lambda>s. Inr (Some s))"
| "string_cast_str (CastFloat s) = Inr (Some (take (value_cache_size - 1) s))"
| "string_cast_str (CastBool b) = Inr (Some (if b then ''true'' else ''false''))"
| "string_cast_str (CastPtr p) =
     bnd (string_cast_itoa unsigned_long_T p 16 True (value_cache_size - 2))
       (\<lambda>s. Inr (Some (''0x'' @ s)))"
| "string_cast_str (CastStr s) = Inr s"

section \<open>number_cast\<close>

text \<open>The value and the flag \<open>vaild_\<close>.\<close>

definition clamp :: "int_ty \<Rightarrow> int \<times> nat \<Rightarrow> int \<times> bool" where
  "clamp T r =
     (let (v, used) = r
      in if used = 0 then (v, False)
         else if v < ty_min T then (ty_min T, False)
         else if ty_max T < v then (ty_max T, False)
         else (v, True))"

definition signed_number_cast :: "int_ty \<Rightarrow> string option \<Rightarrow> int \<times> bool" where
  "signed_number_cast T str =
     (case str of None \<Rightarrow> (0, False) | Some s \<Rightarrow> clamp T (strtoimax s))"

definition unsigned_number_cast :: "int_ty \<Rightarrow> string option \<Rightarrow> int \<times> bool" where
  "unsigned_number_cast T str =
     (case str of None \<Rightarrow> (0, False) | Some s \<Rightarrow> clamp T (strtoumax s))"

definition float_number_cast ::
    "(string \<Rightarrow> 'd \<times> nat) \<Rightarrow> 'd \<Rightarrow> string option \<Rightarrow> 'd \<times> bool" where
  "float_number_cast strtod zero str =
     (case str of None \<Rightarrow> (zero, False) | Some s \<Rightarrow> let (v, used) = strtod s in (v, used \<noteq> 0))"

definition string_number_cast :: "string option \<Rightarrow> string option \<times> bool" where
  "string_number_cast str = (case str of None \<Rightarrow> (None, False) | Some s \<Rightarrow> (Some s, True))"

definition to_lower :: "char \<Rightarrow> char" where
  "to_lower c =
     (if 65 \<le> (of_char c :: nat) \<and> (of_char c :: nat) \<le> 90 then char_of (of_char c + 32 :: nat) else c)"

definition strcasecmp_eq :: "string \<Rightarrow> string \<Rightarrow> bool" where
  "strcasecmp_eq a b \<longleftrightarrow> map to_lower a = map to_lower b"

text \<open>\<open>split\<close> is \<open>strutil::SplitToken\<close> with the default delimiters.\<close>

definition bool_number_cast :: "(string \<Rightarrow> string list) \<Rightarrow> string option \<Rightarrow> bool \<times> bool" where
  "bool_number_cast split str =
     (case str of
        None \<Rightarrow> (False, False)
      | Some s \<Rightarrow>
          (case split s of
             [] \<Rightarrow> (False, False)
           | t # ts \<Rightarrow>
               let r = (if t = ''1'' \<or> strcasecmp_eq ''true'' t then (True, True) else (False, False));
                   r = (if t = ''0'' \<or> strcasecmp_eq ''false'' t then (False, True) else r)
               in r))"

text \<open>
  The specialisations of \<open>number_cast\<close> for integers: the type decides between the two templates,
  both with base 0. \<open>long\<close> has 64 bits.
\<close>

datatype number_target =
    to_int8
  | to_int16
  | to_int32
  | to_long
  | to_long_long
  | to_uint8
  | to_uint16
  | to_uint32
  | to_unsigned_long
  | to_unsigned_long_long

fun target_ty :: "number_target \<Rightarrow> int_ty" where
  "target_ty to_int8 = \<lparr>ty_signed = True, ty_width = 8\<rparr>"
| "target_ty to_int16 = \<lparr>ty_signed = True, ty_width = 16\<rparr>"
| "target_ty to_int32 = \<lparr>ty_signed = True, ty_width = 32\<rparr>"
| "target_ty to_long = \<lparr>ty_signed = True, ty_width = 64\<rparr>"
| "target_ty to_long_long = \<lparr>ty_signed = True, ty_width = 64\<rparr>"
| "target_ty to_uint8 = \<lparr>ty_signed = False, ty_width = 8\<rparr>"
| "target_ty to_uint16 = \<lparr>ty_signed = False, ty_width = 16\<rparr>"
| "target_ty to_uint32 = \<lparr>ty_signed = False, ty_width = 32\<rparr>"
| "target_ty to_unsigned_long = \<lparr>ty_signed = False, ty_width = 64\<rparr>"
| "target_ty to_unsigned_long_long = \<lparr>ty_signed = False, ty_width = 64\<rparr>"

definition number_cast :: "number_target \<Rightarrow> string option \<Rightarrow> int \<times> bool" where
  "number_cast target str =
     (if ty_signed (target_ty target) then signed_number_cast (target_ty target) str
      else unsigned_number_cast (target_ty target) str)"

section \<open>The reference: positional notation\<close>

fun digits :: "nat \<Rightarrow> nat \<Rightarrow> nat list" where
  "digits b n = (if b < 2 \<or> n < b then [n] else digits b (n div b) @ [n mod b])"

declare digits.simps [simp del]

definition digit_char :: "bool \<Rightarrow> nat \<Rightarrow> char" where
  "digit_char up d = num_mapping up ! (35 + d)"

definition show_base :: "bool \<Rightarrow> nat \<Rightarrow> int \<Rightarrow> string" where
  "show_base up b v =
     (if v < 0 then ''-'' else []) @ map (digit_char up) (digits b (nat \<bar>v\<bar>))"

definition value_of :: "nat \<Rightarrow> nat list \<Rightarrow> nat" where
  "value_of b ds = fold (\<lambda>d n. b * n + d) ds 0"

lemma value_of_digits: "value_of b (digits b n) = n"
  unfolding value_of_def
  by (induction b n rule: digits.induct) (subst digits.simps, simp)

lemma digits_less: "2 \<le> b \<Longrightarrow> \<forall>d \<in> set (digits b n). d < b"
proof (induction b n rule: digits.induct)
  case (1 b n)
  then show ?case by (subst digits.simps) auto
qed

lemma digits_length: "2 \<le> b \<Longrightarrow> n < b ^ Suc k \<Longrightarrow> length (digits b n) \<le> Suc k"
proof (induction k arbitrary: n)
  case 0
  then show ?case by (subst digits.simps) simp
next
  case (Suc k)
  show ?case
  proof (cases "n < b")
    case False
    have "n div b < b ^ Suc k"
      using Suc.prems by (simp add: less_mult_imp_div_less mult.commute)
    with Suc False show ?thesis by (subst digits.simps) simp
  qed (subst digits.simps, simp)
qed

section \<open>The loops compute the reference\<close>

lemma c_div_rest: "0 < b \<Longrightarrow> v - c_div v b * b = sgn v * (\<bar>v\<bar> mod b)"
proof -
  assume "0 < b"
  then have "c_div v b = sgn v * (\<bar>v\<bar> div b)"
    by (simp add: c_div_def)
  moreover have "\<bar>v\<bar> = \<bar>v\<bar> div b * b + \<bar>v\<bar> mod b"
    by simp
  moreover have "v = sgn v * \<bar>v\<bar>"
    by (simp add: sgn_mult_abs)
  ultimately show ?thesis
    by (metis add_diff_cancel_left' distrib_left mult.assoc)
qed

lemma length_num_mapping [simp]: "length (num_mapping up) = 71"
  by (simp add: num_mapping_def)

lemma num_mapping_mirror: "d \<le> 35 \<Longrightarrow> num_mapping up ! (35 - d) = digit_char up d"
proof -
  have "rev (num_mapping up) = take 35 (rev (num_mapping up)) @ drop 35 (num_mapping up)"
    by (simp add: num_mapping_def)
  have l: "rev (take 36 (num_mapping up)) = drop 35 (num_mapping up)"
    by (simp add: num_mapping_def)
  assume d: "d \<le> 35"
  have "digit_char up d = drop 35 (num_mapping up) ! d"
    by (simp add: digit_char_def)
  also have "\<dots> = take 36 (num_mapping up) ! (35 - d)"
    using d by (simp flip: l add: rev_nth)
  finally show ?thesis using d by simp
qed

text \<open>The index of a step, for a signed value on either side of the middle of the table.\<close>

lemma itoa_index:
  assumes "2 \<le> b" and "b \<le> 36" and "8 \<le> ty_width T" and "in_ty T v"
  shows "c_conv T (35 + v - c_div v b * b) = 35 + sgn v * (\<bar>v\<bar> mod b)"
    and "num_mapping up ! nat (35 + sgn v * (\<bar>v\<bar> mod b)) = digit_char up (nat \<bar>v\<bar> mod nat b)"
    and "nat (35 + sgn v * (\<bar>v\<bar> mod b)) < 71"
proof -
  define r where "r = \<bar>v\<bar> mod b"
  have "r < b"
    using assms(1) by (simp add: r_def)
  with assms(2) have "r \<le> 35"
    by linarith
  moreover have "0 \<le> r"
    using assms(1) by (simp add: r_def)
  ultimately have r: "0 \<le> r" "r \<le> 35"
    by simp_all
  have big: "(2::int) ^ 7 \<le> 2 ^ (ty_width T - 1)" "(2::int) ^ 8 \<le> 2 ^ ty_width T"
    using assms(3) by (intro power_increasing; simp)+
  have "in_ty T (35 + sgn v * r)"
    using assms(4) r big by (auto simp: in_ty_def ty_min_def ty_max_def sgn_if split: if_splits)
  then have "c_conv T (35 + sgn v * r) = 35 + sgn v * r"
    using assms(3) by (intro c_conv_id) simp_all
  moreover have "35 + v - c_div v b * b = 35 + sgn v * r"
    using c_div_rest [of b v] assms(1) unfolding r_def by linarith
  ultimately show "c_conv T (35 + v - c_div v b * b) = 35 + sgn v * (\<bar>v\<bar> mod b)"
    by (simp only: r_def)
  have n: "nat r = nat \<bar>v\<bar> mod nat b"
    using assms(1) by (simp add: r_def nat_mod_distrib)
  have "num_mapping up ! nat (35 + sgn v * r) = digit_char up (nat r)"
  proof (cases "v < 0")
    case True
    then have "nat (35 + sgn v * r) = 35 - nat r"
      using r by simp
    with num_mapping_mirror [of "nat r" up] r show ?thesis by simp
  next
    case False
    then have "nat (35 + sgn v * r) = 35 + nat r \<or> r = 0"
      using r by (auto simp: sgn_if r_def nat_add_distrib)
    then show ?thesis by (auto simp: digit_char_def)
  qed
  then show "num_mapping up ! nat (35 + sgn v * (\<bar>v\<bar> mod b)) = digit_char up (nat \<bar>v\<bar> mod nat b)"
    by (simp flip: r_def add: n)
  have "35 + sgn v * r < 71"
    using r by (auto simp: sgn_if)
  then show "nat (35 + sgn v * (\<bar>v\<bar> mod b)) < 71"
    unfolding r_def by linarith
qed

lemma quotient_in_ty:
  assumes "2 \<le> b" and "8 \<le> ty_width T" and "in_ty T v"
  shows "in_ty T (c_div v b) \<and> (ty_signed T \<longrightarrow> c_div v b \<le> ty_max T - 35)"
proof -
  have abs: "\<bar>c_div v b\<bar> \<le> \<bar>v\<bar> div 2"
    using assms(1) zdiv_mono2 [of "\<bar>v\<bar>" 2 b] by (simp add: c_div_abs)
  have sg: "0 \<le> v \<Longrightarrow> 0 \<le> c_div v b"
    using assms(1) by (auto simp: c_div_def sgn_if pos_imp_zdiv_nonneg_iff)
  have "(2::int) ^ 7 \<le> 2 ^ (ty_width T - 1)"
    using assms(2) by (intro power_increasing) simp_all
  with abs sg assms(3) show ?thesis
    by (auto simp: in_ty_def ty_min_def ty_max_def split: if_splits)
qed

lemma itoa_loop_ok:
  assumes "2 \<le> b" and "b \<le> 36" and "8 \<le> ty_width T"
  shows "in_ty T v \<Longrightarrow> (ty_signed T \<longrightarrow> v \<le> ty_max T - 35) \<Longrightarrow>
    itoa_loop T b (num_mapping up) v =
      Inr (rev (map (digit_char up) (digits (nat b) (nat \<bar>v\<bar>))))"
proof (induction "nat \<bar>v\<bar>" arbitrary: v rule: less_induct)
  case less
  let ?q = "c_div v b"
  have abs: "nat \<bar>?q\<bar> = nat \<bar>v\<bar> div nat b"
    using assms(1) by (simp add: c_div_abs nat_div_distrib)
  have "in_ty T (35 + v)" if "ty_signed T"
    using less.prems that by (auto simp: in_ty_def)
  then have unfold: "itoa_loop T b (num_mapping up) v =
      (if ?q = 0 then Inr [digit_char up (nat \<bar>v\<bar> mod nat b)]
       else bnd (itoa_loop T b (num_mapping up) ?q) (\<lambda>cs. Inr (digit_char up (nat \<bar>v\<bar> mod nat b) # cs)))"
    using assms(1) itoa_index [OF assms less.prems(1)]
    by (subst itoa_loop.simps) (auto simp: Let_def)
  show ?case
  proof (cases "?q = 0")
    case True
    with abs have "nat \<bar>v\<bar> div nat b = 0" by simp
    then have "nat \<bar>v\<bar> < nat b"
      using assms(1) by (simp add: div_eq_0_iff)
    with True unfold assms(1) show ?thesis
      by (subst digits.simps) simp
  next
    case False
    then have "v \<noteq> 0" by auto
    then have small: "nat \<bar>?q\<bar> < nat \<bar>v\<bar>"
      using c_div_smaller [OF assms(1)] by simp
    have "\<not> nat \<bar>v\<bar> < nat b"
    proof
      assume "nat \<bar>v\<bar> < nat b"
      with abs have "nat \<bar>?q\<bar> = 0" by simp
      with False show False by simp
    qed
    moreover have "itoa_loop T b (num_mapping up) ?q =
        Inr (rev (map (digit_char up) (digits (nat b) (nat \<bar>?q\<bar>))))"
      using less.hyps [OF small] quotient_in_ty [OF assms(1,3) less.prems(1)] by blast
    moreover have "\<not> nat b < 2"
      using assms(1) by simp
    ultimately show ?thesis
      unfolding unfold using False abs by (subst digits.simps) simp
  qed
qed

text \<open>The second loop is list reversal.\<close>

lemma swap_loop_rev:
  "length s = l + length m + k \<Longrightarrow> s = take l s @ m @ drop (l + length m) s \<Longrightarrow>
     swap_loop l (l + length m - 1) s = take l s @ rev m @ drop (l + length m) s"
proof (induction "length m" arbitrary: l m s k rule: less_induct)
  case less
  show ?case
  proof (cases "length m \<le> 1")
    case True
    then have "rev m = m" by (cases m) auto
    moreover have "\<not> l < l + length m - 1" using True by auto
    ultimately show ?thesis
      using less.prems(2) by (subst swap_loop.simps) simp
  next
    case False
    then obtain a n z where m: "m = a # n @ [z]"
      by (cases m; cases "tl m" rule: rev_cases) auto
    define p e where "p = take l s" and "e = drop (l + length m) s"
    have s: "s = p @ a # n @ z # e" and lp: "length p = l"
      using less.prems m by (simp_all add: p_def e_def)
    let ?s = "p @ z # n @ a # e"
    have upd: "s[l + length m - 1 := s ! l, l := s ! (l + length m - 1)] = ?s"
      using lp m by (simp add: s list_update_append nth_append)
    have "swap_loop (l + 1) (l + 1 + length n - 1) ?s =
        take (l + 1) ?s @ rev n @ drop (l + 1 + length n) ?s"
      by (rule less.hyps [where k = "Suc (length e)"]) (use m lp in simp_all)
    moreover have "l < l + length m - 1" "l + length m - 1 - 1 = l + 1 + length n - 1"
      using m by simp_all
    ultimately have "swap_loop l (l + length m - 1) s = p @ z # rev n @ a # e"
      using upd lp by (subst swap_loop.simps) simp
    then show ?thesis by (simp add: m e_def flip: p_def)
  qed
qed

lemma swap_loop_is_rev: "swap_loop 0 (length s - 1) s = rev s"
  using swap_loop_rev [of s 0 s 0] by simp

text \<open>Reading a number back.\<close>

definition digit_value :: "bool \<Rightarrow> char \<Rightarrow> nat" where
  "digit_value up c = length (takeWhile (\<lambda>d. d \<noteq> c) (drop 35 (num_mapping up)))"

definition read_base :: "bool \<Rightarrow> nat \<Rightarrow> string \<Rightarrow> int" where
  "read_base up b s =
     (case s of
        [] \<Rightarrow> 0
      | c # cs \<Rightarrow>
          if c = CHR ''-'' then - int (value_of b (map (digit_value up) cs))
          else int (value_of b (map (digit_value up) s)))"

lemma takeWhile_index:
  "distinct xs \<Longrightarrow> i < length xs \<Longrightarrow> length (takeWhile (\<lambda>d. d \<noteq> xs ! i) xs) = i"
proof (induction xs arbitrary: i)
  case (Cons x xs)
  then show ?case by (cases i) auto
qed simp

lemma digit_table:
  "distinct (drop 35 (num_mapping up))" "CHR ''-'' \<notin> set (num_mapping up)"
  by (cases up; simp add: num_mapping_def)+

lemma digit_value_char: "d < 36 \<Longrightarrow> digit_value up (digit_char up d) = d \<and> digit_char up d \<noteq> CHR ''-''"
proof -
  assume d: "d < 36"
  then have c: "digit_char up d = drop 35 (num_mapping up) ! d"
    by (simp add: digit_char_def)
  have "digit_char up d \<in> set (num_mapping up)"
    using d unfolding digit_char_def by (intro nth_mem) simp
  then have "digit_char up d \<noteq> CHR ''-''"
    using digit_table(2) [of up] by metis
  moreover have "digit_value up (digit_char up d) = d"
    unfolding digit_value_def c using d by (intro takeWhile_index digit_table(1)) simp
  ultimately show ?thesis by blast
qed

lemma digits_nonempty: "digits b n \<noteq> []"
  by (subst digits.simps) simp

lemma read_show_base:
  assumes "2 \<le> b" and "b \<le> 36"
  shows "read_base up b (show_base up b v) = v"
proof -
  have "\<forall>d \<in> set (digits b n). d < 36" for n
    using digits_less [OF assms(1), of n] assms(2) by fastforce
  then have m: "map (digit_value up) (map (digit_char up) (digits b n)) = digits b n" for n
    by (simp add: digit_value_char cong: map_cong)
  obtain d ds where d: "digits b (nat \<bar>v\<bar>) = d # ds"
    using digits_nonempty [of b "nat \<bar>v\<bar>"] by (cases "digits b (nat \<bar>v\<bar>)") auto
  then have "digit_char up d \<noteq> CHR ''-''"
    using digits_less [OF assms(1), of "nat \<bar>v\<bar>"] assms(2) digit_value_char [of d up] by simp
  then have "read_base up b (map (digit_char up) (digits b (nat \<bar>v\<bar>))) = int (value_of b (digits b (nat \<bar>v\<bar>)))"
    using m [of "nat \<bar>v\<bar>"] by (simp add: read_base_def d)
  moreover have "read_base up b (''-'' @ map (digit_char up) (digits b (nat \<bar>v\<bar>))) =
      - int (value_of b (digits b (nat \<bar>v\<bar>)))"
    by (simp add: read_base_def m [unfolded map_map] del: map_map) (simp add: m [unfolded map_map])
  ultimately show ?thesis
    by (cases "v < 0") (simp_all add: show_base_def value_of_digits)
qed

lemma itoa_loop_overflow:
  "2 \<le> b \<Longrightarrow> ty_signed T \<Longrightarrow> in_ty T v \<Longrightarrow> ty_max T - 35 < v \<Longrightarrow>
     itoa_loop T b m v = Inl SignedOverflow"
  by (subst itoa_loop.simps) (simp add: Let_def in_ty_def)

lemma itoa_result:
  assumes "2 \<le> b" and "b \<le> 36" and "8 \<le> ty_width T" and "in_ty T v"
  shows "string_cast_itoa T v b up cap =
    (if ty_signed T \<and> ty_max T - 35 < v then Inl SignedOverflow
     else if cap \<le> length (show_base up (nat b) v) then Inl OutOfBounds
     else Inr (show_base up (nat b) v))"
proof (cases "ty_signed T \<and> ty_max T - 35 < v")
  case True
  then show ?thesis
    using assms by (simp add: string_cast_itoa_def itoa_loop_overflow)
next
  case False
  then have "itoa_loop T b (num_mapping up) v =
      Inr (rev (map (digit_char up) (digits (nat b) (nat \<bar>v\<bar>))))"
    using itoa_loop_ok [OF assms] by force
  with False assms(1,2) show ?thesis
    using swap_loop_is_rev [of "rev (map (digit_char up) (digits (nat b) (nat \<bar>v\<bar>)))"]
      swap_loop_is_rev [of "rev (map (digit_char up) (digits (nat b) (nat \<bar>v\<bar>))) @ ''-''"]
    by (auto simp: string_cast_itoa_def show_base_def Let_def)
qed

text \<open>How long a text can get in the types the constructors use.\<close>

lemma show_base_length:
  assumes "2 \<le> b" and "nat \<bar>v\<bar> < b ^ Suc k"
  shows "length (show_base up b v) \<le> (if v < 0 then Suc (Suc k) else Suc k)"
  using digits_length [OF assms] by (cases "v < 0") (simp_all add: show_base_def)

lemma digits_power: "2 \<le> b \<Longrightarrow> length (digits b (b ^ k)) = Suc k"
proof (induction k)
  case 0
  then show ?case by (subst digits.simps) simp
next
  case (Suc k)
  then show ?case by (subst digits.simps) simp
qed

lemma long_min_binary: "length (show_base up 2 (- (2 ^ 63))) = 65"
  using digits_power [of 2 63] by (simp add: show_base_def)

lemma wide_value_fits:
  assumes "2 \<le> b" and "ty_width T \<le> 64" and "in_ty T v" and "\<not> (b = 2 \<and> v = - (2 ^ 63))"
  shows "length (show_base up b v) < 65"
proof -
  have s: "(2::int) ^ (ty_width T - 1) \<le> 2 ^ 63" and u: "(2::int) ^ ty_width T \<le> 2 ^ 64"
    using assms(2) by (intro power_increasing; simp)+
  consider (big) "3 \<le> b" | (unsig) "b = 2" "0 \<le> v" | (neg) "b = 2" "v < 0"
    using assms(1) by linarith
  then show ?thesis
  proof cases
    case big
    have "nat \<bar>v\<bar> < 3 ^ Suc 40"
      using assms(3) s u by (auto simp: in_ty_def ty_min_def ty_max_def split: if_splits)
    also have "\<dots> \<le> b ^ Suc 40"
      using big by (intro power_mono) simp_all
    finally show ?thesis
      using show_base_length [OF assms(1), of v 40 up] by (simp split: if_splits)
  next
    case unsig
    have "nat \<bar>v\<bar> < 2 ^ Suc 63"
      using assms(3) s u unsig by (auto simp: in_ty_def ty_min_def ty_max_def split: if_splits)
    then show ?thesis
      using show_base_length [OF assms(1), of v 63 up] unsig by simp
  next
    case neg
    have "nat \<bar>v\<bar> < 2 ^ Suc 62"
      using assms(3,4) s neg by (auto simp: in_ty_def ty_min_def ty_max_def split: if_splits)
    then show ?thesis
      using show_base_length [OF assms(1), of v 62 up] neg by simp
  qed
qed

section \<open>The reference: constants in a text\<close>

text \<open>The integer constants of C, and what it means that a text starts with one.\<close>

datatype literal = Dec string | Oct string | Hex char string

fun literal_base :: "literal \<Rightarrow> nat" where
  "literal_base (Dec cs) = 10"
| "literal_base (Oct cs) = 8"
| "literal_base (Hex x cs) = 16"

fun literal_digits :: "literal \<Rightarrow> string" where
  "literal_digits (Dec cs) = cs"
| "literal_digits (Oct cs) = CHR ''0'' # cs"
| "literal_digits (Hex x cs) = cs"

fun spell :: "literal \<Rightarrow> string" where
  "spell (Hex x cs) = CHR ''0'' # x # cs"
| "spell l = literal_digits l"

fun literal_ok :: "literal \<Rightarrow> bool" where
  "literal_ok (Dec cs) \<longleftrightarrow> cs \<noteq> [] \<and> hd cs \<noteq> CHR ''0'' \<and> list_all (digit_in 10) cs"
| "literal_ok (Oct cs) \<longleftrightarrow> list_all (digit_in 8) cs"
| "literal_ok (Hex x cs) \<longleftrightarrow> (x = CHR ''x'' \<or> x = CHR ''X'') \<and> cs \<noteq> [] \<and> list_all (digit_in 16) cs"

definition literal_value :: "literal \<Rightarrow> nat" where
  "literal_value l = value_of (literal_base l) (map (\<lambda>c. the (digit_val c)) (literal_digits l))"

text \<open>A constant is as long as it can be.\<close>

definition literal_ends :: "literal \<Rightarrow> string \<Rightarrow> bool" where
  "literal_ends l rest \<longleftrightarrow>
     (rest \<noteq> [] \<longrightarrow> \<not> digit_in (literal_base l) (hd rest)) \<and> (l = Oct [] \<longrightarrow> \<not> hex_prefix (CHR ''0'' # rest))"

inductive spells :: "string \<Rightarrow> bool \<Rightarrow> nat \<Rightarrow> bool" where
  "list_all is_space ws \<Longrightarrow> sg \<in> {[], ''+'', ''-''} \<Longrightarrow> literal_ok l \<Longrightarrow> literal_ends l rest \<Longrightarrow>
     spells (ws @ sg @ spell l @ rest) (sg = ''-'') (literal_value l)"

lemma text_value_literal: "text_value (literal_base l) (literal_digits l) = literal_value l"
  by (simp add: text_value_def literal_value_def value_of_def fold_map comp_def)

lemma digit_first:
  "digit_in b c \<Longrightarrow> \<not> is_space c \<and> c \<noteq> CHR ''-'' \<and> c \<noteq> CHR ''+'' \<and> (b \<le> 10 \<longrightarrow> c \<noteq> CHR ''x'' \<and> c \<noteq> CHR ''X'')"
  by (auto simp: digit_in_def digit_val_def is_space_def Let_def split: if_splits)

lemma digit_zero [simp]: "digit_in b CHR ''0'' = (0 < b)" "digit_val CHR ''0'' = Some 0"
  by (simp_all add: digit_in_def digit_val_def)

lemma takeWhile_ends: "list_all P cs \<Longrightarrow> (rest \<noteq> [] \<longrightarrow> \<not> P (hd rest)) \<Longrightarrow> takeWhile P (cs @ rest) = cs"
  by (cases rest) (simp_all add: list_all_iff takeWhile_append2)

text \<open>The prefix of a constant is found, and then its digits.\<close>

lemma literal_scan:
  assumes "literal_ok l" and "literal_ends l rest" and "strto_base (spell l @ rest) = (b, p)"
  shows "b = literal_base l \<and> takeWhile (digit_in b) (drop p (spell l @ rest)) = literal_digits l"
proof (cases l)
  case (Dec cs)
  then obtain d ds where cs: "cs = d # ds" "d \<noteq> CHR ''0''"
    using assms(1) by (cases cs) auto
  then have "\<not> hex_prefix (cs @ rest)"
    by (cases "cs @ rest" rule: hex_prefix.cases) auto
  with assms Dec cs(2) have "b = 10" "p = 0"
    by (simp_all add: strto_base_def cs(1))
  with assms Dec show ?thesis
    using takeWhile_ends [of "digit_in 10" cs rest] by (simp add: literal_ends_def)
next
  case (Oct cs)
  have "\<not> hex_prefix (CHR ''0'' # cs @ rest)"
  proof (cases cs)
    case Nil
    with assms(2) Oct show ?thesis by (simp add: literal_ends_def)
  next
    case (Cons d ds)
    with assms(1) Oct digit_first [of 8 d] show ?thesis
      by (cases "ds @ rest") (auto simp del: append_eq_Cons_conv)
  qed
  with assms Oct have "b = 8" "p = 0"
    by (simp_all add: strto_base_def)
  with assms Oct show ?thesis
    using takeWhile_ends [of "digit_in 8" "CHR ''0'' # cs" rest] by (simp add: literal_ends_def)
next
  case (Hex x cs)
  then obtain d ds where cs: "cs = d # ds" "digit_in 16 d"
    using assms(1) by (cases cs) auto
  with assms Hex have "b = 16" "p = 2"
    by (auto simp: strto_base_def)
  with assms Hex show ?thesis
    using takeWhile_ends [of "digit_in 16" cs rest] by (simp add: literal_ends_def)
qed

lemma literal_first:
  assumes "literal_ok l"
  shows "\<exists>c cs. spell l @ rest = c # cs \<and> \<not> is_space c \<and> c \<noteq> CHR ''-'' \<and> c \<noteq> CHR ''+''"
proof (cases l)
  case (Dec cs)
  with assms show ?thesis
    using digit_first [of 10 "hd cs"] by (cases cs) auto
qed (use digit_first [of 8 "CHR ''0''"] in auto)

lemma strto_scan_spells:
  assumes "spells s neg n"
  shows "\<exists>used. strto_scan s = (neg, n, Suc used)"
  using assms
proof cases
  case (1 ws sg l rest)
  obtain c cs where c: "spell l @ rest = c # cs" "\<not> is_space c" "c \<noteq> CHR ''-''" "c \<noteq> CHR ''+''"
    using literal_first [OF 1(6)] by blast
  have "\<not> is_space CHR ''-''" "\<not> is_space CHR ''+''"
    by (simp_all add: is_space_def)
  with 1(5) c(2) have "dropWhile is_space (ws @ sg @ c # cs) = sg @ c # cs"
    using 1(4) by (auto simp: list_all_iff)
  moreover have "strto_sign (sg @ c # cs) = (neg, length sg)"
    using 1(2,5) c(3,4) by (auto simp: strto_sign_def)
  moreover obtain b p where bp: "strto_base (c # cs) = (b, p)"
    by (cases "strto_base (c # cs)")
  moreover have "b = literal_base l" "takeWhile (digit_in (literal_base l)) (drop p (c # cs)) = literal_digits l"
    using literal_scan [OF 1(6,7), unfolded c(1), OF bp] by auto
  moreover obtain d ds where "literal_digits l = d # ds"
    using 1(6) by (cases l; cases "literal_digits l") auto
  ultimately show ?thesis
    unfolding 1(1,3) c(1) using text_value_literal [of l] by (simp add: strto_scan_def Let_def)
qed

lemma ends_dropWhile:
  "(l = Oct [] \<longrightarrow> \<not> hex_prefix (CHR ''0'' # dropWhile (digit_in (literal_base l)) xs)) \<Longrightarrow>
     literal_ends l (dropWhile (digit_in (literal_base l)) xs)"
  unfolding literal_ends_def using hd_dropWhile [of "digit_in (literal_base l)" xs] by blast

lemma literal_found:
  assumes "strto_base cs = (b, p)" and "takeWhile (digit_in b) (drop p cs) \<noteq> []"
  shows "\<exists>l rest. literal_ok l \<and> literal_ends l rest \<and> cs = spell l @ rest"
proof -
  have all: "list_all (digit_in b) (takeWhile (digit_in b) xs)" for xs
    by (auto simp: list_all_iff dest: set_takeWhileD)
  consider (hex) "hex_prefix cs" "b = 16" "p = 2"
    | (oct) ds where "\<not> hex_prefix cs" "cs = CHR ''0'' # ds" "b = 8" "p = 0"
    | (dec) "cs = [] \<or> hd cs \<noteq> CHR ''0''" "b = 10" "p = 0"
    using assms(1) by (cases cs) (auto simp: strto_base_def split: if_splits)
  then show ?thesis
  proof cases
    case hex
    then obtain x ds where cs: "cs = CHR ''0'' # x # ds" "x = CHR ''x'' \<or> x = CHR ''X''"
      by (cases cs rule: hex_prefix.cases) auto
    with assms(2) hex all ends_dropWhile [of "Hex x (takeWhile (digit_in 16) ds)" ds] show ?thesis
      by (intro exI [of _ "Hex x (takeWhile (digit_in 16) ds)"] exI [of _ "dropWhile (digit_in 16) ds"]) auto
  next
    case oct
    have "\<not> hex_prefix (CHR ''0'' # dropWhile (digit_in 8) ds)" if "takeWhile (digit_in 8) ds = []"
      using oct(1,2) takeWhile_dropWhile_id [of "digit_in 8" ds] that by simp
    with oct all ends_dropWhile [of "Oct (takeWhile (digit_in 8) ds)" ds] show ?thesis
      by (intro exI [of _ "Oct (takeWhile (digit_in 8) ds)"] exI [of _ "dropWhile (digit_in 8) ds"]) auto
  next
    case dec
    then have "takeWhile (digit_in 10) cs \<noteq> []"
      using assms(2) by simp
    moreover from this have "hd (takeWhile (digit_in 10) cs) = hd cs" "cs \<noteq> []"
      by (cases cs; simp split: if_splits)+
    ultimately show ?thesis
      using dec all ends_dropWhile [of "Dec (takeWhile (digit_in 10) cs)" cs]
      by (intro exI [of _ "Dec (takeWhile (digit_in 10) cs)"] exI [of _ "dropWhile (digit_in 10) cs"]) auto
  qed
qed

lemma spells_scan:
  assumes "strto_scan s = (neg, n, used)" and "used \<noteq> 0"
  shows "\<exists>neg n. spells s neg n"
proof -
  let ?cs = "dropWhile is_space s"
  obtain ng k where sg: "strto_sign ?cs = (ng, k)"
    by (cases "strto_sign ?cs")
  obtain b p where bp: "strto_base (drop k ?cs) = (b, p)"
    by (cases "strto_base (drop k ?cs)")
  have "takeWhile (digit_in b) (drop p (drop k ?cs)) \<noteq> []"
    using assms sg bp by (auto simp: strto_scan_def Let_def simp del: drop_drop)
  from literal_found [OF bp this] obtain l rest where l: "literal_ok l" "literal_ends l rest"
    "drop k ?cs = spell l @ rest" by blast
  have sign: "take k ?cs \<in> {[], ''+'', ''-''}"
    using sg by (auto simp: strto_sign_def split: list.splits if_splits)
  have "list_all is_space (takeWhile is_space s)"
    by (auto simp: list_all_iff dest: set_takeWhileD)
  from spells.intros [OF this sign l(1,2)] have
    "spells (takeWhile is_space s @ take k ?cs @ drop k ?cs) (take k ?cs = ''-'') (literal_value l)"
    by (simp only: l(3))
  then show ?thesis
    unfolding append_take_drop_id takeWhile_dropWhile_id by blast
qed

lemma scan_nothing: "strto_scan s = (neg, n, 0) \<Longrightarrow> n = 0"
  by (auto simp: strto_scan_def text_value_def Let_def split: prod.splits if_splits)

lemma scan_no_constant:
  assumes "\<nexists>neg n. spells s neg n"
  shows "\<exists>neg. strto_scan s = (neg, 0, 0)"
proof -
  obtain neg n used where sc: "strto_scan s = (neg, n, used)"
    by (cases "strto_scan s") auto
  with spells_scan [OF sc] assms have "used = 0" by blast
  with sc scan_nothing show ?thesis by blast
qed

lemma target_ty_width: "8 \<le> ty_width (target_ty T) \<and> ty_width (target_ty T) \<le> 64"
  by (cases T) simp_all

lemma clamp_in_ty: "snd r = 0 \<longrightarrow> fst r = 0 \<Longrightarrow> in_ty T (fst (clamp T r))"
  by (cases r) (auto simp: clamp_def in_ty_def ty_min_def ty_max_def)

lemma number_cast_in_ty: "in_ty (target_ty T) (fst (number_cast T str))"
proof -
  have "snd (strtoimax s) = 0 \<longrightarrow> fst (strtoimax s) = 0" "snd (strtoumax s) = 0 \<longrightarrow> fst (strtoumax s) = 0" for s
    by (auto simp: strtoimax_def strtoumax_def dest!: scan_nothing split: prod.splits)
  moreover have "in_ty (target_ty T) 0"
    by (simp add: in_ty_def ty_min_def ty_max_def)
  ultimately show ?thesis
    by (cases str) (simp_all add: number_cast_def signed_number_cast_def unsigned_number_cast_def clamp_in_ty)
qed

section \<open>Properties\<close>

text \<open>C36: \<open>string_cast_itoa\<close> computes positional notation in every base from 2 to 36, for every integer
  type of at least 32 bits, and the text reads back as the number. It fails in two cases only: for
  the 35 largest values of a signed type the index expression overflows, and a text that does not
  fit the array with its terminator is written past the end.\<close>

theorem string_cast_itoa_correct:
  assumes "2 \<le> b" and "b \<le> 36" and "32 \<le> ty_width T" and "in_ty T v"
  shows "string_cast_itoa T v b up cap =
      (if ty_signed T \<and> ty_max T - 35 < v then Inl SignedOverflow
       else if cap \<le> length (show_base up (nat b) v) then Inl OutOfBounds
       else Inr (show_base up (nat b) v)) \<and>
    read_base up (nat b) (show_base up (nat b) v) = v"
  using itoa_result [OF assms(1,2) _ assms(4)] read_show_base [of "nat b" up v] assms(1-3) by simp

theorem string_cast_itoa_correct_witness:
  "string_cast_itoa int_T (-255) 16 True 65 =
      (if ty_signed int_T \<and> ty_max int_T - 35 < -255 then Inl SignedOverflow
       else if 65 \<le> length (show_base True (nat 16) (-255)) then Inl OutOfBounds
       else Inr (show_base True (nat 16) (-255))) \<and>
    read_base True (nat 16) (show_base True (nat 16) (-255)) = -255"
  by (rule string_cast_itoa_correct) (simp_all add: int_T_def in_ty_def ty_min_def ty_max_def)

text \<open>C37: with the 65 byte cache of \<open>string_cast\<close>, a number of a type of at most 64 bits is written past
  the end in exactly one case, the least 64-bit number in base 2.\<close>

theorem string_cast_cache_overflow:
  assumes "32 \<le> ty_width T" and "ty_width T \<le> 64" and "in_ty T v" and "2 \<le> b" and "b \<le> 36"
  shows "(string_cast_str (CastInt T v b) = Inl OutOfBounds) = (b = 2 \<and> v = - (2 ^ 63))"
proof -
  have w: "8 \<le> ty_width T"
    using assms(1) by simp
  have p: "\<not> (2::int) ^ (ty_width T - 1) < 36 - 2 ^ 63"
    unfolding not_less by (rule order.trans [of _ 0]) simp_all
  have min: "\<not> (ty_signed T \<and> ty_max T - 35 < v)" if "v = - (2 ^ 63)"
  proof (rule notI, elim conjE)
    assume "ty_signed T" "ty_max T - 35 < v"
    then have "(2::int) ^ (ty_width T - 1) < 36 - 2 ^ 63"
      unfolding that ty_max_def by simp
    with p show False by simp
  qed
  show ?thesis
  proof (cases "b = 2 \<and> v = - (2 ^ 63)")
    case True
    then show ?thesis
      using min itoa_result [OF assms(4,5) w assms(3), of True value_cache_size] long_min_binary [of True]
      by (simp add: value_cache_size_def)
  next
    case False
    then have "length (show_base True (nat b) v) < 65"
      using wide_value_fits [of "nat b" T v True] assms(2,3,4) by simp
    with False show ?thesis
      using itoa_result [OF assms(4,5) w assms(3), of True value_cache_size] by (auto simp: value_cache_size_def)
  qed
qed

theorem string_cast_cache_overflow_witness:
  "(string_cast_str (CastInt long_T (- (2 ^ 63)) 2) = Inl OutOfBounds) =
    ((2 :: int) = 2 \<and> (- (2 ^ 63) :: int) = - (2 ^ 63))"
  by (rule string_cast_cache_overflow) (simp_all add: long_T_def in_ty_def ty_min_def ty_max_def)

text \<open>C38: what \<open>number_cast\<close> to any of the integer types makes of every text. The result is a number of
  the type. A text that starts with no integer constant gives 0, not valid. Otherwise let \<open>v\<close> be the
  number it starts with. A signed type gets the number of the type nearest to \<open>v\<close>, marked valid when \<open>v\<close> is
  in the type, but in 64 bits always. An unsigned type gets \<open>v\<close> modulo \<open>2 ^ 64\<close>, or the largest 64-bit
  number when \<open>v\<close> is too large for that, cut down to the largest number of the type and marked valid
  when that was not necessary: negative text is valid for 64 bits, and so is text that is too large.\<close>

theorem number_cast_spelled:
  "in_ty (target_ty T) (fst (number_cast T str)) \<and>
   number_cast T None = (0, False) \<and>
   ((\<nexists>neg n. spells s neg n) \<longrightarrow> number_cast T (Some s) = (0, False)) \<and>
   (spells s neg n \<longrightarrow>
      number_cast T (Some s) =
        (let v = (if neg then - int n else int n);
             u = (if 2 ^ 64 \<le> n then 2 ^ 64 - 1 else v mod 2 ^ 64);
             U = target_ty T
         in if ty_signed U then (max (ty_min U) (min (ty_max U) v), ty_width U = 64 \<or> in_ty U v)
            else (min (ty_max U) u, u \<le> ty_max U)))"
proof (intro conjI impI number_cast_in_ty)
  show "number_cast T None = (0, False)"
    by (simp add: number_cast_def signed_number_cast_def unsigned_number_cast_def)
next
  assume "\<nexists>neg n. spells s neg n"
  then obtain neg where "strto_scan s = (neg, 0, 0)"
    using scan_no_constant by blast
  then show "number_cast T (Some s) = (0, False)"
    by (simp add: number_cast_def signed_number_cast_def unsigned_number_cast_def strtoimax_def
        strtoumax_def clamp_def)
next
  assume "spells s neg n"
  then obtain used where sc: "strto_scan s = (neg, n, Suc used)"
    using strto_scan_spells by blast
  then show "number_cast T (Some s) =
        (let v = (if neg then - int n else int n);
             u = (if 2 ^ 64 \<le> n then 2 ^ 64 - 1 else v mod 2 ^ 64);
             U = target_ty T
         in if ty_signed U then (max (ty_min U) (min (ty_max U) v), ty_width U = 64 \<or> in_ty U v)
            else (min (ty_max U) u, u \<le> ty_max U))"
    by (cases T) (auto simp: number_cast_def signed_number_cast_def unsigned_number_cast_def strtoimax_def
        strtoumax_def clamp_def in_ty_def ty_min_def ty_max_def Let_def)
qed

text \<open>Minus one as a \<open>uint8_t\<close> is 255, not valid; as a 64-bit unsigned number it is valid, and so is
  \<open>0x8000000000000000\<close> as a signed one.\<close>

theorem number_cast_spelled_witness:
  "number_cast to_uint8 (Some '' -1'') = (255, False) \<and>
   number_cast to_unsigned_long (Some '' -1'') = (2 ^ 64 - 1, True) \<and>
   number_cast to_long (Some ''0x8000000000000000'') = (2 ^ 63 - 1, True) \<and>
   number_cast to_int8 (Some ''x'') = (0, False)"
proof -
  note ends = literal_ends_def digit_in_def digit_val_def
  have "spells ('' '' @ ''-'' @ spell (Dec ''1'') @ []) (''-'' = ''-'') (literal_value (Dec ''1''))"
    by (rule spells.intros) (simp_all add: ends is_space_def)
  then have minus: "spells '' -1'' True 1"
    by (simp add: literal_value_def value_of_def digit_val_def)
  have "spells ([] @ [] @ spell (Hex CHR ''x'' ''8000000000000000'') @ []) ([] = ''-'')
      (literal_value (Hex CHR ''x'' ''8000000000000000''))"
    by (rule spells.intros) (simp_all add: ends)
  then have big: "spells ''0x8000000000000000'' False (2 ^ 63)"
    by (simp add: literal_value_def value_of_def digit_val_def)
  have none: "\<nexists>neg n. spells ''x'' neg n"
    using strto_scan_spells [of "''x''"]
    by (auto simp: strto_scan_def is_space_def strto_sign_def strto_base_def digit_in_def digit_val_def)
  show ?thesis
    using
      number_cast_spelled [where T = to_uint8 and str = None, THEN conjunct2, THEN conjunct2, THEN conjunct2, rule_format, OF minus]
      number_cast_spelled [where T = to_unsigned_long and str = None, THEN conjunct2, THEN conjunct2, THEN conjunct2, rule_format, OF minus]
      number_cast_spelled [where T = to_long and str = None, THEN conjunct2, THEN conjunct2, THEN conjunct2, rule_format, OF big]
      number_cast_spelled [where T = to_int8 and str = None, THEN conjunct2, THEN conjunct2, THEN conjunct1, rule_format, OF none]
    by (simp add: ty_min_def ty_max_def in_ty_def)
qed

end
