(* ===== verification/XLogger.thy ===== *)
theory XLogger imports Preproc StringCast begin

text \<open>
  \<open>libs/mars/include/mars/xlog/xlogger.h\<close> with the types of \<open>xloggerbase.h\<close>: the messages behind the
  logging macros. An argument of a typed log call is what its \<open>string_cast\<close> shows; a null
  \<open>const char*\<close> is \<open>None\<close>. \<open>assert(false)\<close> ends a debug build with \<open>AssertFail\<close>; with \<open>dbg = False\<close>
  it is nothing. What \<open>vsnprintf\<close> makes of a format is a parameter text. The calls into the log
  library are events.
\<close>

section \<open>Levels and headers\<close>

datatype TLogLevel =
    kLevelVerbose
  | kLevelDebug
  | kLevelInfo
  | kLevelWarn
  | kLevelError
  | kLevelFatal
  | kLevelNone

abbreviation kLevelAll :: TLogLevel where
  "kLevelAll \<equiv> kLevelVerbose"

fun level_code :: "TLogLevel \<Rightarrow> nat" where
  "level_code kLevelVerbose = 0"
| "level_code kLevelDebug = 1"
| "level_code kLevelInfo = 2"
| "level_code kLevelWarn = 3"
| "level_code kLevelError = 4"
| "level_code kLevelFatal = 5"
| "level_code kLevelNone = 6"

lemma level_code_inj: "level_code a = level_code b \<Longrightarrow> a = b"
  by (cases a; cases b) simp_all

instantiation TLogLevel :: linorder
begin

definition less_eq_TLogLevel :: "TLogLevel \<Rightarrow> TLogLevel \<Rightarrow> bool" where
  "less_eq_TLogLevel a b \<longleftrightarrow> level_code a \<le> level_code b"

definition less_TLogLevel :: "TLogLevel \<Rightarrow> TLogLevel \<Rightarrow> bool" where
  "less_TLogLevel a b \<longleftrightarrow> level_code a < level_code b"

instance
  by standard (auto simp: less_eq_TLogLevel_def less_TLogLevel_def dest: level_code_inj)

end

record xlogger_info =
  xi_level :: TLogLevel
  xi_tag :: string
  xi_filename :: string
  xi_func_name :: string
  xi_line :: int
  xi_timeval :: "int \<times> int"
  xi_pid :: int
  xi_tid :: int
  xi_maintid :: int

datatype log_event =
    XAssert "xlogger_info option" "string option" string
  | XWrite "xlogger_info option" string

definition check_assert :: "bool \<Rightarrow> 'a \<Rightarrow> 'a result" where
  "check_assert dbg x = (if dbg then Inl AssertFail else Inr x)"

section \<open>The typed format\<close>

text \<open>The argument array: a null pointer, or what the argument's \<open>str()\<close> returns.\<close>

type_synonym fmt_args = "string option option list"

definition slot_index :: "char \<Rightarrow> nat \<Rightarrow> nat option" where
  "slot_index d count =
     (if is_digit d then Some (of_char d - 48) else if d = CHR ''_'' then Some count else None)"

text \<open>The reference: the text of a format all of whose placeholders have an argument.\<close>

fun render :: "string \<Rightarrow> nat \<Rightarrow> fmt_args \<Rightarrow> string option" where
  "render [] count args = Some []"
| "render (c # cs) count args =
     (if c \<noteq> CHR ''%'' then map_option ((#) c) (render cs count args)
      else case cs of
             [] \<Rightarrow> None
           | d # ds \<Rightarrow>
               (case slot_index d count of
                  Some i \<Rightarrow>
                    if i < length args
                    then case args ! i of
                           Some (Some t) \<Rightarrow> map_option ((@) t) (render ds (Suc count) args)
                         | _ \<Rightarrow> None
                    else None
                | None \<Rightarrow>
                    if d = CHR ''%'' then map_option ((#) CHR ''%'') (render ds count args) else None))"

text \<open>
  Both message classes have a loop over a format of their own. Their common contract: plain text
  and arguments are appended, an index beyond the array is a read out of bounds.
\<close>

locale format_engine =
  fixes engine :: "string \<Rightarrow> nat \<Rightarrow> fmt_args \<Rightarrow> 's \<Rightarrow> 's result"
    and add :: "string \<Rightarrow> 's \<Rightarrow> 's"
  assumes add_nil: "add [] s = s"
    and add_add: "add y (add x s) = add (x @ y) s"
    and engine_end: "engine [] n args s = Inr s"
    and engine_plain: "c \<noteq> CHR ''%'' \<Longrightarrow> engine (c # cs) n args s = engine cs n args (add [c] s)"
    and engine_percent: "engine (CHR ''%'' # CHR ''%'' # cs) n args s = engine cs n args (add ''%'' s)"
    and engine_arg: "slot_index d n = Some i \<Longrightarrow> i < length args \<Longrightarrow> args ! i = Some (Some t) \<Longrightarrow>
      engine (CHR ''%'' # d # cs) n args s = engine cs (Suc n) args (add t s)"
    and engine_over: "slot_index d n = Some i \<Longrightarrow> length args \<le> i \<Longrightarrow>
      engine (CHR ''%'' # d # cs) n args s = Inl OutOfBounds"
begin

lemma engine_render: "render fmt n args = Some out \<Longrightarrow> engine fmt n args s = Inr (add out s)"
proof (induction fmt n args arbitrary: out s rule: render.induct)
  case (1 n args)
  then show ?case by (simp add: engine_end add_nil)
next
  case (2 c cs n args)
  show ?case
  proof (cases "c = CHR ''%''")
    case False
    with "2.prems" obtain o1 where o1: "render cs n args = Some o1" "out = c # o1"
      by auto
    with "2.IH"(1) [OF False o1(1)] False show ?thesis
      by (simp add: engine_plain add_add)
  next
    case True
    then obtain d ds where cs: "cs = d # ds"
      using "2.prems" by (cases cs) auto
    show ?thesis
    proof (cases "slot_index d n")
      case None
      with True cs "2.prems" obtain o1 where o1: "d = CHR ''%''" "render ds n args = Some o1" "out = CHR ''%'' # o1"
        by (auto split: if_splits)
      with "2.IH"(2) [of d ds, OF _ cs None o1(1) o1(2)] True cs show ?thesis
        by (simp add: engine_percent add_add)
    next
      case (Some i)
      with True cs "2.prems" obtain t o1 where o1: "i < length args" "args ! i = Some (Some t)"
        "render ds (Suc n) args = Some o1" "out = t @ o1"
        by (auto split: if_splits option.splits)
      with "2.IH"(3) [of d ds i "Some t" t, OF _ cs Some o1(1,2) _ o1(3)] True cs Some show ?thesis
        by (simp add: engine_arg add_add)
    qed
  qed
qed

text \<open>A run of \<open>%_\<close> that is longer than the array.\<close>

lemma engine_too_many:
  "k + n > length args \<Longrightarrow> n \<le> length args \<Longrightarrow> list_all (\<lambda>a. \<exists>t. a = Some (Some t)) args \<Longrightarrow>
     engine (concat (replicate k ''%_'') @ cs) n args s = Inl OutOfBounds"
proof (induction k arbitrary: n s)
  case (Suc k)
  have idx: "slot_index CHR ''_'' n = Some n"
    by (simp add: slot_index_def is_digit_def)
  show ?case
  proof (cases "n = length args")
    case True
    then show ?thesis
      using engine_over [OF idx] by simp
  next
    case False
    then have "n < length args" using Suc.prems by simp
    then obtain t where t: "args ! n = Some (Some t)"
      using Suc.prems(3) by (auto simp: list_all_length)
    from Suc.IH [of "Suc n" "add t s"] Suc.prems \<open>n < length args\<close> show ?thesis
      using engine_arg [OF idx _ t] by simp
  qed
qed simp

end

section \<open>XMessage\<close>

text \<open>An \<open>XMessage\<close> is its text \<open>m_message\<close>.\<close>

definition XMessage_shl :: "bool \<Rightarrow> string option \<Rightarrow> string \<Rightarrow> string result" where
  "XMessage_shl dbg v msg = (case v of Some t \<Rightarrow> Inr (msg @ t) | None \<Rightarrow> check_assert dbg msg)"

definition XMessage_shr :: "bool \<Rightarrow> string option \<Rightarrow> string \<Rightarrow> string result" where
  "XMessage_shr dbg v msg = (case v of Some t \<Rightarrow> Inr (t @ msg) | None \<Rightarrow> check_assert dbg msg)"

definition XMessage_append :: "string option \<Rightarrow> string \<Rightarrow> string result" where
  "XMessage_append v msg = (case v of Some t \<Rightarrow> Inr (msg @ t) | None \<Rightarrow> Inl NullDeref)"

definition XMessage_WriteNoFormat :: "string option \<Rightarrow> string \<Rightarrow> string result" where
  "XMessage_WriteNoFormat log msg = (case log of Some t \<Rightarrow> Inr (msg @ t) | None \<Rightarrow> Inl NullDeref)"

text \<open>\<open>VPrintf\<close>, and \<open>operator()\<close> with a format: \<open>None\<close> is a null format.\<close>

definition XMessage_VPrintf :: "bool \<Rightarrow> string option \<Rightarrow> string \<Rightarrow> string result" where
  "XMessage_VPrintf dbg formatted msg =
     (case formatted of None \<Rightarrow> check_assert dbg msg | Some t \<Rightarrow> Inr (msg @ take 4095 t))"

fun XMessage_DoTypeSafeFormat ::
    "bool \<Rightarrow> string \<Rightarrow> nat \<Rightarrow> fmt_args \<Rightarrow> string \<Rightarrow> string result" where
  "XMessage_DoTypeSafeFormat dbg [] count args msg = Inr msg"
| "XMessage_DoTypeSafeFormat dbg (c # cs) count args msg =
     (if c \<noteq> CHR ''%'' then XMessage_DoTypeSafeFormat dbg cs count args (msg @ [c])
      else case cs of
             [] \<Rightarrow> check_assert dbg msg
           | nextch # rst \<Rightarrow>
               (case slot_index nextch count of
                  Some argIndex \<Rightarrow>
                    if length args \<le> argIndex then Inl OutOfBounds
                    else bnd (case args ! argIndex of
                                Some (Some t) \<Rightarrow> Inr (msg @ t)
                              | Some None \<Rightarrow> check_assert dbg (msg @ ''(null)'')
                              | None \<Rightarrow> check_assert dbg msg)
                           (XMessage_DoTypeSafeFormat dbg rst (count + 1) args)
                | None \<Rightarrow>
                    if nextch = CHR ''%''
                    then XMessage_DoTypeSafeFormat dbg rst count args (msg @ ''%'')
                    else bnd (check_assert dbg msg)
                           (XMessage_DoTypeSafeFormat dbg (nextch # rst) count args)))"

text \<open>
  \<open>operator()(TypeSafeFormat, format, a0, ..)\<close> with up to 16 arguments; the array is filled up with
  null pointers.
\<close>

definition pad_args :: "string option list \<Rightarrow> fmt_args" where
  "pad_args as = map Some as @ replicate (16 - length as) None"

definition XMessage_typed :: "bool \<Rightarrow> string option \<Rightarrow> string option list \<Rightarrow> string \<Rightarrow> string result" where
  "XMessage_typed dbg format as msg =
     (case format of
        None \<Rightarrow> Inr msg
      | Some f \<Rightarrow> XMessage_DoTypeSafeFormat dbg f 0 (pad_args as) msg)"

interpretation xmessage: format_engine "XMessage_DoTypeSafeFormat dbg" "\<lambda>t msg. msg @ t" for dbg
  by unfold_locales (simp_all add: slot_index_def is_digit_def)

section \<open>XLogger\<close>

record xlogger =
  m_info :: xlogger_info
  m_text :: string
  m_isassert :: bool
  m_exp :: "string option"
  m_hook :: "(xlogger_info \<Rightarrow> string \<Rightarrow> bool \<times> xlogger_info \<times> string) option"
  m_isinfonull :: bool

definition XLogger_new ::
    "TLogLevel \<Rightarrow> string \<Rightarrow> string \<Rightarrow> string \<Rightarrow> int \<Rightarrow>
     (xlogger_info \<Rightarrow> string \<Rightarrow> bool \<times> xlogger_info \<times> string) option \<Rightarrow> xlogger" where
  "XLogger_new level tag file func line hook =
     \<lparr>m_info = \<lparr>xi_level = level, xi_tag = tag, xi_filename = file, xi_func_name = func,
        xi_line = line, xi_timeval = (0, 0), xi_pid = -1, xi_tid = -1, xi_maintid = -1\<rparr>,
      m_text = [], m_isassert = False, m_exp = None, m_hook = hook, m_isinfonull = False\<rparr>"

text \<open>The destructor: the calls it makes at the time \<open>now\<close>.\<close>

definition XLogger_delete :: "int \<times> int \<Rightarrow> xlogger \<Rightarrow> log_event list" where
  "XLogger_delete now x =
     (if \<not> m_isassert x \<and> m_text x = [] then []
      else let info = (m_info x)\<lparr>xi_timeval := now\<rparr>;
               (pass, info, text) = (case m_hook x of None \<Rightarrow> (True, info, m_text x)
                                     | Some hook \<Rightarrow> hook info (m_text x))
           in if \<not> pass then []
              else if m_isassert x
                   then [XAssert (if m_isinfonull x then None else Some info) (m_exp x) text]
                   else [XWrite (if m_isinfonull x then None else Some info) text])"

definition XLogger_Assert :: "string \<Rightarrow> xlogger \<Rightarrow> xlogger" where
  "XLogger_Assert e x = x\<lparr>m_isassert := True, m_exp := Some e\<rparr>"

definition XLogger_Empty :: "xlogger \<Rightarrow> bool" where
  "XLogger_Empty x \<longleftrightarrow> \<not> m_isassert x \<and> m_text x = []"

definition add_text :: "string \<Rightarrow> xlogger \<Rightarrow> xlogger" where
  "add_text t x = x\<lparr>m_text := m_text x @ t\<rparr>"

definition set_fatal :: "xlogger \<Rightarrow> xlogger" where
  "set_fatal x = x\<lparr>m_info := (m_info x)\<lparr>xi_level := kLevelFatal\<rparr>\<rparr>"

definition XLogger_WriteNoFormat :: "string option \<Rightarrow> xlogger \<Rightarrow> xlogger result" where
  "XLogger_WriteNoFormat log x =
     (case log of Some t \<Rightarrow> Inr (add_text t x) | None \<Rightarrow> Inl NullDeref)"

definition XLogger_shl :: "bool \<Rightarrow> string option \<Rightarrow> xlogger \<Rightarrow> xlogger result" where
  "XLogger_shl dbg v x =
     (case v of
        Some t \<Rightarrow> Inr (add_text t x)
      | None \<Rightarrow> check_assert dbg (add_text
          ''{!!! XLogger& XLogger::operator<<(const string_cast& _value): _value.str() == NULL !!!}''
          (set_fatal x)))"

definition XLogger_shr :: "bool \<Rightarrow> string option \<Rightarrow> xlogger \<Rightarrow> xlogger result" where
  "XLogger_shr dbg v x =
     (case v of
        Some t \<Rightarrow> Inr (x\<lparr>m_text := t @ m_text x\<rparr>)
      | None \<Rightarrow> check_assert dbg ((set_fatal x)\<lparr>m_text :=
          ''{!!! XLogger& XLogger::operator>>(const string_cast& _value): _value.str() == NULL !!!}''
          @ m_text x\<rparr>))"

text \<open>\<open>x >> target\<close>: the target first, then the emptied \<open>x\<close>.\<close>

definition XLogger_merge :: "xlogger \<Rightarrow> xlogger \<Rightarrow> xlogger \<times> xlogger" where
  "XLogger_merge x target =
     (let target = (if xi_level (m_info target) < xi_level (m_info x)
                    then target\<lparr>m_info := (m_info target)\<lparr>xi_level := xi_level (m_info x)\<rparr>,
                           m_isassert := m_isassert x, m_exp := m_exp x\<rparr>
                    else target);
          target = add_text (m_text x) target
      in (target, x\<lparr>m_isassert := False, m_exp := None, m_text := []\<rparr>))"

definition XLogger_info_null :: "xlogger \<Rightarrow> xlogger" where
  "XLogger_info_null x = x\<lparr>m_isinfonull := True\<rparr>"

definition XLogger_set_tag :: "string \<Rightarrow> xlogger \<Rightarrow> xlogger" where
  "XLogger_set_tag tag x = x\<lparr>m_info := (m_info x)\<lparr>xi_tag := tag\<rparr>\<rparr>"

definition XLogger_VPrintf :: "bool \<Rightarrow> string option \<Rightarrow> xlogger \<Rightarrow> xlogger result" where
  "XLogger_VPrintf dbg formatted x =
     (case formatted of
        Some t \<Rightarrow> Inr (add_text (take 4095 t) x)
      | None \<Rightarrow> check_assert dbg (add_text
          ''{!!! XLogger& XLogger::operator()(const char* _format, va_list _list): _format == NULL !!!}''
          (set_fatal x)))"

definition XLogger_printf :: "bool \<Rightarrow> string option \<Rightarrow> xlogger \<Rightarrow> xlogger result" where
  "XLogger_printf dbg formatted x =
     (case formatted of
        Some t \<Rightarrow> XLogger_VPrintf dbg (Some t) x
      | None \<Rightarrow> check_assert dbg (add_text
          ''{!!! XLogger& XLogger::operator()(const char* _format, ...): _format == NULL !!!}''
          (set_fatal x)))"

text \<open>\<open>string_cast(argIndex).str()\<close> in the complaint about an argument.\<close>

definition bad_arg_text :: "nat \<Rightarrow> string \<Rightarrow> string result" where
  "bad_arg_text argIndex tail =
     bnd (string_cast_str (CastInt int_T (int argIndex) 10)) (\<lambda>s.
     Inr (''{!!! void XLogger::DoTypeSafeFormat: _args['' @ the s @ tail))"

fun XLogger_DoTypeSafeFormat ::
    "bool \<Rightarrow> string \<Rightarrow> nat \<Rightarrow> fmt_args \<Rightarrow> xlogger \<Rightarrow> xlogger result" where
  "XLogger_DoTypeSafeFormat dbg [] count args x = Inr x"
| "XLogger_DoTypeSafeFormat dbg (c # cs) count args x =
     (if c \<noteq> CHR ''%'' then XLogger_DoTypeSafeFormat dbg cs count args (add_text [c] x)
      else case cs of
             [] \<Rightarrow> check_assert dbg (add_text
                (''{!!! void XLogger::DoTypeSafeFormat: %'' @ [char_of (0 :: nat)] @ '' not fit mode !!!}'')
                (set_fatal x))
           | nextch # rst \<Rightarrow>
               (case slot_index nextch count of
                  Some argIndex \<Rightarrow>
                    if length args \<le> argIndex then Inl OutOfBounds
                    else bnd (case args ! argIndex of
                                Some (Some t) \<Rightarrow> Inr (add_text t x)
                              | Some None \<Rightarrow>
                                  bnd (bad_arg_text argIndex '']->str() == NULL !!!}'') (\<lambda>t.
                                  check_assert dbg (add_text t (set_fatal x)))
                              | None \<Rightarrow>
                                  bnd (bad_arg_text argIndex ''] == NULL !!!}'') (\<lambda>t.
                                  check_assert dbg (add_text t (set_fatal x))))
                           (XLogger_DoTypeSafeFormat dbg rst (count + 1) args)
                | None \<Rightarrow>
                    if nextch = CHR ''%''
                    then XLogger_DoTypeSafeFormat dbg rst count args (add_text ''%'' x)
                    else bnd (check_assert dbg (add_text
                           (''{!!! void XLogger::DoTypeSafeFormat: %'' @ [nextch] @ '' not fit mode !!!}'')
                           (set_fatal x)))
                           (XLogger_DoTypeSafeFormat dbg (nextch # rst) count args)))"

definition XLogger_typed :: "bool \<Rightarrow> string option \<Rightarrow> string option list \<Rightarrow> xlogger \<Rightarrow> xlogger result" where
  "XLogger_typed dbg format as x =
     (case format of
        None \<Rightarrow> Inr x
      | Some f \<Rightarrow> XLogger_DoTypeSafeFormat dbg f 0 (pad_args as) x)"

lemma add_text_simps [simp]: "add_text [] x = x" "add_text u (add_text t x) = add_text (t @ u) x"
  by (simp_all add: add_text_def)

interpretation xlogger: format_engine "XLogger_DoTypeSafeFormat dbg" add_text for dbg
  by unfold_locales (simp_all add: slot_index_def is_digit_def)

section \<open>XScopeTracer\<close>

record scope_tracer =
  st_enable :: bool
  st_info :: xlogger_info
  st_name :: string
  st_tv :: "int \<times> int"
  st_exitmsg :: string

definition zero_info :: xlogger_info where
  "zero_info = \<lparr>xi_level = kLevelVerbose, xi_tag = [], xi_filename = [], xi_func_name = [],
     xi_line = 0, xi_timeval = (0, 0), xi_pid = 0, xi_tid = 0, xi_maintid = 0\<rparr>"

text \<open>The name is cut to 127 characters, a line to 1023; \<open>enabled\<close> is \<open>xlogger_IsEnabledFor\<close>.\<close>

definition XScopeTracer_new ::
    "(TLogLevel \<Rightarrow> bool) \<Rightarrow> int \<times> int \<Rightarrow> TLogLevel \<Rightarrow> string \<Rightarrow> string \<Rightarrow> string \<Rightarrow> string \<Rightarrow> int \<Rightarrow>
     string option \<Rightarrow> scope_tracer \<times> log_event list" where
  "XScopeTracer_new enabled now level tag name file func line log =
     (let t = \<lparr>st_enable = enabled level, st_info = zero_info\<lparr>xi_level := level\<rparr>, st_name = [],
               st_tv = (0, 0), st_exitmsg = []\<rparr>
      in if st_enable t
         then let info = \<lparr>xi_level = level, xi_tag = tag, xi_filename = file, xi_func_name = func,
                    xi_line = line, xi_timeval = now, xi_pid = -1, xi_tid = -1, xi_maintid = -1\<rparr>;
                  n = take 127 name;
                  strout = take 1023 (''-> '' @ n @ '' '' @ (case log of None \<Rightarrow> [] | Some l \<Rightarrow> l))
              in (t\<lparr>st_info := info, st_name := n, st_tv := now\<rparr>, [XWrite (Some info) strout])
         else (t, []))"

definition XScopeTracer_Exit :: "string \<Rightarrow> scope_tracer \<Rightarrow> scope_tracer" where
  "XScopeTracer_Exit exitmsg t = t\<lparr>st_exitmsg := st_exitmsg t @ exitmsg\<rparr>"

text \<open>
  The line of the destructor, given what its local \<open>tv\<close> holds; the call that would set it is
  commented out, so the destructor has \<open>None\<close>.
\<close>

definition scope_end :: "(int \<times> int) option \<Rightarrow> scope_tracer \<Rightarrow> log_event list result" where
  "scope_end tv t =
     (if \<not> st_enable t then Inr []
      else case tv of
             None \<Rightarrow> Inl UninitRead
           | Some (sec, usec) \<Rightarrow>
               let info = (st_info t)\<lparr>xi_timeval := (sec, usec)\<rparr>;
                   timeSpan = (sec - fst (st_tv t)) * 1000 + c_div (usec - snd (st_tv t)) 1000;
                   strout = take 1023
                     (''<- '' @ st_name t @ '' +'' @ show_int timeSpan @ '', '' @ st_exitmsg t)
               in Inr [XWrite (Some info) strout])"

definition XScopeTracer_delete :: "scope_tracer \<Rightarrow> log_event list result" where
  "XScopeTracer_delete t = scope_end None t"

section \<open>The macros\<close>

text \<open>
  The arguments of a logging macro after the level: nothing, one text, a typed format (the macro
  \<open>TSF\<close> expands to a first argument of its own), or a \<open>printf\<close> format with at least one argument.
\<close>

datatype log_args =
    NoArgs
  | Plain "string option"
  | Typed "string option" "string option list"
  | Printf nat "string option"

definition macro_args :: "log_args \<Rightarrow> token list list" where
  "macro_args a =
     (case a of NoArgs \<Rightarrow> [[]] | Plain t \<Rightarrow> [[''log'']]
      | Typed f as \<Rightarrow> replicate (2 + length as) [''a'']
      | Printf n f \<Rightarrow> replicate (2 + n) [''a''])"

definition XLOGGER_ROUTER_OUTPUT :: "'a \<Rightarrow> 'a \<Rightarrow> 'a \<Rightarrow> token list list \<Rightarrow> 'a option" where
  "XLOGGER_ROUTER_OUTPUT op1 opr none args =
     Option.bind (PP_NUM_PARAMS args) (\<lambda>n.
     Option.bind (Option.bind (PP_DEC n) (\<lambda>d. PP_IF d opr op1)) (\<lambda>routed.
     PP_IF n routed none))"

definition write_one :: "log_args \<Rightarrow> xlogger \<Rightarrow> xlogger result" where
  "write_one a x = (case a of Plain t \<Rightarrow> XLogger_WriteNoFormat t x | _ \<Rightarrow> Inr x)"

definition call_operator :: "bool \<Rightarrow> log_args \<Rightarrow> xlogger \<Rightarrow> xlogger result" where
  "call_operator dbg a x =
     (case a of
        Typed f as \<Rightarrow> XLogger_typed dbg f as x
      | Printf n f \<Rightarrow> XLogger_printf dbg f x
      | _ \<Rightarrow> Inr x)"

text \<open>\<open>xlogger2\<close>: \<open>None\<close> when the macro does not expand.\<close>

definition xlogger2 ::
    "bool \<Rightarrow> (TLogLevel \<Rightarrow> bool) \<Rightarrow> int \<times> int \<Rightarrow> TLogLevel \<Rightarrow> string \<Rightarrow> string \<Rightarrow> string \<Rightarrow> int \<Rightarrow>
     log_args \<Rightarrow> log_event list result option" where
  "xlogger2 dbg enabled now level tag file func line a =
     map_option (\<lambda>routed.
       if \<not> enabled level then Inr []
       else bnd (routed (XLogger_new level tag file func line None)) (\<lambda>x.
            Inr (XLogger_delete now x)))
     (XLOGGER_ROUTER_OUTPUT (write_one a) (call_operator dbg a) Inr (macro_args a))"

definition xlogger2_if ::
    "bool \<Rightarrow> bool \<Rightarrow> (TLogLevel \<Rightarrow> bool) \<Rightarrow> int \<times> int \<Rightarrow> TLogLevel \<Rightarrow> string \<Rightarrow> string \<Rightarrow> string \<Rightarrow> int \<Rightarrow>
     log_args \<Rightarrow> log_event list result option" where
  "xlogger2_if e dbg enabled now level tag file func line a =
     map_option (\<lambda>routed.
       if \<not> e \<or> \<not> enabled level then Inr []
       else bnd (routed (XLogger_new level tag file func line None)) (\<lambda>x.
            Inr (XLogger_delete now x)))
     (XLOGGER_ROUTER_OUTPUT (write_one a) (call_operator dbg a) Inr (macro_args a))"

definition xassert2 ::
    "bool \<Rightarrow> string \<Rightarrow> bool \<Rightarrow> (TLogLevel \<Rightarrow> bool) \<Rightarrow> int \<times> int \<Rightarrow> string \<Rightarrow> string \<Rightarrow> string \<Rightarrow> int \<Rightarrow>
     log_args \<Rightarrow> log_event list result option" where
  "xassert2 e e_text dbg enabled now tag file func line a =
     map_option (\<lambda>routed.
       if e \<or> \<not> enabled kLevelFatal then Inr []
       else bnd (routed (XLogger_Assert e_text (XLogger_new kLevelFatal tag file func line None))) (\<lambda>x.
            Inr (XLogger_delete now x)))
     (XLOGGER_ROUTER_OUTPUT (write_one a) (call_operator dbg a) Inr (macro_args a))"

section \<open>The initialiser of the argument array\<close>

text \<open>
  \<open>XLOGGER_VARIANT_ARGS(n) PP_COMMA_IF(PP_AND(n, m)) XLOGGER_VARIANT_ARGS_NULL(m)\<close>, and the items
  between its commas.
\<close>

definition args_initialiser :: "nat \<Rightarrow> nat \<Rightarrow> token list option" where
  "args_initialiser n m =
     Option.bind (PP_ENUM_PARAMS n [''&'', ''a'']) (\<lambda>xs.
     Option.bind (Option.bind (PP_AND n m) PP_COMMA_IF) (\<lambda>c.
     Option.bind (PP_ENUM m [''NULL'']) (\<lambda>ys. Some (xs @ c @ ys))))"

fun items :: "token list \<Rightarrow> token list list" where
  "items [] = [[]]"
| "items (t # ts) = (if t = '','' then [] # items ts
     else (case items ts of [] \<Rightarrow> [[t]] | i # is \<Rightarrow> (t # i) # is))"

section \<open>Lemmas\<close>

lemma router_cases:
  assumes "length (macro_args a) \<le> 16"
  shows "XLOGGER_ROUTER_OUTPUT op1 opr none (macro_args a) =
    Some (case a of NoArgs \<Rightarrow> none | Plain t \<Rightarrow> op1 | _ \<Rightarrow> opr)"
proof -
  have "macro_args a \<noteq> []"
    by (simp add: macro_args_def split: log_args.split)
  from num_params [OF this assms] show ?thesis
    using assms
    by (auto simp: XLOGGER_ROUTER_OUTPUT_def macro_args_def PP_DEC_def PP_IF_def PP_BOOL_def
        split: log_args.splits)
qed

lemma XLogger_delete_plain:
  "m_text x \<noteq> [] \<Longrightarrow> m_hook x = None \<Longrightarrow> \<not> m_isassert x \<Longrightarrow> \<not> m_isinfonull x \<Longrightarrow>
     XLogger_delete now x = [XWrite (Some ((m_info x)\<lparr>xi_timeval := now\<rparr>)) (m_text x)]"
  by (simp add: XLogger_delete_def)

section \<open>Properties\<close>

text \<open>C35: a typed log call whose placeholders all have a non-null argument appends exactly the
  rendered text, in \<open>XMessage\<close> and in \<open>XLogger\<close>, in debug and release builds.\<close>

theorem typed_format_renders:
  assumes "render f 0 (pad_args as) = Some out"
  shows "XMessage_typed dbg (Some f) as msg = Inr (msg @ out) \<and>
    XLogger_typed dbg (Some f) as x = Inr (add_text out x)"
  using xmessage.engine_render [OF assms, of dbg msg] xlogger.engine_render [OF assms, of dbg x]
  by (simp add: XMessage_typed_def XLogger_typed_def)

theorem typed_format_renders_witness:
  "XMessage_typed True (Some ''t%_ %0%%'') [Some ''ab'', None] ''m'' = Inr (''m'' @ ''tab ab%'') \<and>
    XLogger_typed True (Some ''t%_ %0%%'') [Some ''ab'', None] (XLogger_new kLevelInfo [] [] [] 1 None) =
      Inr (add_text ''tab ab%'' (XLogger_new kLevelInfo [] [] [] 1 None))"
  by (rule typed_format_renders) code_simp

text \<open>The array of a typed log call has 16 entries and \<open>%_\<close> counts on without a check: a format
  with a 17th \<open>%_\<close> reads past the array, in both classes, even with all 16 arguments present.\<close>

theorem typed_format_reads_past_array:
  assumes "length as = 16" and "list_all (\<lambda>a. a \<noteq> None) as" and "16 < k"
  shows "XMessage_typed dbg (Some (concat (replicate k ''%_'') @ f)) as msg = Inl OutOfBounds \<and>
    XLogger_typed dbg (Some (concat (replicate k ''%_'') @ f)) as x = Inl OutOfBounds"
proof -
  have "length (pad_args as) = 16" "list_all (\<lambda>a. \<exists>t. a = Some (Some t)) (pad_args as)"
    using assms(1,2) by (auto simp: pad_args_def list_all_iff)
  then show ?thesis
    using xmessage.engine_too_many [of "pad_args as" k 0 dbg f msg]
      xlogger.engine_too_many [of "pad_args as" k 0 dbg f x] assms(3)
    by (simp add: XMessage_typed_def XLogger_typed_def)
qed

theorem typed_format_reads_past_array_witness:
  "XMessage_typed True (Some (concat (replicate 17 ''%_'') @ [])) (replicate 16 (Some ''v'')) [] = Inl OutOfBounds \<and>
    XLogger_typed True (Some (concat (replicate 17 ''%_'') @ [])) (replicate 16 (Some ''v''))
      (XLogger_new kLevelInfo [] [] [] 1 None) = Inl OutOfBounds"
  by (rule typed_format_reads_past_array) (simp_all add: list_all_iff)

text \<open>Merging a log into a group appends its text, raises the group's level to the maximum and
  leaves a log that writes nothing when it is destroyed. An assertion, however, is handed over only
  to a group of a lower level; otherwise it is lost.\<close>

theorem XLogger_merge_result:
  "let (g, y) = XLogger_merge x target
   in m_text g = m_text target @ m_text x \<and>
      xi_level (m_info g) = max (xi_level (m_info target)) (xi_level (m_info x)) \<and>
      XLogger_Empty y \<and> XLogger_delete now y = [] \<and>
      m_isassert g = (if xi_level (m_info target) < xi_level (m_info x) then m_isassert x
                      else m_isassert target)"
  by (auto simp: XLogger_merge_def add_text_def XLogger_Empty_def XLogger_delete_def Let_def max_def)

text \<open>The destructor of an enabled scope tracer computes with a local \<open>timeval\<close> that nothing has
  set, for the call that would set it is commented out; a disabled one writes nothing.\<close>

theorem XScopeTracer_reads_uninitialised:
  "XScopeTracer_delete (XScopeTracer_Exit e
      (fst (XScopeTracer_new enabled now level tag name file func line log))) =
    (if enabled level then Inl UninitRead else Inr [])"
  by (simp add: XScopeTracer_delete_def XScopeTracer_Exit_def XScopeTracer_new_def scope_end_def Let_def)

text \<open>For every number of arguments the initialiser that the macros build has exactly 16 items:
  the addresses of the arguments, then \<open>NULL\<close>.\<close>

theorem args_initialiser_16:
  "list_all (\<lambda>n. map_option items (args_initialiser n (16 - n)) =
      Some (map (\<lambda>i. [''&'', ''a'' @ show_nat i]) [0..<n] @ replicate (16 - n) [''NULL''])) [0..<17]"
  by code_simp

end
