(* ===== verification/LogCalls.thy ===== *)
theory LogCalls imports XLogger begin

text \<open>
  The log calls of the wrapper (\<open>mars_plus.cpp\<close>, \<open>longlink_packer.cpp\<close>, \<open>mars_task_proxy.cpp\<close>,
  \<open>stn_callback.cpp\<close>), run through the models of the macro, of \<open>string_cast\<close> and of \<open>XLogger\<close>. A call is
  its level, its tag, its format and its arguments. The tag is the macro \<open>XLOGGER_TAG\<close> of the file that
  contains the call: empty, except in \<open>longlink_packer.cpp\<close>, whose header sets it. \<open>size_t\<close> has 64 bits here. The other theories leave the log
  out of their traces; this one shows that the calls cannot disturb the code around them.
\<close>

type_synonym log_call = "TLogLevel \<times> string \<times> string \<times> cast_arg list"

definition xlogger_tag :: string where
  "xlogger_tag = []"

definition packer_tag :: string where
  "packer_tag = ''marsPlus''"

abbreviation u32_arg :: "u32 \<Rightarrow> cast_arg" where
  "u32_arg w \<equiv> CastInt unsigned_int_T (uint w) 10"

abbreviation size_arg :: "64 word \<Rightarrow> cast_arg" where
  "size_arg w \<equiv> CastInt unsigned_long_T (uint w) 10"

abbreviation int_arg :: "int \<Rightarrow> cast_arg" where
  "int_arg i \<equiv> CastInt int_T i 10"

section \<open>The calls\<close>

definition log_sendMsg :: "u32 \<Rightarrow> u32 \<Rightarrow> log_call" where
  "log_sendMsg taskid cmdid =
     (kLevelDebug, xlogger_tag, ''sendMsg taskid:%0,cmdid:%1'', [u32_arg taskid, u32_arg cmdid])"

definition log_unpack_test :: "u32 \<Rightarrow> u32 \<Rightarrow> 64 word \<Rightarrow> log_call" where
  "log_unpack_test cmdid sq body_len =
     (kLevelDebug, packer_tag, ''__unpack_test:cmdid %_,taskid %_,package_size %_'',
      [u32_arg cmdid, u32_arg sq, size_arg body_len])"

definition log_longlink_pack :: "u32 \<Rightarrow> u32 \<Rightarrow> 64 word \<Rightarrow> log_call" where
  "log_longlink_pack cmdid sq len =
     (kLevelDebug, packer_tag, ''longlink_pack:cmdid %_,taskid %_,package_size %_'',
      [u32_arg cmdid, u32_arg sq, size_arg len])"

definition log_add_success :: "u32 \<Rightarrow> log_call" where
  "log_add_success taskId = (kLevelDebug, xlogger_tag, ''add TaskCtx success,key is %_'', [u32_arg taskId])"

definition log_add_failed :: "u32 \<Rightarrow> log_call" where
  "log_add_failed taskId = (kLevelError, xlogger_tag, ''add TaskCtx failed,key is %_'', [u32_arg taskId])"

definition log_reset :: log_call where
  "log_reset = (kLevelInfo, xlogger_tag, ''mars reset'', [])"

definition log_remove :: "u32 \<Rightarrow> log_call" where
  "log_remove msgId = (kLevelInfo, xlogger_tag, ''removeTaskContext[%_]'', [u32_arg msgId])"

definition log_onPush :: "u32 \<Rightarrow> u32 \<Rightarrow> log_call" where
  "log_onPush taskid cmdid =
     (kLevelDebug, xlogger_tag, ''onPush _taskid:%_,_cmdid:%_'', [u32_arg taskid, u32_arg cmdid])"

definition log_no_context :: "u32 \<Rightarrow> log_call" where
  "log_no_context taskid = (kLevelWarn, xlogger_tag, ''task %_ context does not exist'', [u32_arg taskid])"

definition log_Buf2Resp :: "u32 \<Rightarrow> int \<Rightarrow> log_call" where
  "log_Buf2Resp taskid error_code =
     (kLevelDebug, xlogger_tag, ''Buf2Resp _taskid:%_ ,error_code:%_ '', [u32_arg taskid, int_arg error_code])"

definition log_OnTaskEnd :: "u32 \<Rightarrow> int \<Rightarrow> int \<Rightarrow> log_call" where
  "log_OnTaskEnd taskid error_type error_code =
     (kLevelDebug, xlogger_tag, ''OnTaskEnd _taskid:%_ ,error_type %_,error_code:%_ '',
      [u32_arg taskid, int_arg error_type, int_arg error_code])"

definition log_status :: "int \<Rightarrow> log_call" where
  "log_status longlink_status =
     (kLevelInfo, xlogger_tag, ''mars long link status %_'', [int_arg longlink_status])"

text \<open>\<open>getData\<close> is a \<open>std::string\<close>; \<open>string_cast\<close> keeps its \<open>c_str()\<close>.\<close>

definition log_build :: "u32 \<Rightarrow> byte list \<Rightarrow> log_call" where
  "log_build taskid body =
     (kLevelInfo, xlogger_tag, ''Req2Buf send msg -> header[messageId:%_,messageData:%_]'',
      [u32_arg taskid, CastStr (Some (c_str body))])"

section \<open>Running a call\<close>

primrec cast_all :: "cast_arg list \<Rightarrow> string option list result" where
  "cast_all [] = Inr []"
| "cast_all (a # as) = bnd (string_cast_str a) (\<lambda>t. bnd (cast_all as) (\<lambda>ts. Inr (t # ts)))"

definition run_log ::
    "bool \<Rightarrow> (TLogLevel \<Rightarrow> bool) \<Rightarrow> int \<times> int \<Rightarrow> string \<Rightarrow> string \<Rightarrow> int \<Rightarrow> log_call \<Rightarrow>
     log_event list result option" where
  "run_log dbg enabled now fname func line call =
     (let (level, tag, format, args) = call
      in if \<not> enabled level then Some (Inr [])
         else case cast_all args of
                Inl e \<Rightarrow> Some (Inl e)
              | Inr as \<Rightarrow> xlogger2 dbg enabled now level tag fname func line (Typed (Some format) as))"

text \<open>The specification: one line with the given text, or none when the level is off.\<close>

definition one_line ::
    "(TLogLevel \<Rightarrow> bool) \<Rightarrow> int \<times> int \<Rightarrow> string \<Rightarrow> string \<Rightarrow> int \<Rightarrow> TLogLevel \<Rightarrow> string \<Rightarrow> string \<Rightarrow>
     log_event list result option" where
  "one_line enabled now fname func line level tag text =
     Some (Inr (if enabled level
       then [XWrite (Some \<lparr>xi_level = level, xi_tag = tag, xi_filename = fname, xi_func_name = func,
               xi_line = line, xi_timeval = now, xi_pid = -1, xi_tid = -1, xi_maintid = -1\<rparr>) text]
       else []))"

definition printable_int :: "int \<Rightarrow> bool" where
  "printable_int v \<longleftrightarrow> in_ty int_T v \<and> v \<le> ty_max int_T - 35"

section \<open>Lemmas\<close>

text \<open>Base ten is what \<open>printf\<close> writes.\<close>

lemma digit_char_ten: "d < 10 \<Longrightarrow> digit_char True d = digit d"
proof -
  assume "d < 10"
  then have "d \<in> {0, 1, 2, 3, 4, 5, 6, 7, 8, 9}"
    by auto
  moreover have "list_all (\<lambda>d. digit_char True d = digit d) [0, 1, 2, 3, 4, 5, 6, 7, 8, 9]"
    by code_simp
  ultimately show ?thesis
    by auto
qed

lemma digits_ten: "map (digit_char True) (digits 10 n) = show_nat n"
proof (induction n rule: show_nat.induct)
  case (1 n)
  then show ?case
    by (subst digits.simps, subst show_nat.simps) (simp add: digit_char_ten)
qed

lemma show_base_ten: "show_base True 10 v = show_int v"
  by (simp add: show_base_def show_int_def digits_ten)

lemma string_cast_ten:
  assumes "32 \<le> ty_width T" and "ty_width T \<le> 64" and "in_ty T v"
    and "ty_signed T \<Longrightarrow> v \<le> ty_max T - 35"
  shows "string_cast_str (CastInt T v 10) = Inr (Some (show_int v))"
proof -
  have "length (show_base True 10 v) < 65"
    by (rule wide_value_fits [OF _ assms(2,3)]) simp_all
  then show ?thesis
    using itoa_result [of 10 T v True value_cache_size] assms
    by (auto simp: show_base_ten value_cache_size_def)
qed

lemma cast_u32 [simp]: "string_cast_str (u32_arg w) = Inr (Some (show_nat (unat w)))"
proof -
  have "in_ty unsigned_int_T (uint w)"
    using unsigned_less [of w, where 'a = int] by (simp add: in_ty_def ty_min_def ty_max_def unsigned_int_T_def)
  then have "string_cast_str (u32_arg w) = Inr (Some (show_int (uint w)))"
    by (intro string_cast_ten) (simp_all add: unsigned_int_T_def)
  moreover have "show_int (uint w) = show_nat (unat w)"
    by (simp add: show_int_def)
  ultimately show ?thesis
    by simp
qed

lemma cast_size [simp]: "string_cast_str (size_arg w) = Inr (Some (show_nat (unat w)))"
proof -
  have "in_ty unsigned_long_T (uint w)"
    using unsigned_less [of w, where 'a = int] by (simp add: in_ty_def ty_min_def ty_max_def unsigned_long_T_def)
  then have "string_cast_str (size_arg w) = Inr (Some (show_int (uint w)))"
    by (intro string_cast_ten) (simp_all add: unsigned_long_T_def)
  moreover have "show_int (uint w) = show_nat (unat w)"
    by (simp add: show_int_def)
  ultimately show ?thesis
    by simp
qed

lemma cast_int: "printable_int v \<Longrightarrow> string_cast_str (int_arg v) = Inr (Some (show_int v))"
  by (rule string_cast_ten) (simp_all add: printable_int_def int_T_def)

lemma run_log_line:
  assumes "cast_all args = Inr as" and "length as \<le> 14"
    and "render format 0 (pad_args as) = Some out" and "out \<noteq> []"
  shows "run_log dbg enabled now fname func line (level, tag, format, args) =
    one_line enabled now fname func line level tag out"
proof -
  have n: "length (macro_args (Typed (Some format) as)) \<le> 16"
    using assms(2) by (simp add: macro_args_def)
  have "xlogger2 dbg enabled now level tag fname func line (Typed (Some format) as) =
      Some (if \<not> enabled level then Inr []
        else bnd (XLogger_typed dbg (Some format) as (XLogger_new level tag fname func line None))
          (\<lambda>x. Inr (XLogger_delete now x)))"
    by (simp add: xlogger2_def call_operator_def router_cases [OF n])
  moreover have "XLogger_typed dbg (Some format) as (XLogger_new level tag fname func line None) =
      Inr (add_text out (XLogger_new level tag fname func line None))"
    by (simp add: XLogger_typed_def xlogger.engine_render [OF assms(3)])
  moreover have "XLogger_delete now (add_text out (XLogger_new level tag fname func line None)) =
      [XWrite (Some \<lparr>xi_level = level, xi_tag = tag, xi_filename = fname, xi_func_name = func,
               xi_line = line, xi_timeval = now, xi_pid = -1, xi_tid = -1, xi_maintid = -1\<rparr>) out]"
    using assms(4) by (simp add: XLogger_delete_def add_text_def XLogger_new_def)
  ultimately show ?thesis
    using assms(1) by (simp add: run_log_def one_line_def)
qed

text \<open>Rendering a format whose placeholders are all \<open>%_\<close>.\<close>

lemma slot_next: "slot_index CHR ''_'' n = Some n"
  by (simp add: slot_index_def is_digit_def)

lemma slot_01: "slot_index CHR ''0'' n = Some 0" "slot_index CHR ''1'' n = Some 1"
  by (simp_all add: slot_index_def is_digit_def)

lemmas rendering = slot_next slot_01 pad_args_def cast_int

lemma plain_lines:
  "run_log dbg enabled now fname func line (log_sendMsg i c) =
       one_line enabled now fname func line kLevelDebug xlogger_tag
        (''sendMsg taskid:'' @ show_nat (unat i) @ '',cmdid:'' @ show_nat (unat c))"
  "run_log dbg enabled now fname func line (log_unpack_test c i n) =
       one_line enabled now fname func line kLevelDebug packer_tag
        (''__unpack_test:cmdid '' @ show_nat (unat c) @ '',taskid '' @ show_nat (unat i) @
         '',package_size '' @ show_nat (unat n))"
  "run_log dbg enabled now fname func line (log_longlink_pack c i n) =
       one_line enabled now fname func line kLevelDebug packer_tag
        (''longlink_pack:cmdid '' @ show_nat (unat c) @ '',taskid '' @ show_nat (unat i) @
         '',package_size '' @ show_nat (unat n))"
  "run_log dbg enabled now fname func line (log_add_success i) =
       one_line enabled now fname func line kLevelDebug xlogger_tag
        (''add TaskCtx success,key is '' @ show_nat (unat i))"
  "run_log dbg enabled now fname func line (log_add_failed i) =
       one_line enabled now fname func line kLevelError xlogger_tag
        (''add TaskCtx failed,key is '' @ show_nat (unat i))"
  "run_log dbg enabled now fname func line log_reset =
       one_line enabled now fname func line kLevelInfo xlogger_tag
        (''mars reset'')"
  "run_log dbg enabled now fname func line (log_remove i) =
       one_line enabled now fname func line kLevelInfo xlogger_tag
        (''removeTaskContext['' @ show_nat (unat i) @ '']'')"
  "run_log dbg enabled now fname func line (log_onPush i c) =
       one_line enabled now fname func line kLevelDebug xlogger_tag
        (''onPush _taskid:'' @ show_nat (unat i) @ '',_cmdid:'' @ show_nat (unat c))"
  "run_log dbg enabled now fname func line (log_no_context i) =
       one_line enabled now fname func line kLevelWarn xlogger_tag
        (''task '' @ show_nat (unat i) @ '' context does not exist'')"
  "run_log dbg enabled now fname func line (log_build i body) =
       one_line enabled now fname func line kLevelInfo xlogger_tag
        (''Req2Buf send msg -> header[messageId:'' @ show_nat (unat i) @
         '',messageData:'' @ c_str body @ '']'')"
  by (simp_all only: log_sendMsg_def log_unpack_test_def log_longlink_pack_def log_add_success_def log_add_failed_def log_reset_def log_remove_def log_onPush_def log_no_context_def log_build_def)
    (rule run_log_line, simp add: rendering del: string_cast_str.simps(2), simp, simp add: rendering, simp)+

lemma int_lines:
  "printable_int ec \<Longrightarrow>
     run_log dbg enabled now fname func line (log_Buf2Resp i ec) =
       one_line enabled now fname func line kLevelDebug xlogger_tag
        (''Buf2Resp _taskid:'' @ show_nat (unat i) @ '' ,error_code:'' @ show_int ec @ '' '')"
  "printable_int et \<Longrightarrow> printable_int ec \<Longrightarrow>
     run_log dbg enabled now fname func line (log_OnTaskEnd i et ec) =
       one_line enabled now fname func line kLevelDebug xlogger_tag
        (''OnTaskEnd _taskid:'' @ show_nat (unat i) @ '' ,error_type '' @ show_int et @
         '',error_code:'' @ show_int ec @ '' '')"
  "printable_int st \<Longrightarrow>
     run_log dbg enabled now fname func line (log_status st) =
       one_line enabled now fname func line kLevelInfo xlogger_tag
        (''mars long link status '' @ show_int st)"
  by (simp_all only: log_Buf2Resp_def log_OnTaskEnd_def log_status_def)
    (rule run_log_line, simp add: rendering del: string_cast_str.simps(2), simp, simp add: rendering, simp)+

section \<open>Properties\<close>

text \<open>C34: every log call of the wrapper writes exactly one line with the intended text and tag, or nothing when
  its level is off, in debug and release builds: the placeholders fit the arguments, no text is
  cut and no message body can act as a format. The \<open>int\<close> arguments must lie below the 35 largest
  values, where \<open>string_cast\<close> overflows.\<close>

theorem wrapper_log_lines:
  assumes "list_all printable_int [et, ec, st]"
  shows
   "run_log dbg enabled now fname func line (log_sendMsg i c) =
       one_line enabled now fname func line kLevelDebug xlogger_tag
        (''sendMsg taskid:'' @ show_nat (unat i) @ '',cmdid:'' @ show_nat (unat c)) \<and>
     run_log dbg enabled now fname func line (log_unpack_test c i n) =
       one_line enabled now fname func line kLevelDebug packer_tag
        (''__unpack_test:cmdid '' @ show_nat (unat c) @ '',taskid '' @ show_nat (unat i) @
         '',package_size '' @ show_nat (unat n)) \<and>
     run_log dbg enabled now fname func line (log_longlink_pack c i n) =
       one_line enabled now fname func line kLevelDebug packer_tag
        (''longlink_pack:cmdid '' @ show_nat (unat c) @ '',taskid '' @ show_nat (unat i) @
         '',package_size '' @ show_nat (unat n)) \<and>
     run_log dbg enabled now fname func line (log_add_success i) =
       one_line enabled now fname func line kLevelDebug xlogger_tag
        (''add TaskCtx success,key is '' @ show_nat (unat i)) \<and>
     run_log dbg enabled now fname func line (log_add_failed i) =
       one_line enabled now fname func line kLevelError xlogger_tag
        (''add TaskCtx failed,key is '' @ show_nat (unat i)) \<and>
     run_log dbg enabled now fname func line log_reset =
       one_line enabled now fname func line kLevelInfo xlogger_tag
        (''mars reset'') \<and>
     run_log dbg enabled now fname func line (log_remove i) =
       one_line enabled now fname func line kLevelInfo xlogger_tag
        (''removeTaskContext['' @ show_nat (unat i) @ '']'') \<and>
     run_log dbg enabled now fname func line (log_onPush i c) =
       one_line enabled now fname func line kLevelDebug xlogger_tag
        (''onPush _taskid:'' @ show_nat (unat i) @ '',_cmdid:'' @ show_nat (unat c)) \<and>
     run_log dbg enabled now fname func line (log_no_context i) =
       one_line enabled now fname func line kLevelWarn xlogger_tag
        (''task '' @ show_nat (unat i) @ '' context does not exist'') \<and>
     run_log dbg enabled now fname func line (log_build i body) =
       one_line enabled now fname func line kLevelInfo xlogger_tag
        (''Req2Buf send msg -> header[messageId:'' @ show_nat (unat i) @
         '',messageData:'' @ c_str body @ '']'') \<and>
     run_log dbg enabled now fname func line (log_Buf2Resp i ec) =
       one_line enabled now fname func line kLevelDebug xlogger_tag
        (''Buf2Resp _taskid:'' @ show_nat (unat i) @ '' ,error_code:'' @ show_int ec @ '' '') \<and>
     run_log dbg enabled now fname func line (log_OnTaskEnd i et ec) =
       one_line enabled now fname func line kLevelDebug xlogger_tag
        (''OnTaskEnd _taskid:'' @ show_nat (unat i) @ '' ,error_type '' @ show_int et @
         '',error_code:'' @ show_int ec @ '' '') \<and>
     run_log dbg enabled now fname func line (log_status st) =
       one_line enabled now fname func line kLevelInfo xlogger_tag
        (''mars long link status '' @ show_int st)"
  using assms by (simp add: plain_lines int_lines)

theorem wrapper_log_lines_witness:
  "run_log True (\<lambda>l. True) (1, 2) ''f.cpp'' ''f'' 3 (log_OnTaskEnd 10000 0 (- 1)) =
    one_line (\<lambda>l. True) (1, 2) ''f.cpp'' ''f'' 3 kLevelDebug xlogger_tag
      (''OnTaskEnd _taskid:'' @ show_nat (unat (10000 :: u32)) @ '' ,error_type '' @ show_int 0 @
       '',error_code:'' @ show_int (- 1) @ '' '')"
proof -
  have "list_all printable_int [0, - 1, 4]"
    by (simp add: printable_int_def in_ty_def ty_min_def ty_max_def int_T_def)
  from wrapper_log_lines [OF this, where dbg = True and enabled = "\<lambda>l. True" and now = "(1, 2)"
      and fname = "''f.cpp''" and func = "''f''" and line = 3 and i = 10000]
  show ?thesis by blast
qed

end
