(* ===== verification/XLogMacros.thy ===== *)
theory XLogMacros imports XLogger begin

text \<open>
  The convenience macros at the end of \<open>xlogger.h\<close>: one macro per level, groups of log calls that are
  written as one line, messages, and scopes. A macro call is a function of the state of the log
  (which levels are enabled, the time) and of its place in the source. A temporary \<open>XLogger\<close> lives to
  the end of its statement, a group to the end of its block.
\<close>

section \<open>The place of a call\<close>

record log_env =
  le_debug :: bool
  le_enabled :: "TLogLevel \<Rightarrow> bool"
  le_now :: "int \<times> int"

record place =
  pl_tag :: string
  pl_file :: string
  pl_func :: string
  pl_line :: int

definition log_at :: "place \<Rightarrow> TLogLevel \<Rightarrow> xlogger" where
  "log_at p level = XLogger_new level (pl_tag p) (pl_file p) (pl_func p) (pl_line p) None"

section \<open>Levels\<close>

datatype level_macro = xverbose2 | xdebug2 | xinfo2 | xwarn2 | xerror2 | xfatal2

fun macro_level :: "level_macro \<Rightarrow> TLogLevel" where
  "macro_level xverbose2 = kLevelVerbose"
| "macro_level xdebug2 = kLevelDebug"
| "macro_level xinfo2 = kLevelInfo"
| "macro_level xwarn2 = kLevelWarn"
| "macro_level xerror2 = kLevelError"
| "macro_level xfatal2 = kLevelFatal"

definition xlog2 :: "log_env \<Rightarrow> place \<Rightarrow> TLogLevel \<Rightarrow> log_args \<Rightarrow> log_event list result option" where
  "xlog2 env p level a =
     xlogger2 (le_debug env) (le_enabled env) (le_now env) level (pl_tag p) (pl_file p) (pl_func p)
       (pl_line p) a"

definition level_log :: "log_env \<Rightarrow> place \<Rightarrow> level_macro \<Rightarrow> log_args \<Rightarrow> log_event list result option" where
  "level_log env p mac a = xlog2 env p (macro_level mac) a"

text \<open>\<open>None\<close> for \<open>xfatal2_if\<close>: its definition lacks a parenthesis and does not compile.\<close>

definition level_log_if ::
    "log_env \<Rightarrow> place \<Rightarrow> level_macro \<Rightarrow> bool \<Rightarrow> log_args \<Rightarrow> log_event list result option" where
  "level_log_if env p mac e a =
     (if mac = xfatal2 then None
      else xlogger2_if e (le_debug env) (le_enabled env) (le_now env) (macro_level mac) (pl_tag p)
             (pl_file p) (pl_func p) (pl_line p) a)"

definition xlog2_if ::
    "log_env \<Rightarrow> place \<Rightarrow> TLogLevel \<Rightarrow> bool \<Rightarrow> log_args \<Rightarrow> log_event list result option" where
  "xlog2_if env p level e a =
     xlogger2_if e (le_debug env) (le_enabled env) (le_now env) level (pl_tag p) (pl_file p) (pl_func p)
       (pl_line p) a"

section \<open>Groups\<close>

definition xgroup2_define :: "place \<Rightarrow> xlogger" where
  "xgroup2_define p = log_at p kLevelAll"

text \<open>\<open>xlog2(level, ...) >> grp\<close>: the group and what the temporary's destructor writes.\<close>

definition log_into ::
    "log_env \<Rightarrow> place \<Rightarrow> TLogLevel \<Rightarrow> log_args \<Rightarrow> xlogger \<Rightarrow> (xlogger \<times> log_event list) result option" where
  "log_into env p level a grp =
     map_option (\<lambda>routed.
       if \<not> le_enabled env level then Inr (grp, [])
       else bnd (routed (log_at p level)) (\<lambda>x.
            let (grp, x) = XLogger_merge x grp
            in Inr (grp, XLogger_delete (le_now env) x)))
     (XLOGGER_ROUTER_OUTPUT (write_one a) (call_operator (le_debug env) a) Inr (macro_args a))"

text \<open>A block with a group: its statements, then the group's destructor.\<close>

fun group_block ::
    "log_env \<Rightarrow> (place \<times> TLogLevel \<times> log_args) list \<Rightarrow> xlogger \<Rightarrow> log_event list result option" where
  "group_block env [] grp = Some (Inr (XLogger_delete (le_now env) grp))"
| "group_block env ((p, level, a) # calls) grp =
     Option.bind (log_into env p level a grp) (\<lambda>r.
       case r of
         Inl e \<Rightarrow> Some (Inl e)
       | Inr (grp, es) \<Rightarrow>
           map_option (\<lambda>r. bnd r (\<lambda>fs. Inr (es @ fs))) (group_block env calls grp))"

text \<open>
  \<open>xgroup2\<close> does not go through the router: a single text is a format of \<open>printf\<close>, taken here without
  conversions in it.
\<close>

definition xgroup2 :: "log_env \<Rightarrow> place \<Rightarrow> log_args \<Rightarrow> log_event list result" where
  "xgroup2 env p a =
     bnd (case a of
            Plain t \<Rightarrow> XLogger_printf (le_debug env) t (log_at p kLevelAll)
          | _ \<Rightarrow> call_operator (le_debug env) a (log_at p kLevelAll)) (\<lambda>x.
     Inr (XLogger_delete (le_now env) x))"

definition xgroup2_if :: "log_env \<Rightarrow> place \<Rightarrow> bool \<Rightarrow> log_args \<Rightarrow> log_event list result" where
  "xgroup2_if env p e a = (if \<not> e then Inr [] else xgroup2 env p a)"

section \<open>Messages and scopes\<close>

text \<open>\<open>XMessage\<close> on a string of the caller copies it: \<open>m_message\<close> is a value, so what is appended later
  does not reach the caller's string.\<close>

definition XMessage_new :: string where
  "XMessage_new = ''''"

definition XMessage_hold :: "string \<Rightarrow> string \<times> string" where
  "XMessage_hold holder = (holder, holder)"


definition xmessage2 :: "bool \<Rightarrow> log_args \<Rightarrow> string result option" where
  "xmessage2 dbg a =
     map_option (\<lambda>routed. routed [])
     (XLOGGER_ROUTER_OUTPUT
        (case a of Plain t \<Rightarrow> XMessage_WriteNoFormat t | _ \<Rightarrow> Inr)
        (case a of Typed f as \<Rightarrow> XMessage_typed dbg f as | Printf n f \<Rightarrow> XMessage_VPrintf dbg f | _ \<Rightarrow> Inr)
        Inr (macro_args a))"

text \<open>The variable that \<open>xmessage2_define\<close> declares, after its first message.\<close>

definition xmessage2_define :: "bool \<Rightarrow> log_args \<Rightarrow> string result option" where
  "xmessage2_define dbg a =
     map_option (\<lambda>routed. routed XMessage_new)
     (XLOGGER_ROUTER_OUTPUT
        (case a of Plain t \<Rightarrow> XMessage_WriteNoFormat t | _ \<Rightarrow> Inr)
        (case a of Typed f as \<Rightarrow> XMessage_typed dbg f as | Printf n f \<Rightarrow> XMessage_VPrintf dbg f | _ \<Rightarrow> Inr)
        Inr (macro_args a))"

text \<open>\<open>XLOGGER_SCOPE_MESSAGE\<close>: \<open>NULL\<close> without arguments.\<close>

definition XLOGGER_SCOPE_MESSAGE :: "bool \<Rightarrow> log_args \<Rightarrow> string option result option" where
  "XLOGGER_SCOPE_MESSAGE dbg a =
     Option.bind (PP_NUM_PARAMS (macro_args a)) (\<lambda>n.
     Option.bind (PP_BOOL n) (\<lambda>b.
       if b = 0 then Some (Inr None)
       else map_option (\<lambda>r. bnd r (\<lambda>t. Inr (Some t))) (xmessage2 dbg a)))"

definition xscope_impl ::
    "log_env \<Rightarrow> place \<Rightarrow> TLogLevel \<Rightarrow> string \<Rightarrow> log_args \<Rightarrow> (scope_tracer \<times> log_event list) result option" where
  "xscope_impl env p level name a =
     map_option (\<lambda>r. bnd r (\<lambda>log. Inr (XScopeTracer_new (le_enabled env) (le_now env) level (pl_tag p) name
       (pl_file p) (pl_func p) (pl_line p) log))) (XLOGGER_SCOPE_MESSAGE (le_debug env) a)"

text \<open>The scope of a whole function has a name of its own, so that its exit message can be set.\<close>

definition xfunction_scope_impl ::
    "log_env \<Rightarrow> place \<Rightarrow> TLogLevel \<Rightarrow> string \<Rightarrow> log_args \<Rightarrow> (scope_tracer \<times> log_event list) result option" where
  "xfunction_scope_impl env p level name a =
     map_option (\<lambda>r. bnd r (\<lambda>log. Inr (XScopeTracer_new (le_enabled env) (le_now env) level (pl_tag p) name
       (pl_file p) (pl_func p) (pl_line p) log))) (XLOGGER_SCOPE_MESSAGE (le_debug env) a)"

datatype function_macro = xverbose_function | xdebug_function | xinfo_function

fun function_scope ::
    "log_env \<Rightarrow> place \<Rightarrow> function_macro \<Rightarrow> log_args \<Rightarrow> (scope_tracer \<times> log_event list) result option" where
  "function_scope env p xverbose_function a = xfunction_scope_impl env p kLevelVerbose (pl_func p) a"
| "function_scope env p xdebug_function a = xfunction_scope_impl env p kLevelDebug (pl_func p) a"
| "function_scope env p xinfo_function a = xfunction_scope_impl env p kLevelInfo (pl_func p) a"

definition xexitmsg_function :: "bool \<Rightarrow> log_args \<Rightarrow> scope_tracer \<Rightarrow> scope_tracer result option" where
  "xexitmsg_function dbg a t =
     map_option (\<lambda>r. bnd r (\<lambda>msg. Inr (XScopeTracer_Exit msg t))) (xmessage2 dbg a)"

text \<open>\<open>if((!exp))\<close> binds the negation to the first operand of the expression only.\<close>

definition xexitmsg_function_if ::
    "bool \<Rightarrow> bool \<Rightarrow> log_args \<Rightarrow> scope_tracer \<Rightarrow> scope_tracer result option" where
  "xexitmsg_function_if not_exp dbg a t =
     (if not_exp then Some (Inr t) else xexitmsg_function dbg a t)"

section \<open>Lemmas\<close>

text \<open>The text a call contributes, where it needs no complaint.\<close>

fun args_text :: "log_args \<Rightarrow> string option" where
  "args_text NoArgs = Some []"
| "args_text (Plain t) = t"
| "args_text (Typed (Some f) as) = (if length as \<le> 14 then render f 0 (pad_args as) else None)"
| "args_text (Typed None as) = None"
| "args_text (Printf n (Some t)) = (if n \<le> 14 then Some (take 4095 t) else None)"
| "args_text (Printf n None) = None"

lemma routed_text:
  assumes "args_text a = Some t"
  shows "\<exists>routed. XLOGGER_ROUTER_OUTPUT (write_one a) (call_operator dbg a) Inr (macro_args a) = Some routed \<and>
    (\<forall>x. routed x = Inr (add_text t x))"
proof -
  have "length (macro_args a) \<le> 16"
    using assms by (cases a rule: args_text.cases) (auto simp: macro_args_def split: if_splits)
  from router_cases [OF this, of "write_one a" "call_operator dbg a" Inr] show ?thesis
    using assms
    by (cases a rule: args_text.cases)
      (auto simp: write_one_def call_operator_def XLogger_WriteNoFormat_def XLogger_typed_def
        XLogger_printf_def XLogger_VPrintf_def xlogger.engine_render split: if_splits)
qed

definition grown :: "string \<Rightarrow> TLogLevel \<Rightarrow> xlogger \<Rightarrow> xlogger" where
  "grown t level g = g\<lparr>m_text := m_text g @ t, m_info := (m_info g)\<lparr>xi_level := max (xi_level (m_info g)) level\<rparr>\<rparr>"

lemma log_into_text:
  assumes "args_text a = Some t" and "\<not> m_isassert g" and "m_exp g = None"
  shows "log_into env p level a g =
    Some (Inr (if le_enabled env level then grown t level g else g, []))"
proof -
  from routed_text [OF assms(1), of "le_debug env"] obtain routed where
    "XLOGGER_ROUTER_OUTPUT (write_one a) (call_operator (le_debug env) a) Inr (macro_args a) = Some routed"
    "\<forall>x. routed x = Inr (add_text t x)" by blast
  then show ?thesis
    using assms(2,3)
    by (auto simp: log_into_def XLogger_merge_def log_at_def XLogger_new_def add_text_def grown_def
        XLogger_delete_def Let_def max_def)
qed

text \<open>The calls of a block that are enabled, with their texts.\<close>

fun block_text :: "(TLogLevel \<Rightarrow> bool) \<Rightarrow> (place \<times> TLogLevel \<times> log_args) list \<Rightarrow> string" where
  "block_text enabled [] = []"
| "block_text enabled ((p, level, a) # calls) =
     (if enabled level then the (args_text a) else []) @ block_text enabled calls"

fun block_level :: "(TLogLevel \<Rightarrow> bool) \<Rightarrow> (place \<times> TLogLevel \<times> log_args) list \<Rightarrow> TLogLevel \<Rightarrow> TLogLevel" where
  "block_level enabled [] highest = highest"
| "block_level enabled ((p, level, a) # calls) highest =
     block_level enabled calls (if enabled level then max highest level else highest)"

definition proper_call :: "place \<times> TLogLevel \<times> log_args \<Rightarrow> bool" where
  "proper_call c \<longleftrightarrow> args_text (snd (snd c)) \<noteq> None"

lemma group_block_text:
  assumes "list_all proper_call calls" and "\<not> m_isassert g" and "m_exp g = None"
  shows "group_block env calls g = Some (Inr (XLogger_delete (le_now env)
    (g\<lparr>m_text := m_text g @ block_text (le_enabled env) calls,
       m_info := (m_info g)\<lparr>xi_level := block_level (le_enabled env) calls (xi_level (m_info g))\<rparr>\<rparr>)))"
  using assms
proof (induction calls arbitrary: g)
  case Nil
  then show ?case by simp
next
  case (Cons c calls)
  obtain p level a where c: "c = (p, level, a)" by (cases c)
  then obtain t where t: "args_text a = Some t"
    using Cons.prems(1) by (auto simp: proper_call_def)
  let ?g = "if le_enabled env level then grown t level g else g"
  have "list_all proper_call calls" "\<not> m_isassert ?g" "m_exp ?g = None"
    using Cons.prems by (simp_all add: grown_def)
  from Cons.IH [OF this] log_into_text [OF t Cons.prems(2,3), of env p level] show ?case
    by (simp add: c t grown_def)
qed

text \<open>\<open>xgroup2\<close> alone writes one line at the lowest level, whatever levels are enabled.\<close>

lemma xgroup2_typed:
  assumes "args_text (Typed f as) = Some (c # cs)"
  shows "xgroup2 env p (Typed f as) = Inr [XWrite (Some \<lparr>xi_level = kLevelAll, xi_tag = pl_tag p,
    xi_filename = pl_file p, xi_func_name = pl_func p, xi_line = pl_line p, xi_timeval = le_now env,
    xi_pid = -1, xi_tid = -1, xi_maintid = -1\<rparr>) (c # cs)]"
  using assms
  by (cases f)
    (auto simp: xgroup2_def call_operator_def XLogger_typed_def xlogger.engine_render add_text_def
      log_at_def XLogger_new_def XLogger_delete_def Let_def split: if_splits)

lemma xmessage2_define_same: "xmessage2_define dbg a = xmessage2 dbg a"
  by (simp add: xmessage2_define_def xmessage2_def XMessage_new_def)

section \<open>Properties\<close>

text \<open>A group of log calls is written as one line when its block ends, and nothing is written
  before: the line has the texts of the enabled calls in order and the highest of their levels.
  Calls whose level is off contribute neither; when nothing was collected no line is written.\<close>

theorem group_writes_once:
  assumes "list_all proper_call calls"
  shows "group_block env calls (xgroup2_define p) =
    Some (Inr (case block_text (le_enabled env) calls of
       [] \<Rightarrow> []
     | c # cs \<Rightarrow>
         [XWrite (Some \<lparr>xi_level = block_level (le_enabled env) calls kLevelAll, xi_tag = pl_tag p,
            xi_filename = pl_file p, xi_func_name = pl_func p, xi_line = pl_line p,
            xi_timeval = le_now env, xi_pid = -1, xi_tid = -1, xi_maintid = -1\<rparr>) (c # cs)]))"
proof -
  have "\<not> m_isassert (xgroup2_define p)" "m_exp (xgroup2_define p) = None"
    by (simp_all add: xgroup2_define_def log_at_def XLogger_new_def)
  from group_block_text [OF assms this, of env] show ?thesis
    by (auto simp: xgroup2_define_def log_at_def XLogger_new_def XLogger_delete_def Let_def
        split: list.split)
qed

theorem group_writes_once_witness:
  "let p = \<lparr>pl_tag = ''t'', pl_file = ''f.cpp'', pl_func = ''f'', pl_line = 3\<rparr>;
       env = \<lparr>le_debug = True, le_enabled = (\<lambda>l. l \<noteq> kLevelDebug), le_now = (1, 2)\<rparr>;
       calls = [(p, kLevelInfo, Plain (Some ''a'')), (p, kLevelDebug, Plain (Some ''b'')),
                (p, kLevelError, Typed (Some ''%_'') [Some ''c''])]
   in group_block env calls (xgroup2_define p) =
     Some (Inr (case block_text (le_enabled env) calls of
       [] \<Rightarrow> []
     | c # cs \<Rightarrow>
         [XWrite (Some \<lparr>xi_level = block_level (le_enabled env) calls kLevelAll, xi_tag = pl_tag p,
            xi_filename = pl_file p, xi_func_name = pl_func p, xi_line = pl_line p,
            xi_timeval = le_now env, xi_pid = -1, xi_tid = -1, xi_maintid = -1\<rparr>) (c # cs)]))"
  unfolding Let_def
  by (rule group_writes_once)
    (simp add: proper_call_def slot_index_def is_digit_def pad_args_def)

end
