(* ===== verification/Strutil.thy ===== *)
theory Strutil imports Prelude begin

text \<open>
  The templates of \<open>libs/mars/include/mars/comm/strutil.h\<close>: the class \<open>Tokenizer\<close> and \<open>MergeToken\<close>,
  over strings of any character type. \<open>npos\<close> is \<open>None\<close>. The functions the header only declares are
  compiled into the Mars library.
\<close>

section \<open>Searching\<close>

text \<open>\<open>find_first_of(cs, offset)\<close> and \<open>find_first_not_of\<close>: the least position from the offset on.\<close>

definition find_from :: "('c \<Rightarrow> bool) \<Rightarrow> 'c list \<Rightarrow> nat \<Rightarrow> nat option" where
  "find_from P s offset =
     (let n = length (takeWhile (\<lambda>c. \<not> P c) (drop offset s))
      in if offset + n < length s then Some (offset + n) else None)"

definition find_first_of :: "'c list \<Rightarrow> 'c list \<Rightarrow> nat \<Rightarrow> nat option" where
  "find_first_of s cs offset = find_from (\<lambda>c. c \<in> set cs) s offset"

definition find_first_not_of :: "'c list \<Rightarrow> 'c list \<Rightarrow> nat \<Rightarrow> nat option" where
  "find_first_not_of s cs offset = find_from (\<lambda>c. c \<notin> set cs) s offset"

definition substr :: "'c list \<Rightarrow> nat \<Rightarrow> nat \<Rightarrow> 'c list" where
  "substr s i n = take n (drop i s)"

section \<open>Tokenizer\<close>

definition default_delimiters :: string where
  "default_delimiters = '' '' @ [CHR 9, CHR 10, CHR 13] @ '';:,.?''"

record 'c tokenizer =
  offset_field :: nat
  string_field :: "'c list"
  token_field :: "'c list"
  delimiters_field :: "'c list"

definition Tokenizer_new :: "'c list \<Rightarrow> 'c list \<Rightarrow> 'c tokenizer" where
  "Tokenizer_new str delimiters =
     \<lparr>offset_field = 0, string_field = str, token_field = [], delimiters_field = delimiters\<rparr>"

definition Tokenizer_Reset :: "'c tokenizer \<Rightarrow> 'c tokenizer" where
  "Tokenizer_Reset t = t\<lparr>offset_field := 0\<rparr>"

definition GetToken :: "'c tokenizer \<Rightarrow> 'c list" where
  "GetToken t = token_field t"

definition NextToken_delims :: "'c list \<Rightarrow> 'c tokenizer \<Rightarrow> bool \<times> 'c tokenizer" where
  "NextToken_delims delimiters t =
     (case find_first_not_of (string_field t) delimiters (offset_field t) of
        None \<Rightarrow> (False, t\<lparr>offset_field := length (string_field t)\<rparr>)
      | Some i \<Rightarrow>
          (case find_first_of (string_field t) delimiters i of
             None \<Rightarrow>
               (True, t\<lparr>token_field := substr (string_field t) i (length (string_field t) - i),
                  offset_field := length (string_field t)\<rparr>)
           | Some j \<Rightarrow>
               (True, t\<lparr>token_field := substr (string_field t) i (j - i), offset_field := j\<rparr>)))"

definition NextToken :: "'c tokenizer \<Rightarrow> bool \<times> 'c tokenizer" where
  "NextToken t = NextToken_delims (delimiters_field t) t"

section \<open>MergeToken\<close>

text \<open>The loop from iterator \<open>i\<close> on; \<open>iter + 1 != end\<close> is whether another part follows.\<close>

fun merge_loop :: "'c list list \<Rightarrow> 'c list \<Rightarrow> 'c list \<Rightarrow> 'c list" where
  "merge_loop [] delimiter result = result"
| "merge_loop (p # ps) delimiter result =
     (let result = result @ p;
          result = (if ps \<noteq> [] then result @ delimiter else result)
      in merge_loop ps delimiter result)"

definition MergeToken :: "'c list list \<Rightarrow> 'c list \<Rightarrow> 'c list \<Rightarrow> bool \<times> 'c list" where
  "MergeToken parts delimiter result =
     (if parts = [] then (False, result)
      else if delimiter = [] then (False, result)
      else (True, merge_loop parts delimiter []))"

section \<open>Reading all tokens\<close>

text \<open>What a caller gets that asks until there is no token, within a number of calls.\<close>

fun all_tokens :: "nat \<Rightarrow> 'c tokenizer \<Rightarrow> 'c list list option" where
  "all_tokens 0 t = None"
| "all_tokens (Suc n) t =
     (let (more, t') = NextToken t
      in if more then map_option (\<lambda>ts. GetToken t' # ts) (all_tokens n t') else Some [])"

text \<open>The reference: the maximal runs of characters that are no delimiters.\<close>

function runs :: "('c \<Rightarrow> bool) \<Rightarrow> 'c list \<Rightarrow> 'c list list" where
  "runs D s =
     (case dropWhile D s of
        [] \<Rightarrow> []
      | c # cs \<Rightarrow> takeWhile (\<lambda>c. \<not> D c) (c # cs) # runs D (dropWhile (\<lambda>c. \<not> D c) (c # cs)))"
  by pat_completeness auto
termination
proof (relation "measure (\<lambda>(D, s). length s)", goal_cases)
  case (2 D s c cs)
  then have "\<not> D c"
    by (metis hd_dropWhile list.discI list.sel(1))
  moreover have "length (c # cs) \<le> length s"
    using 2 length_dropWhile_le [of D s] by simp
  ultimately show ?case
    using length_dropWhile_le [of "\<lambda>c. \<not> D c" cs] by simp
qed simp

declare runs.simps [simp del]

lemma drop_takeWhile: "drop (length (takeWhile P s)) s = dropWhile P s"
  by (induction s) auto

lemma find_from_None: "find_from P s k = None \<longleftrightarrow> (\<forall>c \<in> set (drop k s). \<not> P c)"
proof -
  have "find_from P s k = None \<longleftrightarrow> length (drop k s) \<le> length (takeWhile (\<lambda>c. \<not> P c) (drop k s))"
    by (cases "k \<le> length s") (auto simp: find_from_def Let_def)
  also have "\<dots> \<longleftrightarrow> takeWhile (\<lambda>c. \<not> P c) (drop k s) = drop k s"
    by (metis length_takeWhile_le le_antisym order_refl takeWhile_eq_take take_all_iff)
  finally show ?thesis by (simp add: takeWhile_eq_all_conv)
qed

lemma find_from_Some:
  "find_from P s k = Some i \<Longrightarrow>
     drop i s = dropWhile (\<lambda>c. \<not> P c) (drop k s) \<and> i < length s \<and>
     i = k + length (takeWhile (\<lambda>c. \<not> P c) (drop k s))"
  by (auto simp: find_from_def Let_def add.commute simp flip: drop_takeWhile split: if_splits)

text \<open>One call, in terms of what is left of the string.\<close>

definition unread :: "'c tokenizer \<Rightarrow> 'c list" where
  "unread t = drop (offset_field t) (string_field t)"

lemma NextToken_rest:
  fixes t :: "'c tokenizer"
  defines "D \<equiv> \<lambda>c. c \<in> set (delimiters_field t)"
  shows "case dropWhile D (unread t) of
      [] \<Rightarrow> fst (NextToken t) = False
    | c # cs \<Rightarrow> fst (NextToken t) = True \<and>
        token_field (snd (NextToken t)) = takeWhile (\<lambda>c. \<not> D c) (c # cs) \<and>
        unread (snd (NextToken t)) = dropWhile (\<lambda>c. \<not> D c) (c # cs) \<and>
        delimiters_field (snd (NextToken t)) = delimiters_field t"
proof (cases "find_first_not_of (string_field t) (delimiters_field t) (offset_field t)")
  case None
  then have "dropWhile D (unread t) = []"
    by (auto simp: find_first_not_of_def find_from_None unread_def D_def)
  with None show ?thesis
    by (simp add: NextToken_def NextToken_delims_def del: dropWhile_eq_Nil_conv)
next
  case (Some i)
  then have i: "drop i (string_field t) = dropWhile D (unread t)" "i < length (string_field t)"
    using find_from_Some [of "\<lambda>c. c \<notin> set (delimiters_field t)"]
    by (simp_all add: find_first_not_of_def unread_def D_def)
  then obtain c cs where c: "dropWhile D (unread t) = c # cs"
    by (cases "dropWhile D (unread t)") auto
  show ?thesis
  proof (cases "find_first_of (string_field t) (delimiters_field t) i")
    case None
    then have "\<forall>c \<in> set (drop i (string_field t)). \<not> D c"
      unfolding find_first_of_def find_from_None D_def .
    then have "\<forall>c \<in> set (c # cs). \<not> D c"
      unfolding i(1) c .
    then have w: "takeWhile (\<lambda>c. \<not> D c) (c # cs) = c # cs" "dropWhile (\<lambda>c. \<not> D c) (c # cs) = []"
      by (auto simp: takeWhile_eq_all_conv)
    have "substr (string_field t) i (length (string_field t) - i) = c # cs"
      unfolding substr_def using i(1) c by (metis length_drop order_refl take_all)
    then have "NextToken t = (True, t\<lparr>token_field := c # cs, offset_field := length (string_field t)\<rparr>)"
      using None Some by (simp add: NextToken_def NextToken_delims_def)
    then show ?thesis
      unfolding c list.case w by (simp add: unread_def)
  next
    case j: (Some j)
    then have w: "drop j (string_field t) = dropWhile (\<lambda>c. \<not> D c) (c # cs)"
      "j = i + length (takeWhile (\<lambda>c. \<not> D c) (c # cs))"
      using find_from_Some [of D "string_field t" i j] unfolding find_first_of_def i(1) c
      by (simp_all only: D_def)
    have "substr (string_field t) i (j - i) = takeWhile (\<lambda>c. \<not> D c) (c # cs)"
      unfolding substr_def i(1) c w(2) by (metis add_diff_cancel_left' takeWhile_eq_take)
    then have "NextToken t =
        (True, t\<lparr>token_field := takeWhile (\<lambda>c. \<not> D c) (c # cs), offset_field := j\<rparr>)"
      using Some j by (simp add: NextToken_def NextToken_delims_def)
    then show ?thesis
      unfolding c list.case w(1) [symmetric] by (simp add: unread_def del: takeWhile.simps)
  qed
qed

lemma all_tokens_runs:
  "length (unread t) < n \<Longrightarrow>
     all_tokens n t = Some (runs (\<lambda>c. c \<in> set (delimiters_field t)) (unread t))"
proof (induction n arbitrary: t)
  case (Suc n)
  let ?D = "\<lambda>c. c \<in> set (delimiters_field t)"
  show ?case
  proof (cases "dropWhile ?D (unread t)")
    case Nil
    with NextToken_rest [of t] show ?thesis
      by (subst runs.simps) (simp add: split_def del: dropWhile_eq_Nil_conv)
  next
    case (Cons c cs)
    obtain t' where t': "NextToken t = (True, t')" "token_field t' = takeWhile (\<lambda>c. \<not> ?D c) (c # cs)"
      "unread t' = dropWhile (\<lambda>c. \<not> ?D c) (c # cs)" "delimiters_field t' = delimiters_field t"
      using NextToken_rest [of t] Cons by (cases "NextToken t") auto
    have "\<not> ?D c"
      using Cons hd_dropWhile [of ?D "unread t"] by simp
    then have "length (unread t') < length (c # cs)"
      using t'(3) length_dropWhile_le [of "\<lambda>c. \<not> ?D c" cs] by simp
    also have "length (c # cs) \<le> length (unread t)"
      using length_dropWhile_le [of ?D "unread t"] Cons by simp
    finally have "all_tokens n t' = Some (runs ?D (unread t'))"
      using Suc t'(4) by simp
    with t' Cons show ?thesis
      by (subst runs.simps) (simp add: GetToken_def)
  qed
qed simp

text \<open>Merging.\<close>

lemma merge_loop_acc: "merge_loop ps d acc = acc @ merge_loop ps d []"
proof (induction ps arbitrary: acc)
  case (Cons p ps)
  show ?case
    using Cons [of "acc @ p"] Cons [of "acc @ p @ d"] Cons [of p] Cons [of "p @ d"]
    by (simp add: Let_def)
qed simp

lemma runs_delimiters: "\<forall>c \<in> set d. D c \<Longrightarrow> runs D (d @ s) = runs D s"
  by (subst (1 2) runs.simps) (simp add: dropWhile_append2)

lemma runs_part:
  assumes "p \<noteq> []" and "\<forall>c \<in> set p. \<not> D c" and "s = [] \<or> D (hd s)"
  shows "runs D (p @ s) = p # runs D s"
proof -
  have "dropWhile D (p @ s) = p @ s"
    using assms(1,2) by (cases p) auto
  moreover have "takeWhile (\<lambda>c. \<not> D c) (p @ s) = p" "dropWhile (\<lambda>c. \<not> D c) (p @ s) = s"
    using assms(2,3) by (cases s; simp add: takeWhile_append dropWhile_append)+
  ultimately show ?thesis
    using assms(1) by (subst runs.simps) (cases "p @ s"; simp)
qed

lemma runs_merge:
  assumes "d \<noteq> []" and "\<forall>c \<in> set d. D c"
  shows "\<forall>p \<in> set ps. p \<noteq> [] \<and> (\<forall>c \<in> set p. \<not> D c) \<Longrightarrow> runs D (merge_loop ps d []) = ps"
proof (induction ps)
  case Nil
  show ?case by (simp add: runs.simps)
next
  case (Cons p ps)
  show ?case
  proof (cases "ps = []")
    case True
    with Cons.prems runs_part [of p D "[]"] show ?thesis
      by (simp add: runs.simps [of D "[]"])
  next
    case False
    have "merge_loop (p # ps) d [] = p @ d @ merge_loop ps d []"
      using False merge_loop_acc [of ps d "p @ d"] by simp
    moreover have "D (hd (d @ merge_loop ps d []))"
      using assms by (cases d) auto
    ultimately show ?thesis
      using Cons runs_part [of p D "d @ merge_loop ps d []"] runs_delimiters [of d D] assms(2) by simp
  qed
qed

section \<open>Properties\<close>

text \<open>C39: asking a tokenizer until it says no yields the maximal runs of characters that are not
  delimiters, in order, and takes at most one call more than the string has characters.\<close>

theorem Tokenizer_yields_runs:
  "all_tokens (length s + 1) (Tokenizer_new s ds) = Some (runs (\<lambda>c. c \<in> set ds) s)"
  using all_tokens_runs [of "Tokenizer_new s ds" "length s + 1"]
  by (simp add: Tokenizer_new_def unread_def del: all_tokens.simps)

text \<open>C40: tokenizing what \<open>MergeToken\<close> made gives the parts back, when the parts are not empty and
  contain no delimiter, and the separator is made of delimiters.\<close>

theorem MergeToken_roundtrip:
  assumes "parts \<noteq> []" and "d \<noteq> []" and "set d \<subseteq> set ds"
    and "\<And>p. p \<in> set parts \<Longrightarrow> p \<noteq> [] \<and> set p \<inter> set ds = {}"
  shows "\<exists>s. MergeToken parts d old = (True, s) \<and>
    all_tokens (length s + 1) (Tokenizer_new s ds) = Some parts"
proof -
  have "runs (\<lambda>c. c \<in> set ds) (merge_loop parts d []) = parts"
    using assms(2-4) by (intro runs_merge) fastforce+
  then have "all_tokens (length (merge_loop parts d []) + 1) (Tokenizer_new (merge_loop parts d []) ds) = Some parts"
    using all_tokens_runs [of "Tokenizer_new (merge_loop parts d []) ds"]
    by (simp add: Tokenizer_new_def unread_def del: all_tokens.simps)
  then show ?thesis
    using assms(1,2) by (auto simp: MergeToken_def)
qed

theorem MergeToken_roundtrip_witness:
  "\<exists>s. MergeToken [''ab'', ''c''] '', '' [] = (True, s) \<and>
    all_tokens (length s + 1) (Tokenizer_new s default_delimiters) = Some [''ab'', ''c'']"
  by (rule MergeToken_roundtrip) (auto simp: default_delimiters_def)

end
