(* ===== verification/Win32Threads.thy ===== *)
theory Win32Threads imports Prelude begin

text \<open>
  The thread macros of \<open>src/src/base.h\<close> for Windows: the pthread functions by name, expressed with the
  Win32 API. The API is a parameter, a record of functions on an abstract world; a handle is a number
  and 0 is the null handle. \<open>win32_ok\<close> states what its manual documents of the results. The macros
  take a pointer to a handle: its target is passed and returned. \<open>FALSE\<close> is 0.
\<close>

record 'w win32 =
  w_beginthreadex :: "'w \<Rightarrow> int \<times> 'w"
  w_WaitForSingleObject :: "int \<Rightarrow> 'w \<Rightarrow> int \<times> 'w"
  w_CloseHandle :: "int \<Rightarrow> 'w \<Rightarrow> int \<times> 'w"
  w_Sleep :: "int \<Rightarrow> 'w \<Rightarrow> 'w"
  w_TerminateThread :: "int \<Rightarrow> int \<Rightarrow> 'w \<Rightarrow> int \<times> 'w"
  w_TlsAlloc :: "'w \<Rightarrow> int \<times> 'w"
  w_TlsGetValue :: "int \<Rightarrow> 'w \<Rightarrow> int \<times> 'w"
  w_TlsSetValue :: "int \<Rightarrow> int \<Rightarrow> 'w \<Rightarrow> int \<times> 'w"
  w_GetCurrentThreadId :: "'w \<Rightarrow> int \<times> 'w"
  w_ReleaseMutex :: "int \<Rightarrow> 'w \<Rightarrow> int \<times> 'w"
  w_CreateMutex :: "'w \<Rightarrow> int \<times> 'w"
  w_CreateEvent :: "'w \<Rightarrow> int \<times> 'w"
  w_SetEvent :: "int \<Rightarrow> 'w \<Rightarrow> int \<times> 'w"
  w_SignalObjectAndWait :: "int \<Rightarrow> int \<Rightarrow> nat option \<Rightarrow> 'w \<Rightarrow> int \<times> 'w"

definition WAIT_OBJECT_0 :: int where
  "WAIT_OBJECT_0 = 0"

section \<open>Threads\<close>

text \<open>The result and the new value of the handle.\<close>

definition win_pthread_create :: "'w win32 \<Rightarrow> 'w \<Rightarrow> int \<times> int \<times> 'w" where
  "win_pthread_create api w =
     (let (h, w) = w_beginthreadex api w in (if h = 0 then 1 else 0, h, w))"

text \<open>\<open>||\<close>: the handle is closed only when the wait succeeded.\<close>

definition win_pthread_join :: "'w win32 \<Rightarrow> int \<Rightarrow> 'w \<Rightarrow> int \<times> 'w" where
  "win_pthread_join api thread w =
     (let (r, w) = w_WaitForSingleObject api thread w
      in if r \<noteq> WAIT_OBJECT_0 then (1, w)
         else let (c, w) = w_CloseHandle api thread w in (if c = 0 then 1 else 0, w))"

definition win_pthread_detach :: "'w win32 \<Rightarrow> int \<Rightarrow> 'w \<Rightarrow> 'w" where
  "win_pthread_detach api thread w = (if thread \<noteq> 0 then snd (w_CloseHandle api thread w) else w)"

definition win_thread_sleep :: "'w win32 \<Rightarrow> int \<Rightarrow> 'w \<Rightarrow> 'w" where
  "win_thread_sleep api nms w = w_Sleep api nms w"

text \<open>The same macro on other systems: whole seconds, rounded.\<close>

definition posix_thread_sleep :: "(nat \<Rightarrow> 'w \<Rightarrow> 'w) \<Rightarrow> nat \<Rightarrow> 'w \<Rightarrow> 'w" where
  "posix_thread_sleep sleep nms w = sleep ((nms + 500) div 1000) w"

lemma posix_thread_sleep_short: "nms < 500 \<Longrightarrow> posix_thread_sleep sleep nms w = sleep 0 w"
  by (simp add: posix_thread_sleep_def)

definition win_pthread_cancel :: "'w win32 \<Rightarrow> int \<Rightarrow> 'w \<Rightarrow> int \<times> 'w" where
  "win_pthread_cancel api thread w = w_TerminateThread api thread 0 w"

definition win_ts_key_create :: "'w win32 \<Rightarrow> 'w \<Rightarrow> int \<times> 'w" where
  "win_ts_key_create api w = w_TlsAlloc api w"

definition win_pthread_getspecific :: "'w win32 \<Rightarrow> int \<Rightarrow> 'w \<Rightarrow> int \<times> 'w" where
  "win_pthread_getspecific api key w = w_TlsGetValue api key w"

definition win_pthread_setspecific :: "'w win32 \<Rightarrow> int \<Rightarrow> int \<Rightarrow> 'w \<Rightarrow> int \<times> 'w" where
  "win_pthread_setspecific api key val w = w_TlsSetValue api key val w"

definition win_pthread_self :: "'w win32 \<Rightarrow> 'w \<Rightarrow> int \<times> 'w" where
  "win_pthread_self api w = w_GetCurrentThreadId api w"

section \<open>Mutexes and conditions\<close>

definition win_pthread_mutex_lock :: "'w win32 \<Rightarrow> int \<Rightarrow> 'w \<Rightarrow> int \<times> 'w" where
  "win_pthread_mutex_lock api obj w = w_WaitForSingleObject api obj w"

definition win_pthread_mutex_unlock :: "'w win32 \<Rightarrow> int \<Rightarrow> 'w \<Rightarrow> int \<times> 'w" where
  "win_pthread_mutex_unlock api obj w = w_ReleaseMutex api obj w"

text \<open>The value of the assignment is the handle.\<close>

definition win_pthread_mutex_init :: "'w win32 \<Rightarrow> 'w \<Rightarrow> int \<times> int \<times> 'w" where
  "win_pthread_mutex_init api w = (let (h, w) = w_CreateMutex api w in (h, h, w))"

definition win_pthread_cond_init :: "'w win32 \<Rightarrow> 'w \<Rightarrow> int \<times> int \<times> 'w" where
  "win_pthread_cond_init api w = (let (h, w) = w_CreateEvent api w in (h, h, w))"

definition win_pthread_mutex_destroy :: "'w win32 \<Rightarrow> int \<Rightarrow> 'w \<Rightarrow> int \<times> 'w" where
  "win_pthread_mutex_destroy api obj w = w_CloseHandle api obj w"

definition win_pthread_cond_destroy :: "'w win32 \<Rightarrow> int \<Rightarrow> 'w \<Rightarrow> int \<times> 'w" where
  "win_pthread_cond_destroy api obj w = w_CloseHandle api obj w"

text \<open>\<open>None\<close> is \<open>INFINITE\<close>.\<close>

definition win_pthread_cond_wait :: "'w win32 \<Rightarrow> int \<Rightarrow> int \<Rightarrow> 'w \<Rightarrow> 'w" where
  "win_pthread_cond_wait api cv mutex w =
     (let (r, w) = w_SignalObjectAndWait api mutex cv None w
      in snd (w_WaitForSingleObject api mutex w))"

text \<open>The time asked for is not used.\<close>

definition win_pthread_cond_timedwait :: "'w win32 \<Rightarrow> int \<Rightarrow> int \<Rightarrow> int \<times> int \<Rightarrow> 'w \<Rightarrow> int \<times> 'w" where
  "win_pthread_cond_timedwait api cv mutex time w = w_SignalObjectAndWait api mutex cv (Some 1000) w"

definition win_pthread_cond_signal :: "'w win32 \<Rightarrow> int \<Rightarrow> 'w \<Rightarrow> int \<times> 'w" where
  "win_pthread_cond_signal api cv w = w_SetEvent api cv w"

section \<open>The contract of the emulation\<close>

text \<open>
  \<open>owned\<close> tells which mutexes the calling thread holds. A mutex handle that was created is not null;
  waiting for a free mutex takes it, releasing an owned one gives it back and answers non-zero.
\<close>

definition win32_ok :: "('w \<Rightarrow> int set) \<Rightarrow> 'w win32 \<Rightarrow> bool" where
  "win32_ok owned api \<longleftrightarrow>
     (\<forall>w. let (h, w') = w_CreateMutex api w in h \<noteq> 0 \<longrightarrow> h \<notin> owned w' \<and> owned w' = owned w) \<and>
     (\<forall>h w. let (r, w') = w_WaitForSingleObject api h w
        in r = WAIT_OBJECT_0 \<longrightarrow> owned w' = insert h (owned w)) \<and>
     (\<forall>h w. let (r, w') = w_ReleaseMutex api h w
        in (r \<noteq> 0) = (h \<in> owned w) \<and> owned w' = owned w - {h})"

text \<open>
  Callers of pthread take 0 for success. The emulated \<open>lock\<close> answers so, the emulated \<open>init\<close> and
  \<open>unlock\<close> answer the other way round: 0 exactly when they failed.
\<close>

theorem win32_mutex_results:
  assumes "win32_ok owned api"
    and "win_pthread_mutex_init api w = (r0, h, w1)" and "h \<noteq> 0"
    and "win_pthread_mutex_lock api h w1 = (0, w2)"
    and "win_pthread_mutex_unlock api h w2 = (r2, w3)"
    and "win_pthread_mutex_unlock api h w3 = (r3, w4)"
  shows "r0 \<noteq> 0 \<and> h \<in> owned w2 \<and> r2 \<noteq> 0 \<and> h \<notin> owned w3 \<and> r3 = 0"
proof -
  have lock: "w_WaitForSingleObject api h w1 = (0, w2)"
    and unlock: "w_ReleaseMutex api h w2 = (r2, w3)" "w_ReleaseMutex api h w3 = (r3, w4)"
    using assms(4-6) by (simp_all add: win_pthread_mutex_lock_def win_pthread_mutex_unlock_def)
  have "r0 \<noteq> 0"
    using assms(2,3) by (auto simp: win_pthread_mutex_init_def split: prod.splits)
  moreover have "owned w2 = insert h (owned w1)"
    using assms(1) lock unfolding win32_ok_def WAIT_OBJECT_0_def by (metis (mono_tags, lifting) case_prod_conv)
  moreover have rel: "(r \<noteq> 0) = (h \<in> owned u) \<and> owned u' = owned u - {h}"
    if "w_ReleaseMutex api h u = (r, u')" for u r u'
    using assms(1) that unfolding win32_ok_def by (metis (mono_tags, lifting) case_prod_conv)
  ultimately show ?thesis
    using rel [OF unlock(1)] rel [OF unlock(2)] by auto
qed

end
