(* ===== verification/Spec2Isabelle.thy ===== *)
theory Spec2Isabelle
  imports MarsInterface TaskRace TaskLocking IdRace ShortlinkPacker EchoSession EchoDrain EchoClosed Demo LogCalls XLogMacros Strutil
    Win32Threads
begin

text \<open>
  Verification of mars_wrapper, the C++ wrapper around the Mars network library, with its demo
  programs and the code in the headers of Mars that comes with it.

  \<^bold>\<open>The program.\<close> A user calls \<open>init\<close>, \<open>sendMessage\<close> and the two registrations of
  \<open>include/mars_plus.h\<close>. \<open>sendMessage\<close> copies the message into an \<open>ImMessage\<close> (a packed header of
  three 32-bit fields, then the body), stores a \<open>TaskContext\<close> under the message's id in a table behind
  a mutex, and starts a Mars task. Mars calls back: \<open>Req2Buf\<close> asks for the bytes to send,
  \<open>longlink_pack\<close> and \<open>longlink_unpack\<close> frame the TCP stream, \<open>Buf2Resp\<close> hands an answer to the
  listener, \<open>OnPush\<close> a packet without a task, and \<open>OnTaskEnd\<close> reports the end of a task and frees its
  context. \<open>shortlink_pack\<close> does the same over HTTP. The demo has a client that uses the wrapper, a
  plain TCP client, and an echo server over \<open>epoll\<close>.

  \<^bold>\<open>Theories and sources\<close> (paths under \<open>src/\<close>; \<open>mars/\<close> is \<open>libs/mars/include/mars/\<close>).
  \<^item> \<open>Prelude\<close>: words, undefined behaviour as the error type \<open>ub\<close>, checked memory blocks, C integer
    conversions. \<open>CLib\<close>: the C library functions on text, \<open>strtoimax\<close> and \<open>strtoumax\<close> among them. \<open>Endian\<close>: byte order.
  \<^item> \<open>AutoBuffer\<close>: the buffer class, whose code is in the binary library, as a record of functions
    with the hypothesis \<open>autobuffer_ok\<close>; \<open>list_buffer\<close> shows that it can hold.
  \<^item> \<open>ImMessage\<close>: \<open>src/im_message.*\<close>. The block behind \<open>m_message\<close> is a list of cells, so that reading
    past its end or before it is written is an error value.
  \<^item> \<open>LonglinkPacker\<close>: \<open>src/proxy/longlink_packer.*\<close>, for every width of \<open>size_t\<close> from 32 bits.
  \<^item> \<open>AppState\<close>: the static variables of the wrapper, its heap objects and the trace of its calls into
    Mars and into the listeners, as one record. \<open>Singleton\<close>: the two singletons and
    \<open>src/proxy/app_callback.*\<close>.
  \<^item> \<open>MutexBase\<close>: the class \<open>Mutex\<close> of \<open>src/base.h\<close>; pthread calls are a parameter. \<open>Win32Threads\<close>: the
    thread macros of the same file for Windows; the Win32 API is a parameter.
  \<^item> \<open>TaskProxy\<close>: \<open>src/proxy/mars_task_proxy.*\<close>; \<open>TaskLocking\<close>: all its accesses to the table as steps
    of threads that interleave; \<open>TaskRace\<close>: its \<open>removeTaskContext\<close> with the objects it frees.
  \<^item> \<open>StnCallback\<close>: \<open>src/proxy/stn_callback.*\<close>. \<open>MarsPlus\<close>: \<open>src/mars_plus.cpp\<close>, the runs of the wrapper
    (\<open>reachable\<close>) and the abstract view, a finite map of pending messages (\<open>pending\<close>).
    \<open>TaskHistory\<close>: runs with the list of what was done, and what a listener hears of them.
    \<open>WrapperSpec\<close>: the wrapper's specification, a machine of pending messages, next id, two listeners
    and a list of calls, and the simulation of it by the entry points, replies included.
    \<open>MarsInterface\<close>: the classes of \<open>mars/stn/stn_logic.h\<close> and \<open>mars/app/app_logic.h\<close> as records of
    functions, and the simulation for virtual calls through them.
  \<^item> \<open>IdRace\<close>: \<open>sendMessage\<close> and \<open>OnPush\<close> as steps of threads that interleave, one per access to the
    counter \<open>ImMessage::messageId\<close>, the heap, the mutex, the table, the listener and Mars.
  \<^item> \<open>Http\<close>, \<open>ShortlinkPacker\<close>: the members \<open>mars/comm/http.h\<close> defines, \<open>src/proxy/shortlink_packer.cpp\<close>.
  \<^item> \<open>Preproc\<close>, \<open>StringCast\<close>, \<open>XLogger\<close>, \<open>XLogMacros\<close>, \<open>LogCalls\<close>: the logging front end of Mars, \<open>mars/xlog/preprocessor.h\<close>,
    \<open>mars/comm/string_cast.h\<close>, \<open>mars/xlog/xlogger.h\<close>, and the log calls the wrapper makes through it.
  \<^item> \<open>Strutil\<close>, \<open>NetTypes\<close>: the templates of \<open>mars/comm/strutil.h\<close>; the data types of
    \<open>mars/comm/comm_data.h\<close>, \<open>mars/sdt/sdt.h\<close> and \<open>mars/stn/stn.h\<close>.
  \<^item> \<open>EchoServer\<close>, \<open>TcpClient\<close>, \<open>Demo\<close>: \<open>demo/TcpEchoServer/*\<close> and \<open>demo/demo.cpp\<close>; system calls are
    parameters. \<open>EchoSteps\<close>: what the primitive operations of a handler keep, every run keeps.
    \<open>EchoFlow\<close>: the echo server as a relay of byte streams; \<open>EchoDrain\<close>: its progress; \<open>EchoClosed\<close>:
    connections after their end. \<open>EchoSession\<close>: the client against a peer that echoes.

  \<^bold>\<open>What is shown.\<close> In every reachable state the task lock is free, every table entry owns a context and
  a message of its own under its key, and nothing is leaked. Over every run the wrapper refines a
  specification without memory, table and lock: it returns, calls and remembers the same, and faults
  only on a packet that is shorter than its length field; without one it never stops. A task's
  listener gets exactly one final call; over a whole run the messages
  sent with a listener are those in flight plus its final calls, which come after its responses.
  The framing round-trips up to 1048564 bytes of payload and refuses more; on a stream that arrives
  piece by piece \<open>longlink_unpack\<close> waits, once the header is there, for the last byte of a frame,
  whatever lies behind the buffer. Where it goes wrong (four buffered bytes, fewer than a header, lengths near \<open>2^32\<close> with a
  32-bit \<open>size_t\<close>, several packets in one read) the exact behaviour is stated.
  The sections under the mutex exclude each other, but the lookups run outside of it: they race with
  insertions and erasures, a lookup can bring an erased entry back, and two removals of one task
  free its message twice. Removals of different tasks free nothing twice, but race on the table
  too. A push that takes its id while a user thread sends can revive an id, and then a pending message
  is lost. The results on runs are about calls that do not overlap.
  The echo server runs any number of rounds without a fault as long as no read fills its buffer. On a
  system where \<open>send\<close> takes all bytes it returns on every connection the bytes it received, in order
  and without gaps, and a round that reports a connection writable sends all that waits for it; a
  closed connection is never released. The demo client shows an empty line for what a peer echoes.
  The log calls of the wrapper write one line each with the intended text and tag, for \<open>int\<close> arguments
  below the 35 largest values. \<open>number_cast\<close> is characterised on every text, with the values it
  marks as valid though they do not fit. The properties of this
  theory compose the parts: a message goes through the wrapper, the packer, the echo server and back.

  \<^bold>\<open>Interfaces.\<close> Contracts between components are locales, interpreted on the model's own
  definitions: byte codecs (\<open>Endian\<close>), locks (\<open>MutexBase\<close>, \<open>TaskProxy\<close>), singletons (\<open>Singleton\<close>,
  \<open>EchoServer\<close>), task tables (\<open>MarsPlus\<close>), simulations (\<open>WrapperSpec\<close>,
  \<open>MarsInterface\<close>), event loops (\<open>EchoServer\<close>),
  relations kept by the steps of a handler and by the rounds of the loop (\<open>EchoSteps\<close>, interpreted in
  \<open>EchoClosed\<close> and \<open>EchoDrain\<close>), format loops (\<open>XLogger\<close>), comparisons (\<open>NetTypes\<close>).

  \<^bold>\<open>Bounds.\<close> Loops of the code are structural recursion or have a termination proof. The only fuel is the
  number of rounds of the server's endless loop and the number of calls a caller makes to a
  tokenizer; for the latter one more than the length is shown to be enough. \<open>malloc\<close> and \<open>new\<close> are
  assumed to succeed. Message ids are considered up to the reserved ids at the top of 32 bits.

  \<^bold>\<open>Not modelled.\<close> The Mars library itself (only declared in the headers); platform macros; the C
  variants of the logging macros, which the C++ code does not use; \<open>CMake\<close> files. Threads interleave
  in \<open>TaskLocking\<close>, \<open>TaskRace\<close> and \<open>IdRace\<close> only, each access taking effect at once, and the other
  callbacks have no steps there. The demo client's
  sleeps and the network are parameters. A log call is left out of the traces of the other theories;
  its arguments are evaluated there where evaluating them can fault.
\<close>

section \<open>Across the components\<close>

lemma content_small: "autobuffer_ok api \<Longrightarrow> ab_content api b = bs \<Longrightarrow> ab_length api b = length bs"
  using ab_content_length by metis

text \<open>A buffer that starts with a whole frame, through \<open>longlink_unpack\<close>.\<close>

lemma unpack_coalesced:
  fixes u :: "'s::len unpack_out"
  assumes "autobuffer_ok api" and "32 \<le> LENGTH('s)" and "ab_empty api rx"
    and "ab_content api packed = frame i answer @ rest" and "length answer \<le> 1048564"
    and "ab_length api packed < 2 ^ 31"
  shows "\<exists>u' rx'. longlink_unpack api packed u rx = Inr (LONGLINK_UNPACK_OK, u', rx') \<and>
    up_seq u' = i \<and> unat (up_package_len u') = 12 + length answer \<and>
    ab_content api rx' = frame i answer @ rest"
proof -
  have n: "length (frame i answer @ rest) = ab_length api packed"
    using content_small [OF assms(1,4)] by simp
  have "length (frame i answer @ rest) < 2 ^ LENGTH('s)"
    using assms(6) size_t_pow [OF assms(2)] unfolding n by simp
  then show ?thesis
    using unpack_arrived [OF assms(1-3), of packed "length (frame i answer @ rest)" i answer rest u] assms(4,5)
    by (auto simp: not_less)
qed

section \<open>Properties\<close>

text \<open>C7: the whole way of a message, in every reachable state: \<open>sendMessage\<close> stores it and starts its
  task, \<open>Req2Buf\<close> and \<open>longlink_pack\<close> put its frame on the wire, the echo server's handler sends back
  the bytes it reads, \<open>longlink_unpack\<close> recognises the task, \<open>Buf2Resp\<close> hands the original body to the
  listener and \<open>OnTaskEnd\<close> reports success and frees everything: the pending tasks are as before.
  Conditions: the body has less than 988 bytes, so that its frame does not fill the server's buffer;
  the frame arrives at the server in one \<open>recv\<close>; and the bytes that have arrived back at the wrapper are
  the frame. It holds for every buffer and socket layer that keeps its contract.\<close>

theorem echoed_message_round_trip:
  fixes u :: "'s::len unpack_out"
  assumes "reachable api' task0 android s" and "room_for (body, Some l) s"
    and "autobuffer_ok api" and "32 \<le> LENGTH('s)"
    and "ab_empty api out" and "ab_empty api packed" and "ab_empty api rx"
    and "messageId s \<noteq> kNoopTaskID" and "length body < 988"
    and "m_instance es = Some lst" and "length (m_buffer h) = buffer_size"
    and "os_recv os (eh_fd h) buffer_size (world es) = (Some (frame (messageId s) body), w1)"
    and "ab_content api arrived = frame (messageId s) body"
  shows "\<exists>s1 req es1 h1 es2 u' rx' s2 s3.
    sendMessage task1 body (of_nat (length body)) (Some l) s = Inr (0, s1) \<and>
    Req2Buf api (messageId s) out s1 = Inr (True, req) \<and>
    ab_content api (longlink_pack api 55 (messageId s) req packed) = frame (messageId s) body \<and>
    EchoHandler_handle os a h EPOLLIN es = Inr es1 \<and> handlers es1 a = Some (EchoHandler h1) \<and>
    EchoHandler_handle os a h1 EPOLLOUT (es1\<lparr>world := w2\<rparr>) = Inr es2 \<and>
    world es2 = snd (os_epoll_ctl os (m_epollFd es) EPOLL_CTL_MOD (eh_fd h) EPOLLIN
      (snd (os_send os (eh_fd h) (frame (messageId s) body) w2))) \<and>
    longlink_unpack api arrived u rx = Inr (LONGLINK_UNPACK_OK, u', rx') \<and>
    Buf2Resp api (up_seq u') rx' s1 = Inr (0, s2) \<and>
    OnTaskEnd (up_seq u') kEctOK ec s2 = Inr (0, s3) \<and>
    trace s3 = trace s @ [StartTask (started_task task1 (messageId s)), OnResponse l body, OnSuccess l] \<and>
    pending s3 = pending s"
proof -
  note inv = reachable_inv [OF assms(1)]
  have room: "body_fits body" "messageId s < kSignallingKeeperTaskID"
    using assms(2) by (simp_all add: room_for_def)
  have small: "length body \<le> 1048564" "length body + 12 < 2 ^ 31"
    using assms(9) by simp_all
  have len: "ab_length api arrived < 2 ^ 31"
    using content_small [OF assms(3,13)] small by simp
  obtain u' rx' where un: "longlink_unpack api arrived u rx = Inr (LONGLINK_UNPACK_OK, u', rx')"
    "up_seq u' = messageId s" "ab_content api rx' = frame (messageId s) body"
    using unpack_coalesced [OF assms(3,4,7) _ small(1) len, of "messageId s" "[]" u] assms(13) by auto
  have "ab_length api rx' < 2 ^ 31"
    using content_small [OF assms(3) un(3)] small by simp
  from answered_exchange [OF inv room assms(3) _ room(1) this, of "[]" task1 l ec] un(3)
  obtain s1 s2 s3 where ex:
    "sendMessage task1 body (of_nat (length body)) (Some l) s = Inr (0, s1)" "proxy_inv s1"
    "pending s1 (messageId s) = Some (body, Some l)" "Buf2Resp api (messageId s) rx' s1 = Inr (0, s2)"
    "OnTaskEnd (messageId s) kEctOK ec s2 = Inr (0, s3)"
    "trace s3 = trace s @ [StartTask (started_task task1 (messageId s)), OnResponse l body, OnSuccess l]"
    "pending s3 = pending s"
    by auto
  note req = Req2Buf_pending [OF ex(2,3), of api out]
  have wire: "ab_content api (longlink_pack api 55 (messageId s)
      (ab_write api out (frame (messageId s) body)) packed) = frame (messageId s) body"
    by (rule pack_frame [OF assms(3,6) ab_write_empty [OF assms(3,5)] assms(8)])
  have "0 < length (frame (messageId s) body)" "length (frame (messageId s) body) < buffer_size"
    using assms(9) by (simp_all add: buffer_size_def)
  from echo_both [OF assms(10-12) this, of a w2] show ?thesis
    using ex un(1,2) req wire by metis
qed

theorem echoed_message_round_trip_witness:
  "\<exists>s1 req es1 h1 es2 u' rx' s2 s3.
    sendMessage undefined [104, 105] (of_nat (length [104, 105 :: byte])) (Some 7) initial_state = Inr (0, s1) \<and>
    Req2Buf list_buffer (messageId initial_state) ([], 0) s1 = Inr (True, req) \<and>
    ab_content list_buffer (longlink_pack list_buffer 55 (messageId initial_state) req ([], 0)) =
      frame (messageId initial_state) [104, 105] \<and>
    EchoHandler_handle (sim_os 1000) 1 (EchoHandler_new 7) EPOLLIN
      ((echo_initial \<lparr>sim_reg = Map.empty, sim_in = [frame 10000 [104, 105]], sim_out = []\<rparr>)\<lparr>m_instance := Some 9\<rparr>) =
      Inr es1 \<and> handlers es1 1 = Some (EchoHandler h1) \<and>
    EchoHandler_handle (sim_os 1000) 1 h1 EPOLLOUT
      (es1\<lparr>world := \<lparr>sim_reg = Map.empty, sim_in = [], sim_out = []\<rparr>\<rparr>) = Inr es2 \<and>
    world es2 = snd (os_epoll_ctl (sim_os 1000)
      (m_epollFd ((echo_initial \<lparr>sim_reg = Map.empty, sim_in = [frame 10000 [104, 105]], sim_out = []\<rparr>)\<lparr>m_instance := Some 9\<rparr>))
      EPOLL_CTL_MOD (eh_fd (EchoHandler_new 7)) EPOLLIN
      (snd (os_send (sim_os 1000) (eh_fd (EchoHandler_new 7)) (frame (messageId initial_state) [104, 105])
        \<lparr>sim_reg = Map.empty, sim_in = [], sim_out = []\<rparr>))) \<and>
    longlink_unpack list_buffer (frame 10000 [104, 105], 0)
      \<lparr>up_cmdid = 0, up_seq = 0, up_package_len = 0, up_body_len = 0 :: 64 word\<rparr> ([], 0) =
      Inr (LONGLINK_UNPACK_OK, u', rx') \<and>
    Buf2Resp list_buffer (up_seq u') rx' s1 = Inr (0, s2) \<and>
    OnTaskEnd (up_seq u') kEctOK 0 s2 = Inr (0, s3) \<and>
    trace s3 = trace initial_state @ [StartTask (started_task undefined (messageId initial_state)),
      OnResponse 7 [104, 105], OnSuccess 7] \<and>
    pending s3 = pending initial_state"
proof (rule echoed_message_round_trip [of list_buffer undefined False])
  have id: "messageId initial_state = 10000"
    by (simp add: initial_state_def messageId_init_def)
  show "reachable list_buffer undefined False initial_state"
    by (rule reachable.start)
  show "room_for ([104, 105], Some 7) initial_state"
    by (simp add: room_for_def body_fits_def id kSignallingKeeperTaskID_def)
  show "messageId initial_state \<noteq> kNoopTaskID"
    by (simp add: id kNoopTaskID_def)
  show "ab_content list_buffer (frame 10000 [104, 105], 0) = frame (messageId initial_state) [104, 105]"
    by (simp add: id ab_content_def)
  show "os_recv (sim_os 1000) (eh_fd (EchoHandler_new 7)) buffer_size
      (world ((echo_initial \<lparr>sim_reg = Map.empty, sim_in = [frame 10000 [104, 105]], sim_out = []\<rparr>)\<lparr>m_instance := Some 9\<rparr>)) =
      (Some (frame (messageId initial_state) [104, 105]), \<lparr>sim_reg = Map.empty, sim_in = [], sim_out = []\<rparr>)"
    by (simp add: id sim_os_def echo_initial_def buffer_size_def)
qed (simp_all add: list_buffer_ok ab_empty_def EchoHandler_new_def)

text \<open>C33: when the read that completes a frame also brought bytes of later packets, \<open>longlink_unpack\<close>
  reports the length of the frame but hands out the whole buffer. \<open>Buf2Resp\<close> is saved by the
  length field: the listener of the task gets exactly the answer. \<open>OnPush\<close> is not: a push listener
  gets the header and the bytes of the later packets too.\<close>

theorem coalesced_packets:
  fixes u :: "'s::len unpack_out"
  assumes "reachable api' task0 android s" and "autobuffer_ok api" and "32 \<le> LENGTH('s)"
    and "ab_empty api rx" and "ab_content api packed = frame i answer @ later"
    and "length answer \<le> 1048564" and "ab_length api packed < 2 ^ 31 - 12"
    and "pending s i = Some (body, Some l)" and "g_pushListener s = Some p"
  shows "\<exists>u' rx'. longlink_unpack api packed u rx = Inr (LONGLINK_UNPACK_OK, u', rx') \<and>
    up_seq u' = i \<and> unat (up_package_len u') = length (frame i answer) \<and>
    Buf2Resp api i rx' s = Inr (0, emit (OnResponse l answer) s) \<and>
    OnPush api cmdid i rx' s = Inr (emit (OnPushMessage p (frame i answer @ later))
      (s\<lparr>messageId := messageId s + 1\<rparr>))"
proof -
  have fits: "body_fits answer"
    using assms(6) by (simp add: body_fits_def)
  have "ab_length api packed < 2 ^ 31"
    using assms(7) by simp
  from unpack_coalesced [OF assms(2-6) this, of u] obtain u' rx' where
    un: "longlink_unpack api packed u rx = Inr (LONGLINK_UNPACK_OK, u', rx')" "up_seq u' = i"
      "unat (up_package_len u') = 12 + length answer" "ab_content api rx' = frame i answer @ later"
    by blast
  have n: "ab_length api rx' < 2 ^ 31 - 12"
    using assms(7) content_small [OF assms(2,5)] content_small [OF assms(2) un(4)] by simp
  then have "ab_length api rx' < 2 ^ 31"
    by simp
  from Buf2Resp_pending [OF reachable_inv [OF assms(1)] assms(8,2) un(4) fits this]
    OnPush_result [OF assms(2) n, of cmdid i s] un assms(9)
  show ?thesis by auto
qed

theorem coalesced_packets_witness:
  "\<exists>s u' rx'. longlink_unpack list_buffer (frame 10000 [104] @ [1, 2], 0)
      \<lparr>up_cmdid = 0, up_seq = 0, up_package_len = 0, up_body_len = 0 :: 64 word\<rparr> ([], 0) =
      Inr (LONGLINK_UNPACK_OK, u', rx') \<and>
    up_seq u' = 10000 \<and> unat (up_package_len u') = length (frame 10000 [104]) \<and>
    Buf2Resp list_buffer 10000 rx' s = Inr (0, emit (OnResponse 7 [104]) s) \<and>
    OnPush list_buffer 55 10000 rx' s = Inr (emit (OnPushMessage 9 (frame 10000 [104] @ [1, 2]))
      (s\<lparr>messageId := messageId s + 1\<rparr>))"
proof -
  let ?s = "registerPushListener (Some 9) (stored undefined [104] (Some 7) initial_state)"
  have id: "messageId initial_state = 10000"
    by (simp add: initial_state_def messageId_init_def)
  let ?a = "action.Send [104] (Some 7) :: (byte list \<times> nat) action"
  have room: "body_fits [104]" "messageId initial_state < kSignallingKeeperTaskID"
    by (simp_all add: body_fits_def initial_state_def messageId_init_def kSignallingKeeperTaskID_def)
  have "sendMessage undefined [104] (of_nat (length [104 :: byte])) (Some 7) initial_state =
      Inr (0, stored undefined [104] (Some 7) initial_state)"
    using sendMessage_stored [of initial_state 1 "[104]" undefined "Some 7"]
    by (simp add: initial_state_def)
  then have "reachable list_buffer undefined False (stored undefined [104] (Some 7) initial_state)"
    using room by (intro reachable.step [OF reachable.start, of ?a]) (simp_all add: room_for_def)
  then have r: "reachable list_buffer undefined False ?s"
    by (rule reachable.step [of _ _ _ _ "RegisterPush (Some 9)"]) simp_all
  have p: "pending ?s 10000 = Some ([104], Some 7)"
    using pending_stored [OF proxy_inv_initial room(1), of undefined "Some 7"] id by simp
  show ?thesis
    by (rule exI [of _ ?s], rule coalesced_packets [OF r list_buffer_ok _ _ _ _ _ p])
      (simp_all add: ab_empty_def ab_content_def registerPushListener_def)
qed

end
